(* ===== verification/Wire_Prelude.thy ===== *)
theory Wire_Prelude
  imports Main "HOL-Library.Word"
begin

text \<open>
  Shared vocabulary of the development: the fixed-width integer types of the C sources, nullable
  pointers, the status codes of \<open>include/mcl/wire.h\<close>, the \<open>MCL_TRY\<close> early-return sequencing of
  \<open>src/wire.c\<close> and \<open>src/extension.c\<close>, and the generic lemmas on bit strings (most significant bit
  first) that carry the codec proofs.
\<close>

unbundle bit_operations_syntax

named_theorems wire_bits \<open>facts that move between words, bytes and bit strings\<close>

section \<open>Integers and pointers of the C sources\<close>

text \<open>
  \<open>uint8_t\<close>, \<open>uint16_t\<close>, \<open>uint32_t\<close> are words of their width; \<open>int16_t\<close> and \<open>int32_t\<close> are words
  read through \<^const>\<open>sint\<close>. \<open>unsigned\<close> loop counters and \<open>size_t\<close> are natural numbers: the code
  keeps every one of them below the size of an existing buffer, and each subtraction of two sizes
  is guarded by a comparison that makes it non-negative.
\<close>

type_synonym u8 = "8 word"
type_synonym u16 = "16 word"
type_synonym u32 = "32 word"
type_synonym s16 = "16 word"
type_synonym s32 = "32 word"

text \<open>
  A pointer argument is \<open>None\<close> for \<open>NULL\<close> and \<open>Some x\<close> for a pointer to an object that currently
  holds \<open>x\<close>. A pointer to an array is \<open>Some xs\<close> with \<open>xs\<close> the bytes from the pointer on. A
  function that writes through a pointer returns the pointer's new contents.
\<close>

type_synonym 'a ptr = "'a option"

section \<open>Status codes\<close>

datatype mcl_wire_status =
    MCL_WIRE_OK
  | MCL_WIRE_ERR_INVALID_ARGUMENT
  | MCL_WIRE_ERR_BUFFER_TOO_SMALL
  | MCL_WIRE_ERR_RANGE
  | MCL_WIRE_ERR_TRUNCATED
  | MCL_WIRE_ERR_UNSUPPORTED_SEMANTIC
  | MCL_WIRE_ERR_NONCANONICAL

section \<open>Early return: the macro MCL_TRY\<close>

text \<open>
  A statement of a function body maps the state to a status and the new state. \<open>MCL_TRY(e); rest\<close>
  runs \<open>e\<close>, returns its status if that is not \<open>MCL_WIRE_OK\<close> (with whatever \<open>e\<close> has already
  written), and goes on with \<open>rest\<close> otherwise.
\<close>

type_synonym 's stmt = "'s \<Rightarrow> mcl_wire_status \<times> 's"

definition mcl_try :: "'s stmt \<Rightarrow> 's stmt \<Rightarrow> 's stmt" where
  "mcl_try e rest s =
     (case e s of (st, s') \<Rightarrow> if st \<noteq> MCL_WIRE_OK then (st, s') else rest s')"

lemma mcl_try_OK [simp]: "e s = (MCL_WIRE_OK, s') \<Longrightarrow> mcl_try e rest s = rest s'"
  by (simp add: mcl_try_def)

lemma mcl_try_fail: "e s = (st, s') \<Longrightarrow> st \<noteq> MCL_WIRE_OK \<Longrightarrow> mcl_try e rest s = (st, s')"
  by (simp add: mcl_try_def)

lemma mcl_try_OK_iff:
  "mcl_try e rest s = (MCL_WIRE_OK, s'') \<longleftrightarrow>
     (\<exists>s'. e s = (MCL_WIRE_OK, s') \<and> rest s' = (MCL_WIRE_OK, s''))"
  by (auto simp: mcl_try_def split: prod.splits)

section \<open>Bit strings, most significant bit first\<close>

definition to_bits :: "nat \<Rightarrow> 'a::len word \<Rightarrow> bool list" where
  "to_bits n v = map (\<lambda>i. bit v (n - 1 - i)) [0..<n]"

definition of_bits :: "bool list \<Rightarrow> u32" where
  "of_bits bs = foldl (\<lambda>r b. push_bit 1 r OR of_bool b) 0 bs"

definition bits_of :: "u8 list \<Rightarrow> bool list" where
  "bits_of xs = concat (map (to_bits 8) xs)"

lemma length_to_bits [simp]: "length (to_bits n v) = n"
  by (simp add: to_bits_def)

lemma nth_to_bits [simp]: "i < n \<Longrightarrow> to_bits n v ! i = bit v (n - 1 - i)"
  by (simp add: to_bits_def)

lemma unat_exp [wire_bits]: "n < LENGTH('a) \<Longrightarrow> unat (2 ^ n :: 'a::len word) = 2 ^ n"
  by (simp add: unat_eq_nat_uint uint_2p word_neq_0_conv [symmetric] nat_power_eq)

lemma bit_exp_word [wire_bits]:
  "bit (2 ^ n :: 'a::len word) k \<longleftrightarrow> k = n \<and> k < LENGTH('a)"
  by (auto simp: bit_exp_iff possible_bit_word)

lemma unat_u8_less: "unat (c::u8) < 256"
  using unsigned_less [of c] by simp

lemma unat_u16_less: "unat (c::u16) < 65536"
  using unsigned_less [of c] by simp

lemma of_bits_Nil [simp]: "of_bits [] = 0"
  by (simp add: of_bits_def)

lemma of_bits_snoc: "of_bits (bs @ [b]) = push_bit 1 (of_bits bs) OR of_bool b"
  by (simp add: of_bits_def)

lemma bit_shift_in:
  "bit (push_bit 1 (r::u32) OR of_bool b) k \<longleftrightarrow> (if k = 0 then b else k < 32 \<and> bit r (k - 1))"
  proof (cases k)
  case (Suc j)
  then show ?thesis
    by (auto simp only: bit_or_iff bit_push_bit_iff bit_of_bool_iff possible_bit_word) auto
qed (simp add: even_or_iff bit_0)

lemma bit_of_bits:
  "bit (of_bits bs) k \<longleftrightarrow> k < 32 \<and> k < length bs \<and> bs ! (length bs - 1 - k)"
proof (induction bs arbitrary: k rule: rev_induct)
  case Nil
  then show ?case by simp
next
  case (snoc b bs)
  show ?case
    by (cases k) (auto simp only: of_bits_snoc bit_shift_in snoc.IH, auto simp: nth_append)
qed

lemma of_bits_to_bits:
  assumes "n \<le> 32"
  shows "of_bits (to_bits n (v::u32)) = take_bit n v"
  by (rule bit_eqI) (use assms in \<open>auto simp: bit_of_bits bit_simps\<close>)

lemma to_bits_of_bits:
  assumes "length bs \<le> 32"
  shows "to_bits (length bs) (of_bits bs) = bs"
  by (rule nth_equalityI) (use assms in \<open>auto simp: bit_of_bits\<close>)

lemma of_bits_less:
  assumes "length bs < 32"
  shows "of_bits bs < push_bit (length bs) 1"
proof -
  have "take_bit (length bs) (of_bits bs) = of_bits bs"
    by (rule bit_eqI) (auto simp: bit_of_bits bit_simps)
  then have "unat (of_bits bs) < 2 ^ length bs"
    by (metis take_bit_nat_less_exp unsigned_take_bit_eq)
  moreover have "unat (push_bit (length bs) (1::u32)) = 2 ^ length bs"
    using assms by (simp add: unat_exp)
  ultimately show ?thesis by (simp add: word_less_nat_alt)
qed

lemma to_bits_inject:
  assumes "LENGTH('a) \<le> n" and "to_bits n (v::'a::len word) = to_bits n w"
  shows "v = w"
proof (rule bit_eqI)
  fix k
  assume "possible_bit TYPE('a word) k"
  then have k: "k < n" using assms(1) by (simp add: possible_bit_word)
  then have "to_bits n v ! (n - 1 - k) = to_bits n w ! (n - 1 - k)"
    by (simp add: assms(2))
  with k show "bit v k = bit w k" by simp
qed

lemma less_exp_iff_take_bit:
  assumes "n < LENGTH('a)"
  shows "(v::'a::len word) < 2 ^ n \<longleftrightarrow> take_bit n v = v"
proof -
  have "v < 2 ^ n \<longleftrightarrow> unat v < 2 ^ n"
    using assms by (simp add: word_less_nat_alt unat_exp)
  also have "\<dots> \<longleftrightarrow> take_bit n (unat v) = unat v"
    by (metis take_bit_nat_eq_self take_bit_nat_less_exp)
  also have "\<dots> \<longleftrightarrow> take_bit n v = v"
    by (metis unsigned_take_bit_eq unsigned_word_eqI)
  finally show ?thesis .
qed

lemma in_range_bits: "take_bit n v = v \<Longrightarrow> bit (v::'a::len word) k \<Longrightarrow> k < n"
  by (metis bit_take_bit_iff)

text \<open>
  Bitwise equations between words are proved by \<open>bit_eqI\<close> with these rules alone: the default
  simplifier would turn shifts by one into products first.
\<close>

lemmas word_bits_only =
  bit_or_iff bit_and_iff bit_push_bit_iff bit_unsigned_iff bit_take_bit_iff bit_drop_bit_eq
  comp_def possible_bit_word

section \<open>The bits of a byte buffer\<close>

lemma bits_of_Nil [simp]: "bits_of [] = []"
  by (simp add: bits_of_def)

lemma bits_of_Cons [simp]: "bits_of (x # xs) = to_bits 8 x @ bits_of xs"
  by (simp add: bits_of_def)

lemma bits_of_append [simp]: "bits_of (xs @ ys) = bits_of xs @ bits_of ys"
  by (simp add: bits_of_def)

lemma length_bits_of [simp]: "length (bits_of xs) = 8 * length xs"
  by (induction xs) auto

lemma bits_of_take: "bits_of (take n xs) = take (8 * n) (bits_of xs)"
proof (induction xs arbitrary: n)
  case (Cons x xs)
  then show ?case by (cases n) auto
qed simp

lemma bits_of_drop: "bits_of (drop n xs) = drop (8 * n) (bits_of xs)"
proof (induction xs arbitrary: n)
  case (Cons x xs)
  then show ?case by (cases n) auto
qed simp

lemma nth_bits_of:
  "k < 8 * length xs \<Longrightarrow> bits_of xs ! k = bit (xs ! (k div 8)) (7 - k mod 8)"
proof (induction xs arbitrary: k)
  case (Cons x xs)
  show ?case
  proof (cases "k < 8")
    case True
    then show ?thesis by (simp add: nth_append)
  next
    case False
    then have "k div 8 = Suc ((k - 8) div 8)" and "(k - 8) mod 8 = k mod 8"
      by (simp_all add: le_div_geq le_mod_geq)
    with False Cons.IH [of "k - 8"] Cons.prems show ?thesis
      by (simp add: nth_append)
  qed
qed simp

lemma bits_of_inject: "bits_of xs = bits_of ys \<longleftrightarrow> xs = ys"
proof
  show "bits_of xs = bits_of ys \<Longrightarrow> xs = ys"
  proof (induction xs arbitrary: ys)
    case Nil
    then show ?case by (cases ys) (auto dest: arg_cong [of _ _ length])
  next
    case (Cons x xs)
    then have "length (bits_of ys) = 8 * length (x # xs)" by (metis length_bits_of)
    then obtain y ys' where ys: "ys = y # ys'" by (cases ys) auto
    with Cons.prems have "to_bits 8 x = to_bits 8 y" and "bits_of xs = bits_of ys'"
      by (auto simp: append_eq_append_conv)
    with Cons.IH ys show ?case by (auto dest: to_bits_inject [rotated])
  qed
qed simp

lemma bits_of_set_bit:
  assumes "k < 8 * length xs"
  shows "bits_of (xs[k div 8 := xs ! (k div 8) OR push_bit (7 - k mod 8) 1]) =
         (bits_of xs)[k := True]"
proof (rule nth_equalityI)
  let ?ys = "xs[k div 8 := xs ! (k div 8) OR push_bit (7 - k mod 8) 1]"
  fix j
  assume "j < length (bits_of ?ys)"
  then have j: "j < 8 * length xs" by simp
  then have jb: "bits_of ?ys ! j = bit (?ys ! (j div 8)) (7 - j mod 8)"
    by (simp add: nth_bits_of)
  show "bits_of ?ys ! j = (bits_of xs)[k := True] ! j"
  proof (cases "j div 8 = k div 8")
    case True
    have "7 - j mod 8 = 7 - k mod 8 \<longleftrightarrow> j = k"
      using mod_less_divisor [of 8 j] mod_less_divisor [of 8 k] True div_mult_mod_eq [of j 8]
        div_mult_mod_eq [of k 8] by linarith
    then have "bit (push_bit (7 - k mod 8) (1::u8)) (7 - j mod 8) \<longleftrightarrow> j = k"
      by (auto simp: bit_exp_word)
    moreover have "?ys ! (j div 8) = xs ! (j div 8) OR push_bit (7 - k mod 8) 1"
      using True assms by (simp add: nth_list_update)
    ultimately have "bits_of ?ys ! j \<longleftrightarrow> bits_of xs ! j \<or> j = k"
      using j jb by (simp only: bit_or_iff nth_bits_of)
    with j assms show ?thesis by (cases "j = k") auto
  next
    case False
    with j jb show ?thesis by (auto simp: nth_bits_of nth_list_update)
  qed
qed simp

lemma bits_of_zeros [simp]: "bits_of (replicate n 0) = replicate (8 * n) False"
  by (rule nth_equalityI) (auto simp: nth_bits_of)

text \<open>The byte string of a bit string whose length is a multiple of eight.\<close>

definition pack :: "bool list \<Rightarrow> u8 list" where
  "pack bs = map (\<lambda>i. ucast (of_bits (take 8 (drop (8 * i) bs)))) [0..<length bs div 8]"

lemma length_pack [simp]: "length (pack bs) = length bs div 8"
  by (simp add: pack_def)

lemma bits_of_pack:
  assumes "8 dvd length bs"
  shows "bits_of (pack bs) = bs"
proof (rule nth_equalityI)
  show len: "length (bits_of (pack bs)) = length bs"
    using assms by (simp add: dvd_mult_div_cancel)
  fix k
  assume "k < length (bits_of (pack bs))"
  then have k: "k < length bs" using len by simp
  from assms obtain m where m: "length bs = 8 * m" by (auto simp: dvd_def)
  with k have block: "k div 8 < m" by (simp add: div_less_iff_less_mult mult.commute)
  let ?chunk = "take 8 (drop (8 * (k div 8)) bs)"
  have len_chunk: "length ?chunk = 8" using block m by simp
  have "bits_of (pack bs) ! k = bit (pack bs ! (k div 8)) (7 - k mod 8)"
    using k len by (intro nth_bits_of) simp
  also have "pack bs ! (k div 8) = ucast (of_bits ?chunk)"
    using block m by (simp add: pack_def)
  also have "bit (ucast (of_bits ?chunk) :: u8) (7 - k mod 8) = ?chunk ! (k mod 8)"
    using len_chunk less_Suc_eq_le [of "7 - k mod 8" 7]
    by (simp only: bit_unsigned_iff bit_of_bits possible_bit_word) auto
  also have "\<dots> = bs ! (8 * (k div 8) + k mod 8)"
    using block m by simp
  finally show "bits_of (pack bs) ! k = bs ! k" by simp
qed

lemma pack_bits_of: "pack (bits_of xs) = xs"
  by (simp add: bits_of_inject [symmetric] bits_of_pack)

lemma pack_eqI: "bits_of xs = bs \<Longrightarrow> xs = pack bs"
  by (auto simp: pack_bits_of)

section \<open>Counted loops\<close>

text \<open>
  \<open>for (i = 0; i < n; ++i) body\<close> without an early exit is \<open>fold body [0..<n]\<close>.
\<close>

lemma fold_upt_Suc [simp]: "fold f [0..<Suc n] s = f n (fold f [0..<n] s)"
  by simp

lemma fold_store_bytes:
  "n \<le> length bs \<Longrightarrow> fold (\<lambda>i bs. bs[i := f i]) [0..<n] bs = map f [0..<n] @ drop n bs"
proof (induction n)
  case (Suc n)
  then show ?case
    by (simp add: list_update_append Cons_nth_drop_Suc [symmetric])
qed simp

end
