(* ===== verification/Wire_Duration.thy ===== *)
theory Wire_Duration
  imports Wire_Prelude
begin

text \<open>
  The one-byte duration codes of \<open>src/wire.c\<close>: \<open>mcl_wire_duration_seconds\<close> and
  \<open>mcl_wire_duration_encode\<close>. The locale \<open>rounding_code\<close> states what a lossy code that rounds down
  promises to its callers; the interpretation shows that the two functions keep it.
\<close>

unbundle bit_operations_syntax

section \<open>The functions\<close>

abbreviation (input) MCL_WIRE_DURATION_MAX_SECONDS :: u32 where
  "MCL_WIRE_DURATION_MAX_SECONDS \<equiv> 507904"

definition mcl_wire_duration_seconds :: "u8 \<Rightarrow> u32" where
  "mcl_wire_duration_seconds code =
     (let exponent = (ucast (drop_bit 4 code) :: u32);
          mantissa = (ucast (code AND 0x0F) :: u32)
      in if exponent = 0 then mantissa
         else push_bit (unat (exponent - 1)) (16 + mantissa))"

text \<open>The \<open>for\<close> loop over the bands; \<open>code\<close> is the value of \<open>*code\<close> before the call.\<close>

function duration_band_loop :: "u32 \<Rightarrow> u32 \<Rightarrow> u8 \<Rightarrow> mcl_wire_status \<times> u8" where
  "duration_band_loop exponent seconds code =
     (if exponent < 16 then
        let shift = exponent - 1;
            band_bottom = push_bit (unat shift) 16;
            band_top = push_bit (unat shift) 31
        in if seconds < band_bottom
           then (MCL_WIRE_OK, ucast (push_bit 4 (exponent - 1) OR 0x0F))
           else if seconds \<le> band_top
           then let mantissa = drop_bit (unat shift) seconds - 16
                in (MCL_WIRE_OK, ucast (push_bit 4 exponent OR (mantissa AND 0x0F)))
           else duration_band_loop (exponent + 1) seconds code
      else (MCL_WIRE_ERR_RANGE, code))"
  by pat_completeness auto
termination
  by (relation "measure (\<lambda>(exponent, _, _). 16 - unat exponent)")
     (auto simp: word_less_nat_alt unat_word_ariths)

declare duration_band_loop.simps [simp del]

definition mcl_wire_duration_encode :: "u32 \<Rightarrow> u8 ptr \<Rightarrow> mcl_wire_status \<times> u8 ptr" where
  "mcl_wire_duration_encode seconds code =
     (case code of
        None \<Rightarrow> (MCL_WIRE_ERR_INVALID_ARGUMENT, code)
      | Some c \<Rightarrow>
          if seconds > MCL_WIRE_DURATION_MAX_SECONDS then (MCL_WIRE_ERR_RANGE, code)
          else if seconds < 16 then (MCL_WIRE_OK, Some (ucast seconds))
          else case duration_band_loop 1 seconds c of (st, c') \<Rightarrow> (st, Some c'))"

section \<open>What a rounding code promises\<close>

locale rounding_code =
  fixes val :: "'c::linorder \<Rightarrow> 'v::linorder"
    and enc :: "'v \<Rightarrow> 'c option"
  assumes val_strict: "c < d \<Longrightarrow> val c < val d"
    and enc_greatest: "enc v = Some c \<Longrightarrow> val d \<le> v \<longleftrightarrow> d \<le> c"
    and enc_val: "enc (val c) \<noteq> None"
begin

lemma val_less_iff: "val c < val d \<longleftrightarrow> c < d"
  using val_strict by (metis less_asym less_linear)

lemma val_inject: "val c = val d \<longleftrightarrow> c = d"
  using val_less_iff by (metis less_irrefl neq_iff)

lemma val_le_iff: "val c \<le> val d \<longleftrightarrow> c \<le> d"
  using val_less_iff by (metis not_less)

lemma round_trip: "enc (val c) = Some c"
proof -
  from enc_val obtain d where d: "enc (val c) = Some d" by blast
  then have "c \<le> d" "d \<le> c" using enc_greatest [OF d] val_le_iff by blast+
  with d show ?thesis by simp
qed

lemma rounds_down: "enc v = Some c \<Longrightarrow> val c \<le> v"
  using enc_greatest by blast

lemma next_above: "enc v = Some c \<Longrightarrow> c < d \<Longrightarrow> v < val d"
  using enc_greatest by (metis not_less)

lemma enc_mono: "enc v = Some c \<Longrightarrow> enc w = Some d \<Longrightarrow> v \<le> w \<Longrightarrow> c \<le> d"
  using enc_greatest rounds_down by (metis order_trans)

lemma stable: "enc v = Some c \<Longrightarrow> enc (val c) = Some c"
  by (rule round_trip)

end

section \<open>The codes in arithmetic\<close>

text \<open>The value of a code as a function on the natural numbers, without a bound on the code.\<close>

definition duration_of :: "nat \<Rightarrow> nat" where
  "duration_of c = (if c < 16 then c else (16 + c mod 16) * 2 ^ (c div 16 - 1))"

lemma duration_of_band: "m < 16 \<Longrightarrow> duration_of (16 * Suc k + m) = (16 + m) * 2 ^ k"
proof -
  assume m: "m < 16"
  have "(16 * Suc k + m) mod 16 = m" "(16 * Suc k + m) div 16 = Suc k"
    using m by (simp_all only: mod_mult_self4 div_mult_self4) simp_all
  with m show ?thesis by (simp add: duration_of_def)
qed

lemma band_cases:
  obtains "c < 16" | k m where "c = 16 * Suc k + m" "m < (16::nat)"
proof (cases "c < 16")
  case False
  then have "c = 16 * Suc (c div 16 - 1) + c mod 16" "c mod 16 < 16" by auto
  then show ?thesis using that(2) by blast
qed (rule that(1))

lemma duration_of_next: "m < 16 \<Longrightarrow> duration_of (Suc (16 * Suc k + m)) = (17 + m) * 2 ^ k"
proof (cases "m = 15")
  case True
  then have "Suc (16 * Suc k + m) = 16 * Suc (Suc k) + 0" by simp
  then have "duration_of (Suc (16 * Suc k + m)) = (16 + 0) * 2 ^ Suc k" by (simp only: duration_of_band)
  then show ?thesis using True by simp
next
  case False
  assume "m < 16"
  with False have "Suc (16 * Suc k + m) = 16 * Suc k + Suc m" "Suc m < 16" by simp_all
  then show ?thesis by (simp only: duration_of_band) simp
qed

lemma duration_of_Suc: "duration_of c < duration_of (Suc c)"
proof (cases c rule: band_cases)
  case 1
  then consider "c < 15" | "c = 15" by linarith
  then show ?thesis by cases (auto simp: duration_of_def)
next
  case (2 k m)
  then show ?thesis by (simp only: duration_of_band duration_of_next) simp
qed

lemma duration_of_strict: "strict_mono duration_of"
  by (simp add: strict_mono_Suc_iff duration_of_Suc)

lemma unat_push_small:
  "a \<le> 31 \<Longrightarrow> k \<le> 14 \<Longrightarrow> unat (push_bit k (a::u32)) = unat a * 2 ^ k"
proof -
  assume a: "a \<le> 31" and k: "k \<le> 14"
  have "unat a * 2 ^ k \<le> 31 * 2 ^ 14"
    using a k by (intro mult_le_mono power_increasing) (auto simp: word_le_nat_alt)
  then have "unat a * 2 ^ k < 2 ^ 32" by simp
  then show ?thesis
    using k by (simp add: push_bit_eq_mult unat_word_ariths unat_exp)
qed

lemma nibbles:
  "unat (drop_bit 4 (c::u8)) = unat c div 16" "unat (c AND 0x0F) = unat c mod 16"
proof -
  show "unat (drop_bit 4 c) = unat c div 16"
    by (simp add: drop_bit_eq_div unat_div)
  have "c AND mask 4 = take_bit 4 c" by (simp add: take_bit_eq_mask)
  then show "unat (c AND 0x0F) = unat c mod 16"
    by (simp add: mask_eq_exp_minus_1 take_bit_eq_mod unat_mod)
qed

lemma duration_seconds_of: "unat (mcl_wire_duration_seconds c) = duration_of (unat c)"
proof -
  have b: "unat c < 256" by (rule unat_u8_less)
  let ?e = "ucast (drop_bit 4 c) :: u32" and ?m = "ucast (c AND 0x0F) :: u32"
  have e: "unat ?e = unat c div 16" and m: "unat ?m = unat c mod 16"
    using b by (simp_all only: unsigned_ucast_eq nibbles take_bit_nat_eq_self_iff) auto
  show ?thesis
  proof (cases "?e = 0")
    case True
    with e have "unat c < 16" by simp
    with True m show ?thesis by (simp add: mcl_wire_duration_seconds_def Let_def duration_of_def)
  next
    case False
    then have e1: "unat (?e - 1) = unat c div 16 - 1"
      using e by (simp add: unat_minus_one)
    have pos: "unat c div 16 \<noteq> 0" using False e by (metis unat_eq_zero)
    have m16: "unat (16 + ?m) = 16 + unat c mod 16"
      using m by (simp add: unat_word_ariths)
    then have "16 + ?m \<le> 31" by (simp add: word_le_nat_alt)
    moreover have "unat c div 16 - 1 \<le> 14" using b by auto
    ultimately have "unat (push_bit (unat c div 16 - 1) (16 + ?m)) =
        (16 + unat c mod 16) * 2 ^ (unat c div 16 - 1)"
      by (simp only: unat_push_small m16)
    with False pos show ?thesis
      by (simp add: mcl_wire_duration_seconds_def Let_def e1 duration_of_def)
  qed
qed

text \<open>
  The band loop, entered at band \<open>Suc k\<close> with a duration above every lower band, finds the
  greatest code whose value does not exceed the duration.
\<close>

lemma band_byte:
  assumes "k \<le> 14" and "m < 16" and "unat (e::u32) = Suc k" and "unat (x::u32) = m"
  shows "unat (ucast (push_bit 4 e OR (x AND 0x0F)) :: u8) = 16 * Suc k + m"
proof -
  have x: "x AND 0x0F = x"
  proof -
    have "x AND mask 4 = x"
      using assms(2,4) less_exp_iff_take_bit [of 4 x]
      by (simp add: take_bit_eq_mask [symmetric] word_less_nat_alt)
    then show ?thesis by (simp add: mask_eq_exp_minus_1)
  qed
  have pe: "unat (push_bit 4 e) = Suc k * 16"
    using assms(1,3) by (simp add: push_bit_eq_mult unat_word_ariths)
  have "push_bit 4 e AND x = 0"
    by (rule bit_eqI, simp only: word_bits_only)
       (use assms(2,4) less_exp_iff_take_bit [of 4 x] in
        \<open>auto simp: word_less_nat_alt dest: in_range_bits\<close>)
  then have "push_bit 4 e OR x = push_bit 4 e + x"
    by (simp add: disjunctive_add_eq_or)
  moreover have "unat (push_bit 4 e + x) = 16 * Suc k + m"
    using pe assms by (simp add: unat_word_ariths)
  ultimately show ?thesis
    using assms(1,2) by (simp add: x unsigned_ucast_eq take_bit_nat_eq_self_iff)
qed

lemma band_values:
  assumes "k \<le> 14"
  shows "unat (push_bit k (16::u32)) = 16 * 2 ^ k" and "unat (push_bit k (31::u32)) = 31 * 2 ^ k"
  using assms unat_push_small [of 16 k] unat_push_small [of 31 k] by simp_all

lemma band_below:
  assumes "unat e = Suc (Suc j)" and "j < 14" and "unat s < 16 * 2 ^ Suc j" and "31 * 2 ^ j < unat s"
  shows "\<exists>code. duration_band_loop e s c = (MCL_WIRE_OK, code) \<and>
           duration_of (unat code) \<le> unat s \<and> unat s < duration_of (Suc (unat code))"
proof -
  let ?code = "ucast (push_bit 4 (e - 1) OR 0x0F) :: u8"
  have "e \<noteq> 0" using assms(1) by auto
  then have e: "e < 16" "unat (e - 1) = Suc j"
    using assms(1,2) by (simp_all add: word_less_nat_alt unat_minus_one)
  have "duration_band_loop e s c = (MCL_WIRE_OK, ?code)"
    using assms(2,3) e band_values [of "Suc j"]
    by (subst duration_band_loop.simps) (simp add: Let_def word_less_nat_alt del: power_Suc)
  moreover have "unat ?code = 16 * Suc j + 15"
    using band_byte [of j 15 "e - 1" 15] assms(2) e by simp
  ultimately show ?thesis
    using duration_of_band [of 15 j] duration_of_next [of 15 j] assms(3,4) by simp
qed

lemma band_inside:
  assumes "unat e = Suc k" and "k \<le> 14" and "16 * 2 ^ k \<le> unat s" and "unat s \<le> 31 * 2 ^ k"
  shows "\<exists>code. duration_band_loop e s c = (MCL_WIRE_OK, code) \<and>
           duration_of (unat code) \<le> unat s \<and> unat s < duration_of (Suc (unat code))"
proof -
  let ?q = "drop_bit k s - 16"
  let ?code = "ucast (push_bit 4 e OR (?q AND 0x0F)) :: u8"
  have "e \<noteq> 0" using assms(1) by auto
  then have e: "e < 16" "unat (e - 1) = k"
    using assms(1,2) by (simp_all add: word_less_nat_alt unat_minus_one)
  have "16 \<le> unat s div 2 ^ k" "unat s div 2 ^ k \<le> 31"
    using assms(3) div_le_mono [OF assms(4), of "2 ^ k"] by (simp_all add: less_eq_div_iff_mult_less_eq)
  then obtain m where m: "unat s div 2 ^ k = 16 + m" "m < 16"
    using that [of "unat s div 2 ^ k - 16"] by simp
  have "unat (drop_bit k s) = unat s div 2 ^ k" by (metis unat_drop_bit_eq drop_bit_eq_div)
  then have "unat ?q = m" using m by (simp add: unat_sub_if' word_le_nat_alt)
  then have code: "unat ?code = 16 * Suc k + m"
    using band_byte [of k m e ?q] assms(1,2) m(2) by simp
  have run: "duration_band_loop e s c = (MCL_WIRE_OK, ?code)"
    using assms e band_values [of k]
    by (subst duration_band_loop.simps)
       (simp add: Let_def word_less_nat_alt word_le_nat_alt not_less)
  have "(16 + m) * 2 ^ k \<le> unat s" using m(1) by (metis div_times_less_eq_dividend)
  moreover have "unat s < (17 + m) * 2 ^ k"
    using m(1) dividend_less_times_div [of "2 ^ k" "unat s"] by (simp add: algebra_simps)
  ultimately show ?thesis
    using run by (intro exI [of _ ?code]) (simp only: code duration_of_band [OF m(2)] duration_of_next [OF m(2)] simp_thms)
qed

lemma duration_band_loop_greatest:
  assumes "unat e = Suc k" and "k \<le> 14" and "16 \<le> unat s" and "unat s \<le> 31 * 2 ^ 14"
    and "k \<noteq> 0 \<longrightarrow> 31 * 2 ^ (k - 1) < unat s"
  shows "\<exists>code. duration_band_loop e s c = (MCL_WIRE_OK, code) \<and>
           duration_of (unat code) \<le> unat s \<and> unat s < duration_of (Suc (unat code))"
  using assms
proof (induction e s c arbitrary: k rule: duration_band_loop.induct)
  case (1 e s c)
  have "e \<noteq> 0" using "1.prems"(1) by auto
  then have e16: "e < 16" and e1: "unat (e - 1) = k"
    using "1.prems"(1,2) by (simp_all add: word_less_nat_alt unat_minus_one)
  note bounds = band_values [OF "1.prems"(2)]
  consider "unat s < 16 * 2 ^ k" | "16 * 2 ^ k \<le> unat s" "unat s \<le> 31 * 2 ^ k" | "31 * 2 ^ k < unat s"
    by linarith
  then show ?case
  proof cases
    case 1
    then obtain j where "k = Suc j" using "1.prems"(3) by (cases k) auto
    with 1 "1.prems" show ?thesis by (intro band_below [of e j]) simp_all
  next
    case 2
    with "1.prems"(1,2) show ?thesis by (intro band_inside)
  next
    case 3
    have "k < 14" using 3 "1.prems"(2,4) by (cases "k = 14") auto
    then have e2: "unat (e + 1) = Suc (Suc k)" "Suc k \<le> 14"
      using "1.prems"(1) by (auto simp: unat_word_ariths)
    have run: "duration_band_loop e s c = duration_band_loop (e + 1) s c"
      using 3 e16
      by (subst duration_band_loop.simps)
         (simp add: Let_def e1 word_less_nat_alt word_le_nat_alt bounds)
    show ?thesis
      unfolding run
      by (rule "1.IH" [OF e16 refl refl refl _ _ e2])
         (use 3 "1.prems"(3,4) in \<open>auto simp: e1 word_less_nat_alt word_le_nat_alt bounds\<close>)
  qed
qed

lemma duration_of_255: "duration_of 255 = 31 * 2 ^ 14"
  by (simp add: duration_of_def)

lemma code_between:
  assumes "duration_of c \<le> v" and "v < duration_of (Suc c)"
  shows "duration_of d \<le> v \<longleftrightarrow> d \<le> c"
proof
  show "d \<le> c" if "duration_of d \<le> v"
    using that assms(2) strict_mono_less_eq [OF duration_of_strict, of "Suc c" d]
    by (metis le_less_trans not_less not_less_eq_eq)
  show "duration_of d \<le> v" if "d \<le> c"
    using that assms(1) strict_mono_less_eq [OF duration_of_strict, of d c] by simp
qed

lemma duration_encode_greatest:
  assumes "s \<le> MCL_WIRE_DURATION_MAX_SECONDS"
  shows "\<exists>code. mcl_wire_duration_encode s (Some c) = (MCL_WIRE_OK, Some code) \<and>
           (\<forall>d. mcl_wire_duration_seconds d \<le> s \<longleftrightarrow> d \<le> code)"
proof -
  have s: "unat s \<le> 31 * 2 ^ 14" using assms by (simp add: word_le_nat_alt)
  have "\<exists>code. mcl_wire_duration_encode s (Some c) = (MCL_WIRE_OK, Some code) \<and>
      duration_of (unat code) \<le> unat s \<and> unat s < duration_of (Suc (unat code))"
  proof (cases "s < 16")
    case True
    then have "unat s < 16" by (simp add: word_less_nat_alt)
    moreover from this have "unat (ucast s :: u8) = unat s"
      by (simp add: unsigned_ucast_eq take_bit_nat_eq_self_iff)
    ultimately show ?thesis
      using True assms by (auto simp: mcl_wire_duration_encode_def not_le duration_of_def)
  next
    case False
    then have "16 \<le> unat s" by (simp add: word_less_nat_alt)
    from duration_band_loop_greatest [of 1 0 s c, OF _ _ this s] False assms
    show ?thesis by (auto simp: mcl_wire_duration_encode_def not_le)
  qed
  then obtain code where run: "mcl_wire_duration_encode s (Some c) = (MCL_WIRE_OK, Some code)"
    and between: "duration_of (unat code) \<le> unat s" "unat s < duration_of (Suc (unat code))"
    by blast
  have "mcl_wire_duration_seconds d \<le> s \<longleftrightarrow> d \<le> code" for d
    using code_between [OF between] by (simp add: word_le_nat_alt duration_seconds_of)
  with run show ?thesis by blast
qed

lemma duration_seconds_bound: "mcl_wire_duration_seconds c \<le> MCL_WIRE_DURATION_MAX_SECONDS"
proof -
  have "unat c \<le> 255" using unat_u8_less [of c] by simp
  then have "duration_of (unat c) \<le> duration_of 255"
    using duration_of_strict by (simp add: strict_mono_less_eq)
  then show ?thesis by (simp add: word_le_nat_alt duration_seconds_of duration_of_255)
qed

lemma duration_encode_range:
  "MCL_WIRE_DURATION_MAX_SECONDS < s \<Longrightarrow>
   mcl_wire_duration_encode s (Some c) = (MCL_WIRE_ERR_RANGE, Some c)"
  by (simp add: mcl_wire_duration_encode_def)

section \<open>The functions keep the promise\<close>

definition duration_code :: "u32 \<Rightarrow> u8 option" where
  "duration_code s =
     (case mcl_wire_duration_encode s (Some 0) of
        (st, code) \<Rightarrow> if st = MCL_WIRE_OK then code else None)"

text \<open>The code written does not depend on what was there before.\<close>

lemma duration_code_result:
  "mcl_wire_duration_encode s (Some c) =
     (case duration_code s of
        None \<Rightarrow> (MCL_WIRE_ERR_RANGE, Some c)
      | Some code \<Rightarrow> (MCL_WIRE_OK, Some code))"
proof (cases "s \<le> MCL_WIRE_DURATION_MAX_SECONDS")
  case True
  obtain code where code: "mcl_wire_duration_encode s (Some c) = (MCL_WIRE_OK, Some code)"
    and greatest: "\<And>d. mcl_wire_duration_seconds d \<le> s \<longleftrightarrow> d \<le> code"
    using duration_encode_greatest [OF True, of c] by blast
  obtain code0 where code0: "mcl_wire_duration_encode s (Some 0) = (MCL_WIRE_OK, Some code0)"
    and greatest0: "\<And>d. mcl_wire_duration_seconds d \<le> s \<longleftrightarrow> d \<le> code0"
    using duration_encode_greatest [OF True, of 0] by blast
  have "code \<le> code0" "code0 \<le> code"
    using greatest greatest0 order_refl by blast+
  then have "code = code0" by (rule order_antisym)
  with code code0 show ?thesis by (simp add: duration_code_def)
next
  case False
  then show ?thesis by (simp add: duration_code_def duration_encode_range not_le)
qed

interpretation duration: rounding_code mcl_wire_duration_seconds duration_code
proof unfold_locales
  fix c d :: u8
  assume "c < d"
  then show "mcl_wire_duration_seconds c < mcl_wire_duration_seconds d"
    using duration_of_strict
    by (simp add: word_less_nat_alt duration_seconds_of strict_mono_less)
next
  fix s and c d :: u8
  assume c: "duration_code s = Some c"
  then have "s \<le> MCL_WIRE_DURATION_MAX_SECONDS"
    by (auto simp: duration_code_def mcl_wire_duration_encode_def not_less split: if_splits)
  then obtain code where code: "mcl_wire_duration_encode s (Some 0) = (MCL_WIRE_OK, Some code)"
    and greatest: "\<And>d. mcl_wire_duration_seconds d \<le> s \<longleftrightarrow> d \<le> code"
    using duration_encode_greatest by blast
  from code c have "code = c" by (simp add: duration_code_def)
  with greatest show "mcl_wire_duration_seconds d \<le> s \<longleftrightarrow> d \<le> c" by blast
next
  fix c
  from duration_encode_greatest [OF duration_seconds_bound, of c 0]
  show "duration_code (mcl_wire_duration_seconds c) \<noteq> None"
    by (auto simp: duration_code_def)
qed

text \<open>From sixteen seconds on one code is at most one sixteenth above the one before.\<close>

lemma duration_of_step: "16 \<le> c \<Longrightarrow> 16 * duration_of (Suc c) \<le> 17 * duration_of c"
proof (cases c rule: band_cases)
  case (2 k m)
  show ?thesis
  proof (cases "m = 15")
    case True
    with 2 have "Suc c = 16 * Suc (Suc k) + 0" by simp
    with True 2 show ?thesis
      using duration_of_band [of 15 k] duration_of_band [of 0 "Suc k"] by simp
  next
    case False
    with 2 have "Suc c = 16 * Suc k + Suc m" "Suc m < 16" by simp_all
    then have "duration_of (Suc c) = (17 + m) * 2 ^ k" "duration_of c = (16 + m) * 2 ^ k"
      using 2 duration_of_band [of m k] duration_of_band [of "Suc m" k] by simp_all
    moreover have "16 * (17 + m) * 2 ^ k \<le> 17 * (16 + m) * 2 ^ k"
      by (rule mult_le_mono1) simp
    ultimately show ?thesis by (simp only: mult.assoc)
  qed
qed simp

section \<open>Properties\<close>

text \<open>C27: \<open>mcl_wire_duration_encode\<close> refuses every duration above \<open>MCL_WIRE_DURATION_MAX_SECONDS\<close>
  and leaves \<open>*code\<close> alone; for every other duration it returns the greatest code whose duration
  is at most the one given, so it never rounds up, also in the gaps between the bands.\<close>

theorem duration_encode_rounds_down:
  "if s > MCL_WIRE_DURATION_MAX_SECONDS
   then mcl_wire_duration_encode s (Some c) = (MCL_WIRE_ERR_RANGE, Some c)
   else \<exists>code. mcl_wire_duration_encode s (Some c) = (MCL_WIRE_OK, Some code) \<and>
          (\<forall>d. mcl_wire_duration_seconds d \<le> s \<longleftrightarrow> d \<le> code)"
  using duration_encode_greatest [of s c] duration_encode_range [of s c] by (simp add: not_less)

text \<open>Each of the 256 codes is the encoding of the duration it stands for, so encoding a
  decoded duration is the identity and no two codes mean the same duration.\<close>

theorem duration_round_trip:
  "mcl_wire_duration_encode (mcl_wire_duration_seconds c) (Some c0) = (MCL_WIRE_OK, Some c)"
  by (simp add: duration_code_result duration.round_trip)

text \<open>Codes compare as the durations they stand for, so a receiver may compare the encoded
  bytes, and the longest duration is that of code 255.\<close>

theorem duration_codes_ordered:
  "(mcl_wire_duration_seconds c < mcl_wire_duration_seconds d \<longleftrightarrow> c < d) \<and>
   mcl_wire_duration_seconds c \<le> MCL_WIRE_DURATION_MAX_SECONDS"
  by (simp add: duration.val_less_iff duration_seconds_bound)

text \<open>From sixteen seconds on, what rounding takes away is less than one seventeenth of the
  duration (so the relative loss stays under six percent).\<close>

theorem duration_loss_bounded:
  assumes "mcl_wire_duration_encode s (Some c0) = (MCL_WIRE_OK, Some c)" and "16 \<le> s"
  shows "16 * unat s < 17 * unat (mcl_wire_duration_seconds c)"
proof -
  have code: "duration_code s = Some c" and max: "s \<le> MCL_WIRE_DURATION_MAX_SECONDS"
    using assms(1) duration_code_result [of s c0]
    by (auto simp: mcl_wire_duration_encode_def split: option.splits if_splits)
  have c16: "16 \<le> c"
    using assms(2) duration.enc_greatest [OF code, of 16] by (simp add: mcl_wire_duration_seconds_def)
  have above: "unat s < duration_of (Suc (unat c))"
  proof (cases "c = 255")
    case True
    then show ?thesis using max duration_of_Suc [of 255] by (simp add: word_le_nat_alt duration_of_255)
  next
    case False
    then have c1: "unat (c + 1) = Suc (unat c)"
      using unat_u8_less [of c] by (auto simp: unat_word_ariths word_unat_eq_iff)
    then have "c < c + 1" by (simp add: word_less_nat_alt)
    from duration.next_above [OF code this] show ?thesis
      by (simp add: word_less_nat_alt duration_seconds_of c1)
  qed
  have "16 * duration_of (Suc (unat c)) \<le> 17 * duration_of (unat c)"
    using c16 by (intro duration_of_step) (simp add: word_le_nat_alt)
  with above show ?thesis by (simp add: duration_seconds_of)
qed

text \<open>A duration in the gap below the last band.\<close>

lemma duration_loss_bounded_witness:
  "mcl_wire_duration_encode 260000 (Some 0) = (MCL_WIRE_OK, Some 0xEF) \<and>
   16 * unat (260000 :: u32) < 17 * unat (mcl_wire_duration_seconds 0xEF)"
proof -
  have "mcl_wire_duration_encode 260000 (Some 0) = (MCL_WIRE_OK, Some 0xEF)" by code_simp
  from this duration_loss_bounded [OF this] show ?thesis by simp
qed

end
