(* ===== verification/Wire_Bits.thy ===== *)
theory Wire_Bits
  imports Wire_Prelude
begin

text \<open>
  The bit-level writer and reader of \<open>src/wire.c\<close>: \<open>mcl_write_u\<close>, \<open>mcl_write_s\<close>, \<open>mcl_read_u\<close>,
  \<open>mcl_read_s\<close>, \<open>mcl_require_zero_padding\<close> and \<open>mcl_zero_bytes\<close>, and their abstract behaviour on
  bit strings: a write appends the value's bits to what has been written, a read takes the next
  bits of what remains.
\<close>

unbundle bit_operations_syntax

section \<open>State\<close>

record mcl_bit_writer =
  wr_buffer :: "u8 list"
  wr_capacity_bits :: nat
  wr_position :: nat

record mcl_bit_reader =
  rd_buffer :: "u8 list"
  rd_size_bits :: nat
  rd_position :: nat

definition mcl_zero_bytes :: "u8 list \<Rightarrow> nat \<Rightarrow> u8 list" where
  "mcl_zero_bytes bytes count = fold (\<lambda>i bytes. bytes[i := 0]) [0..<count] bytes"

section \<open>Writing\<close>

text \<open>One iteration of the loop of \<open>mcl_write_u\<close>: bit \<open>width - 1 - i\<close> of the value is stored.\<close>

definition write_bit :: "u32 \<Rightarrow> nat \<Rightarrow> nat \<Rightarrow> mcl_bit_writer \<Rightarrow> mcl_bit_writer" where
  "write_bit value width i w =
     (let shift = width - 1 - i;
          b = (ucast (drop_bit shift value AND 1) :: u8);
          byte_index = drop_bit 3 (wr_position w);
          bit_index = 7 - (wr_position w AND 7);
          buf = wr_buffer w
      in w\<lparr>wr_buffer := (if b \<noteq> 0
                        then buf[byte_index := buf ! byte_index OR ucast (push_bit bit_index (1::u32))]
                        else buf),
           wr_position := wr_position w + 1\<rparr>)"

definition mcl_write_u ::
    "u32 \<Rightarrow> nat \<Rightarrow> mcl_bit_writer ptr \<Rightarrow> mcl_wire_status \<times> mcl_bit_writer ptr" where
  "mcl_write_u value width writer =
     (case writer of
        None \<Rightarrow> (MCL_WIRE_ERR_INVALID_ARGUMENT, writer)
      | Some w \<Rightarrow>
          if width > 32 then (MCL_WIRE_ERR_INVALID_ARGUMENT, writer)
          else if width < 32 \<and> value \<ge> push_bit width 1 then (MCL_WIRE_ERR_RANGE, writer)
          else if wr_position w > wr_capacity_bits w
                  \<or> width > wr_capacity_bits w - wr_position w
          then (MCL_WIRE_ERR_BUFFER_TOO_SMALL, writer)
          else (MCL_WIRE_OK, Some (fold (write_bit value width) [0..<width] w)))"

definition mcl_write_s ::
    "s32 \<Rightarrow> nat \<Rightarrow> mcl_bit_writer ptr \<Rightarrow> mcl_wire_status \<times> mcl_bit_writer ptr" where
  "mcl_write_s value width writer =
     (if width = 0 \<or> width \<ge> 32 then (MCL_WIRE_ERR_RANGE, writer)
      else
        let minimum = - (push_bit (width - 1) 1 :: s32);
            maximum = (push_bit (width - 1) 1 - 1 :: s32)
        in if sint value < sint minimum \<or> sint value > sint maximum
           then (MCL_WIRE_ERR_RANGE, writer)
           else
             let encoded = (if sint value < 0
                            then let magnitude = - value in push_bit width 1 - magnitude
                            else value)
             in mcl_write_u encoded width writer)"

section \<open>Reading\<close>

definition read_bit :: "u32 \<times> mcl_bit_reader \<Rightarrow> u32 \<times> mcl_bit_reader" where
  "read_bit = (\<lambda>(result, r).
     let byte_index = drop_bit 3 (rd_position r);
         bit_index = 7 - (rd_position r AND 7)
     in (push_bit 1 result OR ucast (drop_bit bit_index (rd_buffer r ! byte_index) AND 1),
         r\<lparr>rd_position := rd_position r + 1\<rparr>))"

definition mcl_read_u ::
    "nat \<Rightarrow> mcl_bit_reader ptr \<Rightarrow> u32 ptr \<Rightarrow> mcl_wire_status \<times> mcl_bit_reader ptr \<times> u32 ptr" where
  "mcl_read_u width reader value =
     (case (reader, value) of
        (Some r, Some _) \<Rightarrow>
          if width > 32 then (MCL_WIRE_ERR_INVALID_ARGUMENT, reader, value)
          else if rd_position r > rd_size_bits r \<or> width > rd_size_bits r - rd_position r
          then (MCL_WIRE_ERR_TRUNCATED, reader, value)
          else let (result, r') = fold (\<lambda>_. read_bit) [0..<width] (0, r)
               in (MCL_WIRE_OK, Some r', Some result)
      | _ \<Rightarrow> (MCL_WIRE_ERR_INVALID_ARGUMENT, reader, value))"

definition mcl_read_s ::
    "nat \<Rightarrow> mcl_bit_reader ptr \<Rightarrow> s32 ptr \<Rightarrow> mcl_wire_status \<times> mcl_bit_reader ptr \<times> s32 ptr" where
  "mcl_read_s width reader value =
     (if width = 0 \<or> width \<ge> 32 \<or> value = None
      then (MCL_WIRE_ERR_INVALID_ARGUMENT, reader, value)
      else
        case mcl_read_u width reader (Some 0) of
          (status, reader', enc) \<Rightarrow>
            if status \<noteq> MCL_WIRE_OK then (status, reader', value)
            else
              let encoded = the enc
              in if encoded AND push_bit (width - 1) 1 \<noteq> 0
                 then (MCL_WIRE_OK, reader', Some (encoded - push_bit width 1))
                 else (MCL_WIRE_OK, reader', Some encoded))"

text \<open>The \<open>while\<close> loop of \<open>mcl_require_zero_padding\<close>; what shrinks is the distance to the end.\<close>

function require_zero_padding_loop :: "mcl_bit_reader \<Rightarrow> mcl_wire_status \<times> mcl_bit_reader" where
  "require_zero_padding_loop r =
     (if rd_position r < rd_size_bits r
      then let byte_index = drop_bit 3 (rd_position r);
               bit_index = 7 - (rd_position r AND 7)
           in if drop_bit bit_index (rd_buffer r ! byte_index) AND 1 \<noteq> 0
              then (MCL_WIRE_ERR_NONCANONICAL, r)
              else require_zero_padding_loop (r\<lparr>rd_position := rd_position r + 1\<rparr>)
      else (MCL_WIRE_OK, r))"
  by pat_completeness auto
termination
  by (relation "measure (\<lambda>r. rd_size_bits r - rd_position r)") auto

declare require_zero_padding_loop.simps [simp del]

definition mcl_require_zero_padding ::
    "mcl_bit_reader ptr \<Rightarrow> mcl_wire_status \<times> mcl_bit_reader ptr" where
  "mcl_require_zero_padding reader =
     (case reader of
        None \<Rightarrow> (MCL_WIRE_ERR_INVALID_ARGUMENT, reader)
      | Some r \<Rightarrow> (case require_zero_padding_loop r of (st, r') \<Rightarrow> (st, Some r')))"

section \<open>What a write does to the buffer\<close>

text \<open>
  The store of one bit, without the value it comes from. \<open>emit bs w\<close> is the writer after the bits
  \<open>bs\<close>; it is a homomorphism, so a sequence of writes emits the concatenation of their bits.
\<close>

definition emit_bit :: "bool \<Rightarrow> mcl_bit_writer \<Rightarrow> mcl_bit_writer" where
  "emit_bit b w =
     w\<lparr>wr_buffer := (if b
         then (wr_buffer w)[wr_position w div 8 :=
                 wr_buffer w ! (wr_position w div 8) OR push_bit (7 - wr_position w mod 8) 1]
         else wr_buffer w),
       wr_position := wr_position w + 1\<rparr>"

definition emit :: "bool list \<Rightarrow> mcl_bit_writer \<Rightarrow> mcl_bit_writer" where
  "emit bs w = fold emit_bit bs w"

lemma emit_Nil [simp]: "emit [] w = w"
  by (simp add: emit_def)

lemma emit_append [simp]: "emit (bs @ cs) w = emit cs (emit bs w)"
  by (simp add: emit_def)

lemma emit_position [simp]: "wr_position (emit bs w) = wr_position w + length bs"
  by (induction bs arbitrary: w) (simp_all add: emit_def emit_bit_def)

lemma emit_capacity [simp]: "wr_capacity_bits (emit bs w) = wr_capacity_bits w"
  by (induction bs arbitrary: w) (simp_all add: emit_def emit_bit_def)

lemma emit_length [simp]: "length (wr_buffer (emit bs w)) = length (wr_buffer w)"
  by (induction bs arbitrary: w) (simp_all add: emit_def emit_bit_def)

lemma byte_index_bit_index [wire_bits]:
  "drop_bit 3 (n::nat) = n div 8" "n AND 7 = n mod 8"
proof -
  show "drop_bit 3 n = n div 8" by (simp add: drop_bit_eq_div)
  have "n AND mask 3 = n mod 2 ^ 3" by (simp add: take_bit_eq_mask [symmetric] take_bit_eq_mod)
  then show "n AND 7 = n mod 8" by (simp add: mask_eq_exp_minus_1)
qed

lemma low_bit_nonzero [wire_bits]: "drop_bit n (v::'a::len word) AND 1 \<noteq> 0 \<longleftrightarrow> bit v n"
  by (simp add: and_one_eq mod2_eq_if bit_iff_odd_drop_bit)

lemma low_bit_eq [wire_bits]: "drop_bit n (v::'a::len word) AND 1 = of_bool (bit v n)"
  by (simp add: and_one_eq mod2_eq_if bit_iff_odd_drop_bit)

lemma ucast_bit_mask [wire_bits]: "n < 8 \<Longrightarrow> ucast (push_bit n (1::u32)) = (push_bit n 1 :: u8)"
  by (rule bit_eqI) (auto simp: bit_simps)

lemma ucast_of_bool_nonzero [wire_bits]: "(ucast (of_bool b :: u32) :: u8) \<noteq> 0 \<longleftrightarrow> b"
  by simp

lemma write_bit_emit:
  "write_bit value width i w = emit_bit (bit value (width - 1 - i)) w"
proof -
  have "7 - wr_position w mod 8 < 8" by simp
  from ucast_bit_mask [OF this] show ?thesis
    by (simp only: write_bit_def emit_bit_def Let_def byte_index_bit_index low_bit_eq
        ucast_of_bool_nonzero)
qed

lemma write_loop_emit: "fold (write_bit value width) [0..<width] w = emit (to_bits width value) w"
  proof -
  have "write_bit value width = emit_bit \<circ> (\<lambda>i. bit value (width - 1 - i))"
    by (intro ext) (simp only: write_bit_emit comp_def)
  then show ?thesis by (simp only: emit_def to_bits_def fold_map)
qed

text \<open>The writer is sound for a run of bits when they fit and the bytes they go to are still zero.\<close>

definition writer_ok :: "mcl_bit_writer \<Rightarrow> bool" where
  "writer_ok w \<longleftrightarrow>
     wr_position w \<le> wr_capacity_bits w \<and> wr_capacity_bits w \<le> 8 * length (wr_buffer w) \<and>
     (\<forall>k. wr_position w \<le> k \<and> k < wr_capacity_bits w \<longrightarrow> \<not> bits_of (wr_buffer w) ! k)"

lemma bits_of_emit_bit:
  assumes "writer_ok w" and "wr_position w < wr_capacity_bits w"
  shows "bits_of (wr_buffer (emit_bit b w)) = (bits_of (wr_buffer w))[wr_position w := b]"
proof -
  have pos: "wr_position w < 8 * length (wr_buffer w)"
    and zero: "bits_of (wr_buffer w) ! wr_position w = False"
    using assms by (auto simp: writer_ok_def)
  show ?thesis
  proof (cases b)
    case True
    with bits_of_set_bit [OF pos] show ?thesis by (simp add: emit_bit_def)
  next
    case False
    with list_update_id [of "bits_of (wr_buffer w)" "wr_position w"] zero show ?thesis
      by (simp add: emit_bit_def)
  qed
qed

lemma writer_ok_emit_bit:
  assumes "writer_ok w" and "wr_position w < wr_capacity_bits w"
  shows "writer_ok (emit_bit b w)"
  using assms emit_position [of "[b]" w] emit_capacity [of "[b]" w] emit_length [of "[b]" w]
    bits_of_emit_bit [OF assms, of b]
  by (auto simp: writer_ok_def emit_def)

lemma writer_ok_emit:
  "writer_ok w \<Longrightarrow> wr_position w + length bs \<le> wr_capacity_bits w \<Longrightarrow> writer_ok (emit bs w)"
proof (induction bs arbitrary: w)
  case (Cons b bs)
  then have "writer_ok (emit_bit b w)" by (simp add: writer_ok_emit_bit)
  with Cons show ?case by (simp add: emit_def emit_bit_def)
qed simp

lemma bits_of_emit:
  "writer_ok w \<Longrightarrow> wr_position w + length bs \<le> wr_capacity_bits w \<Longrightarrow>
   bits_of (wr_buffer (emit bs w)) =
     take (wr_position w) (bits_of (wr_buffer w)) @ bs @
     drop (wr_position w + length bs) (bits_of (wr_buffer w))"
proof (induction bs arbitrary: w)
  case (Cons b bs)
  let ?p = "wr_position w" and ?xs = "bits_of (wr_buffer w)"
  have lt: "?p < wr_capacity_bits w" using Cons.prems by simp
  then have ok: "writer_ok (emit_bit b w)" and p: "?p < length ?xs"
    using Cons.prems(1) writer_ok_emit_bit by (blast, simp add: writer_ok_def)
  have "emit (b # bs) w = emit bs (emit_bit b w)" by (simp add: emit_def)
  moreover have "bits_of (wr_buffer (emit bs (emit_bit b w))) =
      take (Suc ?p) (?xs[?p := b]) @ bs @ drop (Suc ?p + length bs) (?xs[?p := b])"
    using Cons.IH [OF ok] Cons.prems bits_of_emit_bit [OF Cons.prems(1) lt, of b]
    by (simp add: emit_bit_def)
  ultimately show ?case
    using p by (simp add: take_Suc_conv_app_nth)
qed simp

section \<open>What a read takes from the buffer\<close>

definition remaining :: "mcl_bit_reader \<Rightarrow> bool list" where
  "remaining r = drop (rd_position r) (take (rd_size_bits r) (bits_of (rd_buffer r)))"

definition reader_ok :: "mcl_bit_reader \<Rightarrow> bool" where
  "reader_ok r \<longleftrightarrow>
     rd_position r \<le> rd_size_bits r \<and> rd_size_bits r \<le> 8 * length (rd_buffer r)"

definition advance :: "nat \<Rightarrow> mcl_bit_reader \<Rightarrow> mcl_bit_reader" where
  "advance n r = r\<lparr>rd_position := rd_position r + n\<rparr>"

lemma length_remaining: "reader_ok r \<Longrightarrow> length (remaining r) = rd_size_bits r - rd_position r"
  by (simp add: remaining_def reader_ok_def)

lemma remaining_advance: "remaining (advance n r) = drop n (remaining r)"
  by (simp add: remaining_def advance_def add.commute)

lemma reader_ok_advance:
  "reader_ok r \<Longrightarrow> n \<le> length (remaining r) \<Longrightarrow> reader_ok (advance n r)"
  by (auto simp: reader_ok_def advance_def remaining_def)

lemma advance_0 [simp]: "advance 0 r = r"
  by (simp add: advance_def)

lemma advance_advance [simp]: "advance m (advance n r) = advance (n + m) r"
  by (simp add: advance_def)

lemma reader_bit:
  assumes "reader_ok r" and "rd_position r < rd_size_bits r"
  shows "bit (rd_buffer r ! (rd_position r div 8)) (7 - rd_position r mod 8) = hd (remaining r)"
proof -
  have p: "rd_position r < 8 * length (rd_buffer r)" using assms by (auto simp: reader_ok_def)
  then have "hd (remaining r) = bits_of (rd_buffer r) ! rd_position r"
    using assms by (simp add: remaining_def hd_drop_conv_nth)
  with p show ?thesis by (simp add: nth_bits_of)
qed

lemma read_bit_remaining:
  assumes "reader_ok r" and "remaining r \<noteq> []"
  shows "read_bit (result, r) = (push_bit 1 result OR of_bool (hd (remaining r)), advance 1 r)"
proof -
  have "rd_position r < rd_size_bits r" using assms by (auto simp: remaining_def reader_ok_def)
  with assms(1) show ?thesis
    by (simp add: read_bit_def Let_def byte_index_bit_index low_bit_eq reader_bit advance_def)
qed

lemma read_loop_remaining:
  assumes "reader_ok r" and "n \<le> length (remaining r)"
  shows "fold (\<lambda>_. read_bit) [0..<n] (0, r) = (of_bits (take n (remaining r)), advance n r)"
  using assms
proof (induction n)
  case 0
  then show ?case by simp
next
  case (Suc n)
  then have ok: "reader_ok (advance n r)" by (simp add: reader_ok_advance)
  have ne: "remaining (advance n r) \<noteq> []" and hd: "hd (remaining (advance n r)) = remaining r ! n"
    using Suc.prems by (auto simp: remaining_advance hd_drop_conv_nth)
  from Suc have "fold (\<lambda>_. read_bit) [0..<Suc n] (0, r) =
      read_bit (of_bits (take n (remaining r)), advance n r)"
    by simp
  also have "\<dots> = (of_bits (take (Suc n) (remaining r)), advance (Suc n) r)"
    using Suc.prems
    by (simp only: read_bit_remaining [OF ok ne] hd take_Suc_conv_app_nth of_bits_snoc)
       (simp add: advance_def)
  finally show ?case .
qed

lemma mcl_read_u_remaining:
  assumes "reader_ok r" and "n \<le> 32" and "n \<le> length (remaining r)"
  shows "mcl_read_u n (Some r) (Some x) =
           (MCL_WIRE_OK, Some (advance n r), Some (of_bits (take n (remaining r))))"
  using assms read_loop_remaining [OF assms(1,3)]
  by (auto simp: mcl_read_u_def length_remaining reader_ok_def)

lemma padding_loop_remaining:
  "reader_ok r \<Longrightarrow>
   (if True \<in> set (remaining r)
    then \<exists>r'. require_zero_padding_loop r = (MCL_WIRE_ERR_NONCANONICAL, r')
    else require_zero_padding_loop r = (MCL_WIRE_OK, advance (length (remaining r)) r))"
proof (induction r rule: require_zero_padding_loop.induct)
  case (1 r)
  show ?case
  proof (cases "rd_position r < rd_size_bits r")
    case True
    then have ne: "remaining r \<noteq> []" and ok: "reader_ok (advance 1 r)"
      using "1.prems" by (auto simp: remaining_def reader_ok_def advance_def)
    then obtain b bs where bs: "remaining r = b # bs" by (cases "remaining r") auto
    have rest: "remaining (advance 1 r) = bs" by (simp add: remaining_advance bs)
    have step: "require_zero_padding_loop r =
        (if b then (MCL_WIRE_ERR_NONCANONICAL, r) else require_zero_padding_loop (advance 1 r))"
      using True reader_bit [OF "1.prems" True] bs
      by (subst require_zero_padding_loop.simps)
         (simp add: Let_def byte_index_bit_index low_bit_nonzero advance_def)
    show ?thesis
    proof (cases b)
      case False
      have next_r: "r\<lparr>rd_position := rd_position r + 1\<rparr> = advance 1 r" by (simp add: advance_def)
      have "\<not> drop_bit (7 - (rd_position r AND 7)) (rd_buffer r ! drop_bit 3 (rd_position r)) AND 1 \<noteq> 0"
        using False bs reader_bit [OF "1.prems" True]
        by (simp only: byte_index_bit_index low_bit_nonzero) simp
      note IH = "1.IH" [OF True refl refl this, unfolded next_r, OF ok, unfolded rest]
      with False bs step show ?thesis by (simp only: if_False) auto
    qed (simp add: step bs)
  next
    case False
    then have "remaining r = []" by (simp add: remaining_def)
    with False show ?thesis by (simp add: require_zero_padding_loop.simps [of r])
  qed
qed

end
