(* ===== verification/Wire_Field.thy ===== *)
theory Wire_Field
  imports Wire_Bits
begin

text \<open>
  The interface through which the Tier-0 codec uses the bit writer and reader: a field format with
  a width, a value domain, a \<open>put\<close> and a \<open>get\<close>. The locale \<open>bit_field\<close> states the contract and
  proves, once, what a sequence of puts writes and what a sequence of gets reads. It is interpreted
  on \<open>mcl_write_u\<close>/\<open>mcl_read_u\<close>, on \<open>mcl_write_s\<close>/\<open>mcl_read_s\<close>, and on the mixed formats of the
  object bodies.
\<close>

unbundle bit_operations_syntax

section \<open>Sequences of fields\<close>

primrec put_all :: "('f \<Rightarrow> u32 \<Rightarrow> 's stmt) \<Rightarrow> ('f \<times> u32) list \<Rightarrow> 's stmt" where
  "put_all put [] = (\<lambda>s. (MCL_WIRE_OK, s))"
| "put_all put (fv # fvs) = mcl_try (put (fst fv) (snd fv)) (put_all put fvs)"

text \<open>
  \<open>MCL_TRY(get(&reader, f, &value)); object->member = value;\<close> as one statement over the reader and
  the object under construction. The scratch variable is written before it is read.
\<close>

definition get_into ::
    "('f \<Rightarrow> 'r \<Rightarrow> u32 ptr \<Rightarrow> mcl_wire_status \<times> 'r \<times> u32 ptr) \<Rightarrow> 'f \<Rightarrow> (u32 \<Rightarrow> 'o \<Rightarrow> 'o) \<Rightarrow>
     ('r \<times> 'o) stmt" where
  "get_into get f upd = (\<lambda>(r, obj).
     case get f r (Some 0) of (st, r', v) \<Rightarrow>
       (st, (r', if st = MCL_WIRE_OK then upd (the v) obj else obj)))"

primrec get_all ::
    "('f \<Rightarrow> 'r \<Rightarrow> u32 ptr \<Rightarrow> mcl_wire_status \<times> 'r \<times> u32 ptr) \<Rightarrow> ('f \<times> (u32 \<Rightarrow> 'o \<Rightarrow> 'o)) list \<Rightarrow>
     ('r \<times> 'o) stmt" where
  "get_all get [] = (\<lambda>s. (MCL_WIRE_OK, s))"
| "get_all get (fu # fus) = mcl_try (get_into get (fst fu) (snd fu)) (get_all get fus)"

text \<open>The object after the updates have taken their values, in order, from a bit string.\<close>

primrec apply_values ::
    "('f \<Rightarrow> nat) \<Rightarrow> ('f \<Rightarrow> bool list \<Rightarrow> u32) \<Rightarrow> ('f \<times> (u32 \<Rightarrow> 'o \<Rightarrow> 'o)) list \<Rightarrow> bool list \<Rightarrow> 'o \<Rightarrow> 'o"
  where
  "apply_values width value_of [] bs obj = obj"
| "apply_values width value_of (fu # fus) bs obj =
     apply_values width value_of fus (drop (width (fst fu)) bs)
       (snd fu (value_of (fst fu) (take (width (fst fu)) bs)) obj)"

definition field_bits :: "('f \<Rightarrow> nat) \<Rightarrow> ('f \<times> u32) list \<Rightarrow> bool list" where
  "field_bits width fvs = concat (map (\<lambda>(f, v). to_bits (width f) v) fvs)"

lemma field_bits_Nil [simp]: "field_bits width [] = []"
  by (simp add: field_bits_def)

lemma field_bits_Cons [simp]:
  "field_bits width ((f, v) # fvs) = to_bits (width f) v @ field_bits width fvs"
  by (simp add: field_bits_def)

lemma length_field_bits: "length (field_bits width fvs) = sum_list (map (width \<circ> fst) fvs)"
  by (induction fvs) (auto simp: field_bits_def)

lemma length_field_bits_takeWhile:
  "length (field_bits width (takeWhile P fvs)) \<le> length (field_bits width fvs)"
  by (induction fvs) (auto simp: field_bits_def)

section \<open>The interface\<close>

locale bit_field =
  fixes put :: "'f \<Rightarrow> u32 \<Rightarrow> mcl_bit_writer ptr stmt"
    and get :: "'f \<Rightarrow> mcl_bit_reader ptr \<Rightarrow> u32 ptr \<Rightarrow> mcl_wire_status \<times> mcl_bit_reader ptr \<times> u32 ptr"
    and legal :: "'f \<Rightarrow> bool"
    and width :: "'f \<Rightarrow> nat"
    and fits :: "'f \<Rightarrow> u32 \<Rightarrow> bool"
    and value_of :: "'f \<Rightarrow> bool list \<Rightarrow> u32"
  assumes put_fits: "legal f \<Longrightarrow> fits f v \<Longrightarrow> wr_position w + width f \<le> wr_capacity_bits w \<Longrightarrow>
      put f v (Some w) = (MCL_WIRE_OK, Some (emit (to_bits (width f) v) w))"
    and put_misfit: "legal f \<Longrightarrow> \<not> fits f v \<Longrightarrow> put f v (Some w) = (MCL_WIRE_ERR_RANGE, Some w)"
    and get_value: "legal f \<Longrightarrow> reader_ok r \<Longrightarrow> width f \<le> length (remaining r) \<Longrightarrow>
      get f (Some r) (Some x) =
        (MCL_WIRE_OK, Some (advance (width f) r), Some (value_of f (take (width f) (remaining r))))"
    and fits_value_of: "legal f \<Longrightarrow> length bs = width f \<Longrightarrow> fits f (value_of f bs)"
    and bits_value_of: "legal f \<Longrightarrow> length bs = width f \<Longrightarrow> to_bits (width f) (value_of f bs) = bs"
    and value_of_bits: "legal f \<Longrightarrow> fits f v \<Longrightarrow> value_of f (to_bits (width f) v) = v"
begin

lemma put_all_result:
  assumes "\<forall>(f, v) \<in> set fvs. legal f"
    and "wr_position w + length (field_bits width fvs) \<le> wr_capacity_bits w"
  shows "put_all put fvs (Some w) =
     (if \<forall>(f, v) \<in> set fvs. fits f v then MCL_WIRE_OK else MCL_WIRE_ERR_RANGE,
      Some (emit (field_bits width (takeWhile (\<lambda>(f, v). fits f v) fvs)) w))"
  using assms
proof (induction fvs arbitrary: w)
  case Nil
  then show ?case by simp
next
  case (Cons fv fvs)
  obtain f v where fv: "fv = (f, v)" by (cases fv)
  show ?case
  proof (cases "fits f v")
    case True
    with Cons.prems fv have "put f v (Some w) = (MCL_WIRE_OK, Some (emit (to_bits (width f) v) w))"
      by (intro put_fits) auto
    with True Cons fv show ?thesis by auto
  next
    case False
    with Cons.prems fv have "put f v (Some w) = (MCL_WIRE_ERR_RANGE, Some w)"
      by (intro put_misfit) auto
    with False fv show ?thesis by (simp add: mcl_try_fail)
  qed
qed

lemma get_all_result:
  assumes "\<forall>fu \<in> set fus. legal (fst fu)"
    and "reader_ok r"
    and "sum_list (map (width \<circ> fst) fus) \<le> length (remaining r)"
  shows "get_all get fus (Some r, obj) =
     (MCL_WIRE_OK, (Some (advance (sum_list (map (width \<circ> fst) fus)) r),
        apply_values width value_of fus (remaining r) obj))"
  using assms
proof (induction fus arbitrary: r obj)
  case Nil
  then show ?case by simp
next
  case (Cons fu fus)
  let ?r = "advance (width (fst fu)) r"
  have "get (fst fu) (Some r) (Some 0) =
      (MCL_WIRE_OK, Some ?r, Some (value_of (fst fu) (take (width (fst fu)) (remaining r))))"
    using Cons.prems by (intro get_value) auto
  then have step: "get_into get (fst fu) (snd fu) (Some r, obj) =
      (MCL_WIRE_OK, (Some ?r, snd fu (value_of (fst fu) (take (width (fst fu)) (remaining r))) obj))"
    by (simp add: get_into_def)
  have "reader_ok ?r" using Cons.prems by (auto intro: reader_ok_advance)
  moreover have "sum_list (map (width \<circ> fst) fus) \<le> length (remaining ?r)"
    using Cons.prems by (auto simp: remaining_advance comp_def)
  ultimately show ?case
    using Cons.IH [of ?r] Cons.prems(1) by (simp add: step remaining_advance comp_def)
qed

text \<open>Reading back what was put gives the values put, one per field.\<close>

lemma apply_values_field_bits:
  assumes "\<forall>(f, v) \<in> set fvs. legal f \<and> fits f v"
    and "length us = length fvs"
  shows "apply_values width value_of (zip (map fst fvs) us) (field_bits width fvs @ rest) obj =
     fold (\<lambda>(u, v). u v) (zip us (map snd fvs)) obj"
  using assms(2,1)
proof (induction us fvs arbitrary: obj rule: list_induct2)
  case Nil
  then show ?case by simp
next
  case (Cons u us fv fvs)
  obtain f v where fv: "fv = (f, v)" by (cases fv)
  with Cons show ?case by (simp add: value_of_bits)
qed

lemma get_put_roundtrip:
  assumes "legal f" and "fits f v" and "reader_ok r" and "remaining r = to_bits (width f) v @ rest"
  shows "get f (Some r) (Some x) = (MCL_WIRE_OK, Some (advance (width f) r), Some v)"
  using assms by (simp add: get_value value_of_bits)

end

section \<open>Unsigned fields\<close>

definition fits_u :: "nat \<Rightarrow> u32 \<Rightarrow> bool" where
  "fits_u n v \<longleftrightarrow> take_bit n v = v"

lemma mcl_write_u_guard: "n \<le> 32 \<Longrightarrow> (n < 32 \<and> v \<ge> push_bit n 1) \<longleftrightarrow> \<not> fits_u n v"
proof -
  assume "n \<le> 32"
  then consider "n = 32" | "n < 32" by linarith
  then show ?thesis
  proof cases
    case 1
    then show ?thesis by (simp add: fits_u_def take_bit_word_eq_self)
  next
    case 2
    then show ?thesis using less_exp_iff_take_bit [of n v] 2 by (auto simp: fits_u_def not_less)
  qed
qed

interpretation uf: bit_field
  "\<lambda>n v. mcl_write_u v n" mcl_read_u "\<lambda>n. n \<le> 32" "\<lambda>n. n" fits_u "\<lambda>_. of_bits"
proof unfold_locales
  fix n v and w :: mcl_bit_writer
  assume "n \<le> 32" "fits_u n v" "wr_position w + n \<le> wr_capacity_bits w"
  then show "mcl_write_u v n (Some w) = (MCL_WIRE_OK, Some (emit (to_bits n v) w))"
    using mcl_write_u_guard [of n v] by (auto simp: mcl_write_u_def write_loop_emit)
next
  fix n v and w :: mcl_bit_writer
  assume "n \<le> 32" "\<not> fits_u n v"
  then show "mcl_write_u v n (Some w) = (MCL_WIRE_ERR_RANGE, Some w)"
    using mcl_write_u_guard [of n v] by (auto simp: mcl_write_u_def)
next
  fix n :: nat and bs :: "bool list"
  assume "n \<le> 32" "length bs = n"
  then show "fits_u n (of_bits bs)"
    unfolding fits_u_def by (intro bit_eqI) (auto simp: bit_of_bits bit_take_bit_iff)
next
  fix n :: nat and bs :: "bool list"
  assume "n \<le> 32" "length bs = n"
  then show "to_bits n (of_bits bs) = bs" using to_bits_of_bits by blast
qed (simp_all add: mcl_read_u_remaining of_bits_to_bits fits_u_def)

section \<open>Signed fields\<close>

definition fits_s :: "nat \<Rightarrow> s32 \<Rightarrow> bool" where
  "fits_s n v \<longleftrightarrow> - (2 ^ (n - 1)) \<le> sint v \<and> sint v < 2 ^ (n - 1)"

definition sign_extend :: "nat \<Rightarrow> bool list \<Rightarrow> s32" where
  "sign_extend n bs = signed_take_bit (n - 1) (of_bits bs)"

lemma sint_exp:
  assumes "k < 31"
  shows "sint (- (push_bit k 1) :: s32) = - (2 ^ k)" and "sint (push_bit k 1 - 1 :: s32) = 2 ^ k - 1"
proof -
  have k: "(2::int) ^ k \<le> 2 ^ 30" "0 < (2::int) ^ k"
    using assms by (auto intro: power_increasing simp del: power_numeral)
  have "(push_bit k 1 :: s32) = word_of_int (2 ^ k)" by (simp add: word_of_int_2p)
  then have eqs: "(- (push_bit k 1) :: s32) = word_of_int (- (2 ^ k))"
    "(push_bit k 1 - 1 :: s32) = word_of_int (2 ^ k - 1)"
    by simp_all
  have "signed_take_bit 31 (- x) = (- x :: int) \<and> signed_take_bit 31 (x - 1) = x - 1"
    if "0 < x" "x \<le> 2 ^ 30" for x :: int
    using that by (simp add: signed_take_bit_int_eq_self_iff)
  from this [OF k(2,1)] eqs show "sint (- (push_bit k 1) :: s32) = - (2 ^ k)"
    and "sint (push_bit k 1 - 1 :: s32) = 2 ^ k - 1"
    by (simp_all only: sint_sbintrunc') simp_all
qed

lemma fits_s_iff_signed_take_bit:
  assumes "0 < n" and "n < 32"
  shows "fits_s n v \<longleftrightarrow> signed_take_bit (n - 1) v = v"
proof -
  have "fits_s n v \<longleftrightarrow> signed_take_bit (n - 1) (sint v) = sint v"
    by (simp add: fits_s_def signed_take_bit_int_eq_self_iff)
  also have "signed_take_bit (n - 1) (sint v) = sint (signed_take_bit (n - 1) v)"
    using assms by (intro bit_eqI) (auto simp: bit_simps min_def bit_sint_iff)
  finally show ?thesis by (metis signed_word_eqI)
qed

lemma signed_take_bit_word:
  "signed_take_bit k (v::u32) = take_bit (Suc k) v - push_bit (Suc k) (of_bool (bit v k))"
  by (simp add: signed_take_bit_eq_take_bit_add minus_exp_eq_not_mask [symmetric] push_bit_eq_mult)

text \<open>The two's complement the writer forms by subtracting the magnitude is the low \<open>n\<close> bits.\<close>

lemma write_s_encoded:
  assumes "0 < n" and "n < 32" and "fits_s n v"
  shows "(if sint v < 0 then push_bit n 1 - (- v) else v) = take_bit n v"
proof -
  have fix_v: "signed_take_bit (n - 1) v = v"
    using assms by (simp add: fits_s_iff_signed_take_bit)
  then have v: "v = take_bit n v - push_bit n (of_bool (bit v (n - 1)))"
    using assms signed_take_bit_word [of "n - 1" v] by simp
  have "sint v < 0 \<longleftrightarrow> bit v 31"
    using bit_last_iff [of v] by simp
  also have "\<dots> \<longleftrightarrow> bit (signed_take_bit (n - 1) v) 31"
    by (simp only: fix_v)
  also have "\<dots> \<longleftrightarrow> bit v (n - 1)"
    using assms by (auto simp: bit_signed_take_bit_iff min_def)
  finally show ?thesis using v by (auto simp: algebra_simps)
qed

lemma read_s_decoded:
  assumes "0 < n" and "n < 32" and "length bs = n"
  shows "(if of_bits bs AND push_bit (n - 1) 1 \<noteq> 0 then of_bits bs - push_bit n 1 else of_bits bs)
           = sign_extend n bs"
proof -
  have "take_bit n (of_bits bs) = of_bits bs"
    using uf.fits_value_of [of n bs] assms by (simp add: fits_u_def)
  moreover have "of_bits bs AND push_bit (n - 1) 1 \<noteq> 0 \<longleftrightarrow> bit (of_bits bs) (n - 1)"
    using assms by (simp add: bit_iff_and_push_bit_not_eq_0)
  ultimately show ?thesis
    using assms signed_take_bit_word [of "n - 1" "of_bits bs"] by (simp add: sign_extend_def)
qed

lemma signed_take_bit_width:
  "0 < n \<Longrightarrow> signed_take_bit (n - 1) (take_bit n v) = signed_take_bit (n - 1) (v :: u32)"
proof -
  assume "0 < n"
  then have "n - 1 < n" by simp
  then show ?thesis by (simp only: signed_take_bit_take_bit not_le [symmetric] if_False simp_thms)
qed

lemma mcl_write_s_guard:
  assumes "0 < n" and "n < 32"
  shows "sint v < sint (- (push_bit (n - 1) 1) :: s32) \<or> sint v > sint (push_bit (n - 1) 1 - 1 :: s32) \<longleftrightarrow>
     \<not> fits_s n v"
proof -
  have "n - 1 < 31" using assms by arith
  from sint_exp [OF this] show ?thesis by (auto simp only: fits_s_def)
qed

lemma mcl_write_s_fits:
  assumes "0 < n" and "n < 32" and "fits_s n v" and "wr_position w + n \<le> wr_capacity_bits w"
  shows "mcl_write_s v n (Some w) = (MCL_WIRE_OK, Some (emit (to_bits n v) w))"
proof -
  have "mcl_write_s v n (Some w) = mcl_write_u (if sint v < 0 then push_bit n 1 - (- v) else v) n (Some w)"
    using assms(1-3) mcl_write_s_guard [OF assms(1,2), of v]
    by (auto simp: mcl_write_s_def Let_def simp del: push_bit_of_1)
  also have "\<dots> = mcl_write_u (take_bit n v) n (Some w)"
    by (simp only: write_s_encoded [OF assms(1-3)])
  also have "\<dots> = (MCL_WIRE_OK, Some (emit (to_bits n (take_bit n v)) w))"
    using uf.put_fits [of n "take_bit n v" w] assms(2,4) by (simp add: fits_u_def)
  also have "to_bits n (take_bit n v) = to_bits n v"
    by (rule nth_equalityI) (use assms(1) in \<open>auto simp: bit_take_bit_iff\<close>)
  finally show ?thesis .
qed

lemma mcl_write_s_misfit:
  "0 < n \<Longrightarrow> n < 32 \<Longrightarrow> \<not> fits_s n v \<Longrightarrow> mcl_write_s v n (Some w) = (MCL_WIRE_ERR_RANGE, Some w)"
  using mcl_write_s_guard [of n v] by (simp add: mcl_write_s_def Let_def del: push_bit_of_1)

lemma mcl_read_s_remaining:
  assumes "0 < n" and "n < 32" and "reader_ok r" and "n \<le> length (remaining r)"
  shows "mcl_read_s n (Some r) (Some x) =
     (MCL_WIRE_OK, Some (advance n r), Some (sign_extend n (take n (remaining r))))"
proof -
  have "mcl_read_u n (Some r) (Some 0) =
      (MCL_WIRE_OK, Some (advance n r), Some (of_bits (take n (remaining r))))"
    using assms by (intro mcl_read_u_remaining) auto
  with assms read_s_decoded [of n "take n (remaining r)"] show ?thesis
    by (auto simp: mcl_read_s_def Let_def del: push_bit_of_1 split: if_splits)
qed

lemma fits_sign_extend: "0 < n \<Longrightarrow> n < 32 \<Longrightarrow> fits_s n (sign_extend n bs)"
  by (simp add: fits_s_iff_signed_take_bit sign_extend_def)

lemma to_bits_sign_extend:
  assumes "0 < n" and "n < 32" and "length bs = n"
  shows "to_bits n (sign_extend n bs) = bs"
proof (rule nth_equalityI)
  fix i
  assume "i < length (to_bits n (sign_extend n bs))"
  then have "i < n" by simp
  with assms show "to_bits n (sign_extend n bs) ! i = bs ! i"
    by (cases i) (auto simp: sign_extend_def bit_signed_take_bit_iff bit_of_bits min_def)
qed (simp add: assms)

lemma sign_extend_to_bits:
  assumes "0 < n" and "n < 32" and "fits_s n v"
  shows "sign_extend n (to_bits n v) = v"
  using assms signed_take_bit_width [OF assms(1), of v]
  by (simp add: sign_extend_def of_bits_to_bits fits_s_iff_signed_take_bit)

interpretation sf: bit_field
  "\<lambda>n v. mcl_write_s v n" mcl_read_s "\<lambda>n. 0 < n \<and> n < 32" "\<lambda>n. n" fits_s sign_extend
  by unfold_locales
    (simp_all add: mcl_write_s_fits mcl_write_s_misfit mcl_read_s_remaining fits_sign_extend
      to_bits_sign_extend sign_extend_to_bits)

section \<open>Mixed formats\<close>

text \<open>The fields of an object body: unsigned and signed bit fields of a given width.\<close>

datatype field_format = Unsigned nat | Signed nat

primrec format_width :: "field_format \<Rightarrow> nat" where
  "format_width (Unsigned n) = n"
| "format_width (Signed n) = n"

primrec format_legal :: "field_format \<Rightarrow> bool" where
  "format_legal (Unsigned n) \<longleftrightarrow> n \<le> 32"
| "format_legal (Signed n) \<longleftrightarrow> 0 < n \<and> n < 32"

primrec format_fits :: "field_format \<Rightarrow> u32 \<Rightarrow> bool" where
  "format_fits (Unsigned n) = fits_u n"
| "format_fits (Signed n) = fits_s n"

primrec format_value :: "field_format \<Rightarrow> bool list \<Rightarrow> u32" where
  "format_value (Unsigned n) = of_bits"
| "format_value (Signed n) = sign_extend n"

primrec put_format :: "field_format \<Rightarrow> u32 \<Rightarrow> mcl_bit_writer ptr stmt" where
  "put_format (Unsigned n) v = mcl_write_u v n"
| "put_format (Signed n) v = mcl_write_s v n"

primrec get_format ::
    "field_format \<Rightarrow> mcl_bit_reader ptr \<Rightarrow> u32 ptr \<Rightarrow> mcl_wire_status \<times> mcl_bit_reader ptr \<times> u32 ptr"
  where
  "get_format (Unsigned n) = mcl_read_u n"
| "get_format (Signed n) = mcl_read_s n"

interpretation ff: bit_field put_format get_format format_legal format_width format_fits format_value
proof unfold_locales
  fix f v and w :: mcl_bit_writer
  assume "format_legal f" "format_fits f v" "wr_position w + format_width f \<le> wr_capacity_bits w"
  then show "put_format f v (Some w) = (MCL_WIRE_OK, Some (emit (to_bits (format_width f) v) w))"
    by (cases f) (simp_all add: uf.put_fits sf.put_fits)
next
  fix f v and w :: mcl_bit_writer
  assume "format_legal f" "\<not> format_fits f v"
  then show "put_format f v (Some w) = (MCL_WIRE_ERR_RANGE, Some w)"
    by (cases f) (simp_all add: uf.put_misfit sf.put_misfit)
next
  fix f x and r :: mcl_bit_reader
  assume "format_legal f" "reader_ok r" "format_width f \<le> length (remaining r)"
  then show "get_format f (Some r) (Some x) =
      (MCL_WIRE_OK, Some (advance (format_width f) r),
       Some (format_value f (take (format_width f) (remaining r))))"
    by (cases f) (simp_all add: uf.get_value sf.get_value)
next
  fix f :: field_format and bs :: "bool list"
  assume "format_legal f" "length bs = format_width f"
  then show "format_fits f (format_value f bs)"
    by (cases f) (simp_all add: uf.fits_value_of sf.fits_value_of)
next
  fix f :: field_format and bs :: "bool list"
  assume "format_legal f" "length bs = format_width f"
  then show "to_bits (format_width f) (format_value f bs) = bs"
    by (cases f) (simp_all add: uf.bits_value_of sf.bits_value_of)
next
  fix f :: field_format and v
  assume "format_legal f" "format_fits f v"
  then show "format_value f (to_bits (format_width f) v) = v"
    by (cases f) (simp_all add: uf.value_of_bits sf.value_of_bits)
qed

end
