(* ===== verification/Wire_Header.thy ===== *)
theory Wire_Header
  imports Wire_Prelude
begin

text \<open>
  The two-byte common header, the category/opcode assignment of the seven Tier-0 kinds, the rule
  which kinds a wire major carries, and the encoded sizes: \<open>mcl_wire_header_encode\<close>,
  \<open>mcl_wire_header_decode\<close>, \<open>mcl_kind_to_code\<close>, \<open>mcl_code_to_kind\<close>,
  \<open>mcl_wire_kind_allowed_at_major\<close>, \<open>mcl_wire_tier0_encoded_size\<close> and
  \<open>mcl_wire_tier0_encoded_size_at_major\<close> of \<open>src/wire.c\<close>.
\<close>

unbundle bit_operations_syntax

section \<open>Constants\<close>

abbreviation (input) MCL_WIRE_EXPERIMENTAL_MAJOR :: u8 where "MCL_WIRE_EXPERIMENTAL_MAJOR \<equiv> 0"
abbreviation (input) MCL_WIRE_STABLE_MAJOR :: u8 where "MCL_WIRE_STABLE_MAJOR \<equiv> 1"
abbreviation (input) MCL_WIRE_COMMON_HEADER_SIZE :: nat where "MCL_WIRE_COMMON_HEADER_SIZE \<equiv> 2"
abbreviation (input) MCL_WIRE_TIER0_MAX_SIZE :: nat where "MCL_WIRE_TIER0_MAX_SIZE \<equiv> 17"

type_synonym mcl_wire_kind = u8

abbreviation (input) MCL_WIRE_KIND_PRESENCE :: mcl_wire_kind where "MCL_WIRE_KIND_PRESENCE \<equiv> 0"
abbreviation (input) MCL_WIRE_KIND_HAZARD :: mcl_wire_kind where "MCL_WIRE_KIND_HAZARD \<equiv> 1"
abbreviation (input) MCL_WIRE_KIND_REQUEST :: mcl_wire_kind where "MCL_WIRE_KIND_REQUEST \<equiv> 2"
abbreviation (input) MCL_WIRE_KIND_AUTHORITY_CLAIM :: mcl_wire_kind where "MCL_WIRE_KIND_AUTHORITY_CLAIM \<equiv> 3"
abbreviation (input) MCL_WIRE_KIND_DEGRADED_STATE :: mcl_wire_kind where "MCL_WIRE_KIND_DEGRADED_STATE \<equiv> 4"
abbreviation (input) MCL_WIRE_KIND_TRANSPORT_OFFER :: mcl_wire_kind where "MCL_WIRE_KIND_TRANSPORT_OFFER \<equiv> 5"
abbreviation (input) MCL_WIRE_KIND_TRANSPORT_ACCEPT :: mcl_wire_kind where "MCL_WIRE_KIND_TRANSPORT_ACCEPT \<equiv> 6"

section \<open>The common header\<close>

record mcl_wire_header =
  hdr_major_version :: u8
  hdr_category :: u8
  hdr_opcode :: u8
  hdr_priority :: u8
  hdr_extension_present :: u8

definition mcl_wire_header_encode ::
    "mcl_wire_header ptr \<Rightarrow> u8 list ptr \<Rightarrow> mcl_wire_status \<times> u8 list ptr" where
  "mcl_wire_header_encode header out =
     (case (header, out) of
        (Some h, Some bs) \<Rightarrow>
          if hdr_major_version h > 15 \<or> hdr_category h > 15 \<or> hdr_opcode h > 31 \<or>
             hdr_priority h > 3 \<or> hdr_extension_present h > 1
          then (MCL_WIRE_ERR_RANGE, out)
          else (MCL_WIRE_OK, Some
            (bs[0 := ucast (push_bit 4 (ucast (hdr_major_version h) :: s32) OR ucast (hdr_category h)),
                1 := ucast (push_bit 3 (ucast (hdr_opcode h) :: s32) OR
                            push_bit 1 (ucast (hdr_priority h)) OR
                            ucast (hdr_extension_present h))]))
      | _ \<Rightarrow> (MCL_WIRE_ERR_INVALID_ARGUMENT, out))"

definition mcl_wire_header_decode ::
    "u8 list ptr \<Rightarrow> mcl_wire_header ptr \<Rightarrow> mcl_wire_status \<times> mcl_wire_header ptr" where
  "mcl_wire_header_decode inp header =
     (case (inp, header) of
        (Some bs, Some h) \<Rightarrow>
          (MCL_WIRE_OK, Some
            \<lparr>hdr_major_version = drop_bit 4 (bs ! 0),
             hdr_category = bs ! 0 AND 0x0f,
             hdr_opcode = drop_bit 3 (bs ! 1),
             hdr_priority = drop_bit 1 (bs ! 1) AND 0x03,
             hdr_extension_present = bs ! 1 AND 0x01\<rparr>)
      | _ \<Rightarrow> (MCL_WIRE_ERR_INVALID_ARGUMENT, header))"

section \<open>Kinds, codes, majors and sizes\<close>

definition mcl_kind_to_code :: "mcl_wire_kind \<Rightarrow> u8 \<times> u8" where
  "mcl_kind_to_code kind =
     (if kind = MCL_WIRE_KIND_PRESENCE then (0, 0)
      else if kind = MCL_WIRE_KIND_HAZARD then (3, 1)
      else if kind = MCL_WIRE_KIND_REQUEST then (5, 1)
      else if kind = MCL_WIRE_KIND_AUTHORITY_CLAIM then (1, 1)
      else if kind = MCL_WIRE_KIND_DEGRADED_STATE then (6, 1)
      else if kind = MCL_WIRE_KIND_TRANSPORT_OFFER then (8, 0)
      else if kind = MCL_WIRE_KIND_TRANSPORT_ACCEPT then (8, 1)
      else (0xff, 0xff))"

definition mcl_code_to_kind ::
    "u8 \<Rightarrow> u8 \<Rightarrow> mcl_wire_kind ptr \<Rightarrow> mcl_wire_status \<times> mcl_wire_kind ptr" where
  "mcl_code_to_kind category opcode kind =
     (if kind = None then (MCL_WIRE_ERR_INVALID_ARGUMENT, kind)
      else if category = 0 \<and> opcode = 0 then (MCL_WIRE_OK, Some MCL_WIRE_KIND_PRESENCE)
      else if category = 3 \<and> opcode = 1 then (MCL_WIRE_OK, Some MCL_WIRE_KIND_HAZARD)
      else if category = 5 \<and> opcode = 1 then (MCL_WIRE_OK, Some MCL_WIRE_KIND_REQUEST)
      else if category = 1 \<and> opcode = 1 then (MCL_WIRE_OK, Some MCL_WIRE_KIND_AUTHORITY_CLAIM)
      else if category = 6 \<and> opcode = 1 then (MCL_WIRE_OK, Some MCL_WIRE_KIND_DEGRADED_STATE)
      else if category = 8 \<and> opcode = 0 then (MCL_WIRE_OK, Some MCL_WIRE_KIND_TRANSPORT_OFFER)
      else if category = 8 \<and> opcode = 1 then (MCL_WIRE_OK, Some MCL_WIRE_KIND_TRANSPORT_ACCEPT)
      else (MCL_WIRE_ERR_UNSUPPORTED_SEMANTIC, kind))"

definition mcl_wire_kind_allowed_at_major :: "u8 \<Rightarrow> mcl_wire_kind \<Rightarrow> int" where
  "mcl_wire_kind_allowed_at_major major kind =
     (if major = MCL_WIRE_EXPERIMENTAL_MAJOR
      then (if kind \<le> MCL_WIRE_KIND_TRANSPORT_ACCEPT then 1 else 0)
      else if major = MCL_WIRE_STABLE_MAJOR
      then (if kind \<in> {MCL_WIRE_KIND_PRESENCE, MCL_WIRE_KIND_TRANSPORT_OFFER,
                       MCL_WIRE_KIND_TRANSPORT_ACCEPT} then 1
            else if kind \<in> {MCL_WIRE_KIND_HAZARD, MCL_WIRE_KIND_REQUEST,
                            MCL_WIRE_KIND_AUTHORITY_CLAIM, MCL_WIRE_KIND_DEGRADED_STATE} then 0
            else 0)
      else 0)"

definition mcl_wire_tier0_encoded_size :: "mcl_wire_kind \<Rightarrow> nat" where
  "mcl_wire_tier0_encoded_size kind =
     (if kind = MCL_WIRE_KIND_PRESENCE then 11
      else if kind = MCL_WIRE_KIND_HAZARD then 15
      else if kind = MCL_WIRE_KIND_REQUEST then 17
      else if kind = MCL_WIRE_KIND_AUTHORITY_CLAIM then 14
      else if kind = MCL_WIRE_KIND_DEGRADED_STATE then 10
      else if kind = MCL_WIRE_KIND_TRANSPORT_OFFER then 17
      else if kind = MCL_WIRE_KIND_TRANSPORT_ACCEPT then 16
      else 0)"

definition mcl_wire_tier0_encoded_size_at_major :: "u8 \<Rightarrow> mcl_wire_kind \<Rightarrow> nat" where
  "mcl_wire_tier0_encoded_size_at_major major kind =
     (if mcl_wire_kind_allowed_at_major major kind = 0 then 0
      else if major = MCL_WIRE_STABLE_MAJOR \<and> kind = MCL_WIRE_KIND_PRESENCE then 10
      else mcl_wire_tier0_encoded_size kind)"

section \<open>Facts about the header\<close>

definition header_in_range :: "mcl_wire_header \<Rightarrow> bool" where
  "header_in_range h \<longleftrightarrow>
     hdr_major_version h \<le> 15 \<and> hdr_category h \<le> 15 \<and> hdr_opcode h \<le> 31 \<and>
     hdr_priority h \<le> 3 \<and> hdr_extension_present h \<le> 1"

text \<open>The two header bytes of a header in range, and the header two bytes stand for.\<close>

definition header_bytes :: "mcl_wire_header \<Rightarrow> u8 list" where
  "header_bytes h =
     [ucast (push_bit 4 (ucast (hdr_major_version h) :: s32) OR ucast (hdr_category h)),
      ucast (push_bit 3 (ucast (hdr_opcode h) :: s32) OR push_bit 1 (ucast (hdr_priority h)) OR
             ucast (hdr_extension_present h))]"

definition header_of :: "u8 \<Rightarrow> u8 \<Rightarrow> mcl_wire_header" where
  "header_of b0 b1 =
     \<lparr>hdr_major_version = drop_bit 4 b0, hdr_category = b0 AND 0x0f, hdr_opcode = drop_bit 3 b1,
      hdr_priority = drop_bit 1 b1 AND 0x03, hdr_extension_present = b1 AND 0x01\<rparr>"

lemma and_low_mask [wire_bits]:
  "(b::u8) AND 0x0f = take_bit 4 b" "b AND 0x03 = take_bit 2 b" "b AND 0x01 = take_bit 1 b"
  "b AND 0x7f = take_bit 7 b"
  by (simp_all add: take_bit_eq_mask mask_eq_exp_minus_1)

lemma le_low_mask:
  "(v::u8) \<le> 15 \<longleftrightarrow> take_bit 4 v = v" "v \<le> 31 \<longleftrightarrow> take_bit 5 v = v"
  "v \<le> 3 \<longleftrightarrow> take_bit 2 v = v" "v \<le> 1 \<longleftrightarrow> take_bit 1 v = v"
proof -
  have le: "v \<le> w \<longleftrightarrow> v < w + 1" if "w < 31" for w :: u8
    using that by (simp add: word_less_nat_alt word_le_nat_alt unat_word_ariths less_Suc_eq_le)
  show "v \<le> 15 \<longleftrightarrow> take_bit 4 v = v" "v \<le> 3 \<longleftrightarrow> take_bit 2 v = v" "v \<le> 1 \<longleftrightarrow> take_bit 1 v = v"
    using less_exp_iff_take_bit [of 4 v] less_exp_iff_take_bit [of 2 v]
      less_exp_iff_take_bit [of 1 v] by (simp_all add: le)
  show "v \<le> 31 \<longleftrightarrow> take_bit 5 v = v"
    using less_exp_iff_take_bit [of 5 v] by (simp add: word_less_nat_alt word_le_nat_alt) linarith
qed

lemma header_of_header_bytes:
  assumes "header_in_range h"
  shows "header_of (header_bytes h ! 0) (header_bytes h ! 1) = h"
proof -
  note r = assms [unfolded header_in_range_def le_low_mask]
  note b = r [THEN conjunct1, THEN in_range_bits]
    r [THEN conjunct2, THEN conjunct1, THEN in_range_bits]
    r [THEN conjunct2, THEN conjunct2, THEN conjunct1, THEN in_range_bits]
    r [THEN conjunct2, THEN conjunct2, THEN conjunct2, THEN conjunct1, THEN in_range_bits]
    r [THEN conjunct2, THEN conjunct2, THEN conjunct2, THEN conjunct2, THEN in_range_bits]
  let ?b0 = "ucast (push_bit 4 (ucast (hdr_major_version h) :: s32) OR ucast (hdr_category h)) :: u8"
  let ?b1 = "ucast (push_bit 3 (ucast (hdr_opcode h) :: s32) OR push_bit 1 (ucast (hdr_priority h)) OR
             ucast (hdr_extension_present h)) :: u8"
  have "drop_bit 4 ?b0 = hdr_major_version h"
    by (rule bit_eqI) (simp only: word_bits_only, auto dest: b)
  moreover have "take_bit 4 ?b0 = hdr_category h"
    by (rule bit_eqI) (simp only: word_bits_only, auto dest: b)
  moreover have "drop_bit 3 ?b1 = hdr_opcode h"
    by (rule bit_eqI) (simp only: word_bits_only, auto dest: b)
  moreover have "take_bit 2 (drop_bit 1 ?b1) = hdr_priority h"
    by (rule bit_eqI) (simp only: word_bits_only, auto dest: b)
  moreover have "take_bit 1 ?b1 = hdr_extension_present h"
    by (rule bit_eqI) (simp only: word_bits_only, auto dest: b)
  ultimately show ?thesis
    by (simp only: header_of_def header_bytes_def and_low_mask nth_Cons_0 nth_Cons_Suc One_nat_def
        mcl_wire_header.surjective) simp
qed

lemma header_bytes_header_of: "header_bytes (header_of b0 b1) = [b0, b1]"
proof -
  have "(ucast (push_bit 4 (ucast (drop_bit 4 b0) :: s32) OR ucast (take_bit 4 b0)) :: u8) = b0"
    by (rule bit_eqI) (simp only: word_bits_only, auto simp: not_le less_Suc_eq)
  moreover have "(ucast (push_bit 3 (ucast (drop_bit 3 b1) :: s32) OR
      push_bit 1 (ucast (take_bit 2 (drop_bit 1 b1))) OR ucast (take_bit 1 b1)) :: u8) = b1"
    (is "?b = _")
  proof (rule bit_eqI)
    show "bit ?b n \<longleftrightarrow> bit b1 n" for n
      by (cases "3 \<le> n"; simp only: word_bits_only;
          auto simp: not_le less_Suc_eq dest: bit_imp_le_length)
  qed
  ultimately show ?thesis
    by (simp only: header_of_def header_bytes_def and_low_mask mcl_wire_header.simps)
qed

lemma header_in_range_header_of: "header_in_range (header_of b0 b1)"
proof -
  have "take_bit 4 (drop_bit 4 b0) = drop_bit 4 b0" "take_bit 5 (drop_bit 3 b1) = drop_bit 3 b1"
    by (rule bit_eqI, simp only: word_bits_only, auto dest: bit_imp_le_length)+
  then show ?thesis
    by (simp only: header_in_range_def header_of_def and_low_mask le_low_mask mcl_wire_header.simps
        take_bit_take_bit min.idem simp_thms)
qed

lemma mcl_wire_header_encode_result:
  assumes "2 \<le> length bs"
  shows "mcl_wire_header_encode (Some h) (Some bs) =
     (if header_in_range h then (MCL_WIRE_OK, Some (header_bytes h @ drop 2 bs))
      else (MCL_WIRE_ERR_RANGE, Some bs))"
proof -
  obtain b0 b1 rest where "bs = b0 # b1 # rest"
    using assms by (cases bs; cases "tl bs") auto
  then show ?thesis
    by (auto simp: mcl_wire_header_encode_def header_in_range_def header_bytes_def not_le)
qed

lemma mcl_wire_header_decode_result [simp]:
  "mcl_wire_header_decode (Some bs) (Some h) = (MCL_WIRE_OK, Some (header_of (bs ! 0) (bs ! 1)))"
  by (simp add: mcl_wire_header_decode_def header_of_def)

section \<open>Facts about kinds, codes and sizes\<close>

definition kind_carried :: "u8 \<Rightarrow> mcl_wire_kind \<Rightarrow> bool" where
  "kind_carried major kind \<longleftrightarrow> mcl_wire_kind_allowed_at_major major kind \<noteq> 0"

lemma kind_le_six:
  "(kind::u8) \<le> 6 \<longleftrightarrow> kind \<in> {0, 1, 2, 3, 4, 5, 6}"
  by (auto simp: word_unat_eq_iff word_le_nat_alt)

lemma kind_carried_cases:
  "kind_carried major kind \<longleftrightarrow>
     major = 0 \<and> kind \<in> {0, 1, 2, 3, 4, 5, 6} \<or> major = 1 \<and> kind \<in> {0, 5, 6}"
  by (auto simp: kind_carried_def mcl_wire_kind_allowed_at_major_def kind_le_six)

lemma kind_carried_small: "kind_carried major kind \<Longrightarrow> kind \<in> {0, 1, 2, 3, 4, 5, 6}"
  by (auto simp: kind_carried_cases)

lemma encoded_size_at_major_pos:
  "0 < mcl_wire_tier0_encoded_size_at_major major kind \<longleftrightarrow> kind_carried major kind"
proof (cases "kind_carried major kind")
  case True
  then show ?thesis
    using kind_carried_small [OF True]
    by (auto simp: mcl_wire_tier0_encoded_size_at_major_def kind_carried_def
        mcl_wire_tier0_encoded_size_def)
qed (simp add: mcl_wire_tier0_encoded_size_at_major_def kind_carried_def)

lemma code_to_kind_to_code:
  assumes "kind \<in> {0, 1, 2, 3, 4, 5, 6}"
  shows "mcl_code_to_kind (fst (mcl_kind_to_code kind)) (snd (mcl_kind_to_code kind)) (Some k) =
     (MCL_WIRE_OK, Some kind)"
  using assms by (auto simp: mcl_kind_to_code_def mcl_code_to_kind_def)

lemma kind_to_code_to_kind:
  assumes "mcl_code_to_kind category opcode (Some k) = (MCL_WIRE_OK, Some kind)"
  shows "mcl_kind_to_code kind = (category, opcode) \<and> kind \<in> {0, 1, 2, 3, 4, 5, 6}"
  using assms by (auto simp: mcl_kind_to_code_def mcl_code_to_kind_def split: if_splits)

lemma kind_to_code_in_range:
  assumes "kind \<in> {0, 1, 2, 3, 4, 5, 6}"
  shows "fst (mcl_kind_to_code kind) \<le> 15" and "snd (mcl_kind_to_code kind) \<le> 31"
  using assms by (auto simp: mcl_kind_to_code_def)

lemma mcl_code_to_kind_cases:
  "mcl_code_to_kind category opcode (Some k) = (MCL_WIRE_ERR_UNSUPPORTED_SEMANTIC, Some k) \<or>
   (\<exists>kind. mcl_code_to_kind category opcode (Some k) = (MCL_WIRE_OK, Some kind))"
  by (auto simp: mcl_code_to_kind_def)

lemma encoded_size_bounds:
  "kind_carried major kind \<Longrightarrow>
     10 \<le> mcl_wire_tier0_encoded_size_at_major major kind \<and>
     mcl_wire_tier0_encoded_size_at_major major kind \<le> 17"
  by (auto simp: mcl_wire_tier0_encoded_size_at_major_def mcl_wire_tier0_encoded_size_def
      kind_carried_cases mcl_wire_kind_allowed_at_major_def)

end
