(* ===== verification/Wire_Field_Spec.thy ===== *)
theory Wire_Field_Spec
  imports Wire_Field Wire_Header
begin

text \<open>
  The promises of the lowest layer: what writing and reading a bit field does to a buffer, that a
  signed field survives the trip through its two's complement, when padding is accepted, and that
  the common header and the code points of the kinds are bijections.
\<close>

unbundle bit_operations_syntax

section \<open>Bit fields\<close>

definition write_u_verdict :: "u32 \<Rightarrow> nat \<Rightarrow> mcl_bit_writer \<Rightarrow> mcl_wire_status" where
  "write_u_verdict v n w =
     (if 32 < n then MCL_WIRE_ERR_INVALID_ARGUMENT
      else if 2 ^ n \<le> unat v then MCL_WIRE_ERR_RANGE
      else if wr_capacity_bits w < wr_position w + n then MCL_WIRE_ERR_BUFFER_TOO_SMALL
      else MCL_WIRE_OK)"

lemma fits_u_unat:
  assumes "n \<le> 32"
  shows "fits_u n v \<longleftrightarrow> unat v < 2 ^ n"
proof -
  have "fits_u n v \<longleftrightarrow> unat (take_bit n v) = unat v" by (simp add: fits_u_def word_unat_eq_iff)
  also have "\<dots> \<longleftrightarrow> unat v < 2 ^ n" by (simp add: unsigned_take_bit_eq take_bit_nat_eq_self_iff)
  finally show ?thesis .
qed

text \<open>
  Writing an unsigned field, for every width, value and writer whose unwritten bits are zero: the
  bits of the value, most significant first, replace exactly the next \<open>n\<close> bits of the buffer, the
  position moves by \<open>n\<close>, and a refused call changes nothing. A value that needs more than \<open>n\<close> bits is
  refused before the room is looked at.
\<close>

theorem write_u_outcome:
  assumes "writer_ok w"
  shows "\<exists>w'. mcl_write_u v n (Some w) = (write_u_verdict v n w, Some w') \<and>
     (if write_u_verdict v n w = MCL_WIRE_OK
      then writer_ok w' \<and> wr_position w' = wr_position w + n \<and> wr_capacity_bits w' = wr_capacity_bits w \<and>
        bits_of (wr_buffer w') = take (wr_position w) (bits_of (wr_buffer w)) @ to_bits n v @
          drop (wr_position w + n) (bits_of (wr_buffer w))
      else w' = w)"
proof (cases "n \<le> 32 \<and> unat v < 2 ^ n \<and> wr_position w + n \<le> wr_capacity_bits w")
  case True
  then have n: "n \<le> 32" and fit: "fits_u n v" and room: "wr_position w + n \<le> wr_capacity_bits w"
    using fits_u_unat [of n v] by auto
  have "mcl_write_u v n (Some w) = (MCL_WIRE_OK, Some (emit (to_bits n v) w))"
    using uf.put_fits [OF n fit room] .
  moreover have "write_u_verdict v n w = MCL_WIRE_OK"
    using True by (simp add: write_u_verdict_def)
  ultimately show ?thesis
    using bits_of_emit [OF assms, of "to_bits n v"] writer_ok_emit [OF assms, of "to_bits n v"] room by simp
next
  case False
  have "mcl_write_u v n (Some w) = (write_u_verdict v n w, Some w)"
  proof (cases "n \<le> 32 \<and> fits_u n v")
    case True
    then show ?thesis
      using False mcl_write_u_guard [of n v] fits_u_unat [of n v]
      by (auto simp: mcl_write_u_def write_u_verdict_def)
  next
    case misfit: False
    then show ?thesis
      using uf.put_misfit [of n v w] fits_u_unat [of n v]
      by (cases "n \<le> 32") (auto simp: mcl_write_u_def write_u_verdict_def)
  qed
  moreover have "write_u_verdict v n w \<noteq> MCL_WIRE_OK"
    using False by (auto simp: write_u_verdict_def)
  ultimately show ?thesis by simp
qed

text \<open>
  C28: A signed field of \<open>n\<close> bits holds exactly the integers from \<open>- (2 ^ (n - 1))\<close> to
  \<open>2 ^ (n - 1) - 1\<close>: each of them is written as its two's complement and read back unchanged from the
  position it was written to, and every other value is refused with the writer untouched.
\<close>

theorem signed_field_round_trip:
  assumes "writer_ok w" and "0 < n" and "n < 32" and "wr_position w + n \<le> wr_capacity_bits w"
  shows "if - (2 ^ (n - 1)) \<le> sint v \<and> sint v < 2 ^ (n - 1)
     then \<exists>w'. mcl_write_s v n (Some w) = (MCL_WIRE_OK, Some w') \<and> wr_position w' = wr_position w + n \<and>
       mcl_read_s n (Some \<lparr>rd_buffer = wr_buffer w', rd_size_bits = wr_position w',
                           rd_position = wr_position w\<rparr>) (Some x) =
         (MCL_WIRE_OK, Some \<lparr>rd_buffer = wr_buffer w', rd_size_bits = wr_position w',
                             rd_position = wr_position w'\<rparr>, Some v)
     else mcl_write_s v n (Some w) = (MCL_WIRE_ERR_RANGE, Some w)"
proof (cases "fits_s n v")
  case True
  let ?w = "emit (to_bits n v) w"
  let ?r = "\<lparr>rd_buffer = wr_buffer ?w, rd_size_bits = wr_position ?w, rd_position = wr_position w\<rparr>"
  have n: "0 < n \<and> n < 32" using assms(2,3) by simp
  have put: "mcl_write_s v n (Some w) = (MCL_WIRE_OK, Some ?w)"
    using sf.put_fits [OF n True assms(4)] .
  have ok: "reader_ok ?r"
    using assms(1,4) by (auto simp: reader_ok_def writer_ok_def)
  have "wr_position w \<le> 8 * length (wr_buffer w)" using assms(1) by (auto simp: writer_ok_def)
  then have rem: "remaining ?r = to_bits n v @ []"
    using bits_of_emit [OF assms(1), of "to_bits n v"] assms(4) by (simp add: remaining_def)
  from sf.get_put_roundtrip [OF n True ok rem, of x] put True show ?thesis
    by (auto simp: fits_s_def advance_def)
next
  case False
  then show ?thesis
    using sf.put_misfit [of n v w] assms(2,3) by (auto simp: fits_s_def)
qed

text \<open>
  Padding is accepted exactly when every bit between the reader and the end of the object is zero;
  one bit set anywhere is a noncanonical object.
\<close>

theorem padding_verdict:
  assumes "reader_ok r"
  shows "fst (mcl_require_zero_padding (Some r)) =
     (if \<exists>k. rd_position r \<le> k \<and> k < rd_size_bits r \<and> bits_of (rd_buffer r) ! k
      then MCL_WIRE_ERR_NONCANONICAL else MCL_WIRE_OK)"
proof -
  have "True \<in> set (remaining r) \<longleftrightarrow> (\<exists>k<length (remaining r). remaining r ! k)"
    by (simp add: in_set_conv_nth)
  also have "\<dots> \<longleftrightarrow> (\<exists>k. rd_position r \<le> k \<and> k < rd_size_bits r \<and> bits_of (rd_buffer r) ! k)"
    (is "(\<exists>k<?n. ?P k) \<longleftrightarrow> ?R")
  proof
    assume "\<exists>k<?n. ?P k"
    then obtain k where "k < ?n" "?P k" by blast
    with assms show ?R
      by (intro exI [of _ "rd_position r + k"]) (auto simp: remaining_def reader_ok_def)
  next
    assume ?R
    then obtain k where "rd_position r \<le> k" "k < rd_size_bits r" "bits_of (rd_buffer r) ! k" by blast
    with assms show "\<exists>k<?n. ?P k"
      by (intro exI [of _ "k - rd_position r"]) (auto simp: remaining_def reader_ok_def)
  qed
  finally show ?thesis
    using padding_loop_remaining [OF assms]
    by (auto simp: mcl_require_zero_padding_def split: if_splits)
qed

section \<open>The common header\<close>

text \<open>
  C29: The header encoder accepts exactly the headers whose five fields fit their bits, changes the two
  header bytes and nothing else, and the decoder gives the header back; any other header is refused
  with the buffer untouched.
\<close>

theorem header_round_trip:
  assumes "2 \<le> length bs"
  shows "if hdr_major_version h < 16 \<and> hdr_category h < 16 \<and> hdr_opcode h < 32 \<and>
            hdr_priority h < 4 \<and> hdr_extension_present h < 2
     then \<exists>b0 b1. mcl_wire_header_encode (Some h) (Some bs) = (MCL_WIRE_OK, Some (b0 # b1 # drop 2 bs)) \<and>
            mcl_wire_header_decode (Some (b0 # b1 # drop 2 bs)) (Some h0) = (MCL_WIRE_OK, Some h)
     else mcl_wire_header_encode (Some h) (Some bs) = (MCL_WIRE_ERR_RANGE, Some bs)"
proof -
  have lt: "(v :: u8) < 16 \<longleftrightarrow> v \<le> 15" "v < 32 \<longleftrightarrow> v \<le> 31" "v < 4 \<longleftrightarrow> v \<le> 3" "v < 2 \<longleftrightarrow> v \<le> 1" for v
    by (auto simp: word_less_nat_alt word_le_nat_alt)
  show ?thesis
    using mcl_wire_header_encode_result [OF assms, of h] header_of_header_bytes [of h]
    by (auto simp: lt header_in_range_def header_bytes_def)
qed

text \<open>
  Every two bytes are the header of exactly one value: the decoder never refuses, and encoding
  what it returned gives the same two bytes.
\<close>

theorem header_canonical:
  assumes "2 \<le> length bs" and "2 \<le> length out"
  shows "\<exists>h. mcl_wire_header_decode (Some bs) (Some h0) = (MCL_WIRE_OK, Some h) \<and>
     mcl_wire_header_encode (Some h) (Some out) = (MCL_WIRE_OK, Some (take 2 bs @ drop 2 out))"
proof -
  obtain b0 b1 rest where bs: "bs = b0 # b1 # rest"
    using assms(1) by (cases bs; cases "tl bs") auto
  show ?thesis
    by (simp add: mcl_wire_header_encode_result [OF assms(2)] header_in_range_header_of
        header_bytes_header_of bs numeral_2_eq_2)
qed

text \<open>
  The assignment of category and opcode to the seven kinds is a bijection onto the assigned code
  points: a code point decodes to a kind exactly when that kind encodes to it, and every other code
  point is an unsupported semantic that leaves the caller's kind alone.
\<close>

theorem kind_code_bijection:
  "(mcl_code_to_kind category opcode (Some k0) = (MCL_WIRE_OK, Some kind) \<longleftrightarrow>
      kind \<le> 6 \<and> mcl_kind_to_code kind = (category, opcode)) \<and>
   ((\<forall>kind \<le> 6. mcl_kind_to_code kind \<noteq> (category, opcode)) \<longrightarrow>
      mcl_code_to_kind category opcode (Some k0) = (MCL_WIRE_ERR_UNSUPPORTED_SEMANTIC, Some k0))"
proof (intro conjI impI)
  show "mcl_code_to_kind category opcode (Some k0) = (MCL_WIRE_OK, Some kind) \<longleftrightarrow>
      kind \<le> 6 \<and> mcl_kind_to_code kind = (category, opcode)"
    using kind_to_code_to_kind [of category opcode k0 kind] code_to_kind_to_code [of kind k0]
    by (auto simp: kind_le_six)
next
  assume "\<forall>kind \<le> 6. mcl_kind_to_code kind \<noteq> (category, opcode)"
  then show "mcl_code_to_kind category opcode (Some k0) = (MCL_WIRE_ERR_UNSUPPORTED_SEMANTIC, Some k0)"
    using mcl_code_to_kind_cases [of category opcode k0] kind_to_code_to_kind [of category opcode k0]
    by (auto simp: kind_le_six)
qed

section \<open>The statements at concrete values\<close>

definition sample_writer :: mcl_bit_writer where
  "sample_writer = \<lparr>wr_buffer = [0xA0, 0, 0], wr_capacity_bits = 24, wr_position = 3\<rparr>"

lemma sample_writer_ok: "writer_ok sample_writer"
proof -
  have "bits_of [0xA0, 0, 0] = [True, False, True] @ replicate 21 False" by code_simp
  then have "\<not> bits_of [0xA0, 0, 0] ! k" if "3 \<le> k" "k < 24" for k
    using that by (simp only: nth_append) auto
  then show ?thesis by (simp add: writer_ok_def sample_writer_def)
qed

theorem write_u_outcome_witness:
  "\<exists>w'. mcl_write_u 0x1FF 10 (Some sample_writer) = (MCL_WIRE_OK, Some w') \<and> wr_position w' = 13"
proof -
  have "write_u_verdict 0x1FF 10 sample_writer = MCL_WIRE_OK" by code_simp
  with write_u_outcome [OF sample_writer_ok, of "0x1FF" 10] show ?thesis
    by (auto simp: sample_writer_def)
qed

theorem signed_field_round_trip_witness:
  "\<exists>w'. mcl_write_s (- 2048) 12 (Some sample_writer) = (MCL_WIRE_OK, Some w') \<and> wr_position w' = 15"
  using signed_field_round_trip [OF sample_writer_ok, of 12 "- 2048" 0]
  by (auto simp: sample_writer_def)

theorem padding_verdict_witness:
  "fst (mcl_require_zero_padding (Some \<lparr>rd_buffer = [0xA8], rd_size_bits = 8, rd_position = 3\<rparr>)) =
     MCL_WIRE_ERR_NONCANONICAL"
proof -
  have "bits_of [0xA8] ! 4" by code_simp
  then have "\<exists>k. 3 \<le> k \<and> k < 8 \<and> bits_of [0xA8] ! k" by (intro exI [of _ 4]) simp
  with padding_verdict [of "\<lparr>rd_buffer = [0xA8], rd_size_bits = 8, rd_position = 3\<rparr>"] show ?thesis
    by (simp add: reader_ok_def)
qed

theorem header_round_trip_witness:
  "mcl_wire_header_encode (Some \<lparr>hdr_major_version = 0, hdr_category = 16, hdr_opcode = 0,
     hdr_priority = 0, hdr_extension_present = 0\<rparr>) (Some [7, 8, 9]) = (MCL_WIRE_ERR_RANGE, Some [7, 8, 9])"
  using header_round_trip [of "[7, 8, 9]" "\<lparr>hdr_major_version = 0, hdr_category = 16, hdr_opcode = 0,
     hdr_priority = 0, hdr_extension_present = 0\<rparr>"] by simp

theorem header_canonical_witness:
  "\<exists>h. mcl_wire_header_decode (Some [0x13, 0x0F]) (Some (header_of 0 0)) = (MCL_WIRE_OK, Some h) \<and>
     mcl_wire_header_encode (Some h) (Some [1, 2, 3]) = (MCL_WIRE_OK, Some [0x13, 0x0F, 3])"
  using header_canonical [of "[0x13, 0x0F]" "[1, 2, 3]" "header_of 0 0"] by simp

theorem kind_code_bijection_witness:
  "mcl_code_to_kind 9 9 (Some 5) = (MCL_WIRE_ERR_UNSUPPORTED_SEMANTIC, Some 5)"
proof -
  have "\<forall>kind \<le> 6. mcl_kind_to_code kind \<noteq> (9, 9)" by (auto simp: kind_le_six mcl_kind_to_code_def)
  with kind_code_bijection [of 9 9 5 0] show ?thesis by blast
qed

end
