(* ===== verification/Wire_Codec.thy ===== *)
theory Wire_Codec
  imports Wire_Prelude
begin

text \<open>
  The contract every encoder/decoder pair of the library keeps towards its callers: each value has
  at most one encoding, a decoder recognises exactly the encodings, and it finds the end of an
  encoding by itself, whatever bytes follow. The locale proves what callers rely on: encodings are
  injective and prefix free, a decoder depends on no byte behind what it consumed, and a stream of
  encodings written one after the other has one reading.
\<close>

locale self_delimiting =
  fixes enc :: "'a \<Rightarrow> u8 list option"
    and dec :: "u8 list \<Rightarrow> ('a \<times> nat) option"
  assumes dec_enc: "enc x = Some bs \<Longrightarrow> dec (bs @ rest) = Some (x, length bs)"
    and enc_dec: "dec bs = Some (x, n) \<Longrightarrow> n \<le> length bs \<and> enc x = Some (take n bs)"
    and enc_nonempty: "enc x = Some bs \<Longrightarrow> bs \<noteq> []"
begin

lemma enc_inject: "enc x = Some bs \<Longrightarrow> enc y = Some bs \<Longrightarrow> x = y"
  using dec_enc [of x bs "[]"] dec_enc [of y bs "[]"] by simp

lemma same_start:
  assumes "enc x = Some bs" and "enc y = Some cs" and "bs @ xs = cs @ ys"
  shows "x = y" and "bs = cs" and "xs = ys"
proof -
  have "Some (x, length bs) = Some (y, length cs)"
    using dec_enc [OF assms(1), of xs] dec_enc [OF assms(2), of ys] assms(3) by simp
  then show "x = y" and "bs = cs" and "xs = ys" using assms by (simp_all add: append_eq_append_conv)
qed

lemma prefix_free: "enc x = Some bs \<Longrightarrow> enc y = Some (bs @ zs) \<Longrightarrow> x = y \<and> zs = []"
  using same_start [of x bs y "bs @ zs" zs "[]"] by simp

lemma consumed_pos: "dec bs = Some (x, n) \<Longrightarrow> 0 < n"
  using enc_dec [of bs x n] enc_nonempty [of x "take n bs"] by (cases n) auto

lemma dec_local: "dec bs = Some (x, n) \<Longrightarrow> dec (take n bs @ rest) = Some (x, n)"
  using enc_dec [of bs x n] dec_enc [of x "take n bs" rest] by (simp add: min_absorb2)

lemma dec_truncated:
  assumes "dec bs = Some (x, n)" and "m < n"
  shows "dec (take m bs) = None"
proof (cases "dec (take m bs)")
  case (Some yk)
  obtain y k where yk: "yk = (y, k)" by (cases yk)
  have y: "k \<le> length (take m bs)" "enc y = Some (take k (take m bs))"
    using enc_dec [of "take m bs" y k] Some yk by auto
  then have k: "k \<le> m" "enc y = Some (take k bs)" by (simp_all add: min_absorb1)
  have x: "n \<le> length bs" "enc x = Some (take n bs)" using enc_dec [OF assms(1)] by auto
  have "take k bs @ drop k bs = take n bs @ drop n bs" by simp
  from same_start(2) [OF k(2) x(2) this] have "length (take k bs) = length (take n bs)" by simp
  then show ?thesis using k(1) x(1) assms(2) by simp
qed simp

text \<open>A stream of encodings has one reading.\<close>

lemma stream_unique:
  assumes "list_all2 (\<lambda>x bs. enc x = Some bs) xs bss"
    and "list_all2 (\<lambda>y cs. enc y = Some cs) ys css"
    and "concat bss = concat css"
  shows "xs = ys"
  using assms
proof (induction xs bss arbitrary: ys css rule: list_all2_induct)
  case Nil
  then show ?case using enc_nonempty by (cases ys; cases css) auto
next
  case (Cons x xs bs bss)
  have "bs \<noteq> []" using Cons.hyps(1) enc_nonempty by blast
  then obtain y ys' cs css' where ys: "ys = y # ys'" "css = cs # css'" "enc y = Some cs"
    "list_all2 (\<lambda>y cs. enc y = Some cs) ys' css'"
    using Cons.prems by (cases ys; cases css) auto
  have "bs @ concat bss = cs @ concat css'" using Cons.prems(2) ys by simp
  from same_start [OF Cons.hyps(1) ys(3) this] Cons.IH [OF ys(4)] ys(1) show ?case by simp
qed

end

text \<open>With a bound on the length of an encoding, a fixed buffer is enough for every value.\<close>

locale bounded_codec = self_delimiting enc dec
  for enc :: "'a \<Rightarrow> u8 list option" and dec +
  fixes bound :: nat
  assumes enc_bound: "enc x = Some bs \<Longrightarrow> length bs \<le> bound"
begin

lemma stream_length:
  "list_all2 (\<lambda>x bs. enc x = Some bs) xs bss \<Longrightarrow>
   length xs \<le> length (concat bss) \<and> length (concat bss) \<le> bound * length xs"
proof (induction rule: list_all2_induct)
  case (Cons x xs bs bss)
  have "0 < length bs" using enc_nonempty [OF Cons.hyps(1)] by simp
  with Cons.IH have "Suc (length xs) \<le> length bs + length (concat bss)" by linarith
  moreover have "length bs + length (concat bss) \<le> bound + bound * length xs"
    using enc_bound [OF Cons.hyps(1)] Cons.IH by (intro add_mono) auto
  ultimately show ?case by simp
qed simp

lemma dec_bound: "dec bs = Some (x, n) \<Longrightarrow> n \<le> bound"
  using enc_dec [of bs x n] enc_bound [of x "take n bs"] by auto

end

section \<open>Calls as encoders and decoders\<close>

text \<open>
  The library reports a status, what it wrote and how much of it counts. These two turn the result
  of a call into the view of the contract.
\<close>

definition encoding :: "mcl_wire_status \<times> u8 list ptr \<times> nat ptr \<Rightarrow> u8 list option" where
  "encoding = (\<lambda>(st, out, written). if st = MCL_WIRE_OK then Some (take (the written) (the out)) else None)"

definition decoding :: "mcl_wire_status \<times> 'a ptr \<times> nat ptr \<Rightarrow> ('a \<times> nat) option" where
  "decoding = (\<lambda>(st, x, consumed). if st = MCL_WIRE_OK then Some (the x, the consumed) else None)"

lemma decoding_Some:
  "decoding (st, Some x, Some n) = Some (y, k) \<longleftrightarrow> st = MCL_WIRE_OK \<and> x = y \<and> n = k"
  by (auto simp: decoding_def)

end
