(* ===== verification/Wire_Uvarint.thy ===== *)
theory Wire_Uvarint
  imports Wire_Codec
begin

text \<open>
  The canonical variable-length integers of \<open>src/extension.c\<close>: \<open>mcl_uvarint_size\<close>,
  \<open>mcl_wire_uvarint_encode\<close> and \<open>mcl_wire_uvarint_decode\<close>, against big-endian base-128 digits of a
  natural number.
\<close>

unbundle bit_operations_syntax

section \<open>The functions\<close>

function uvarint_size_loop :: "u32 \<Rightarrow> nat \<Rightarrow> nat" where
  "uvarint_size_loop val sz =
     (if val \<ge> 0x80 then uvarint_size_loop (drop_bit 7 val) (sz + 1) else sz)"
  by pat_completeness auto
termination
  by (relation "measure (\<lambda>(val, _). unat val)")
     (auto simp: drop_bit_eq_div unat_div word_le_nat_alt)

declare uvarint_size_loop.simps [simp del]

definition mcl_uvarint_size :: "u32 \<Rightarrow> nat" where
  "mcl_uvarint_size val = uvarint_size_loop val 1"

text \<open>The \<open>do ... while\<close> loop that takes the value apart, least significant septet first.\<close>

function uvarint_fill :: "u32 \<Rightarrow> u8 list \<Rightarrow> nat \<Rightarrow> u8 list \<times> nat" where
  "uvarint_fill val bytes count =
     (let bytes = bytes[count := ucast (val AND 0x7f)];
          val = drop_bit 7 val;
          count = count + 1
      in if val \<noteq> 0 then uvarint_fill val bytes count else (bytes, count))"
  by pat_completeness auto
termination
proof (relation "measure (\<lambda>(val, _). unat val)")
  fix val :: u32 and bytes :: "u8 list" and count bs v c
  assume "v = drop_bit 7 val" "v \<noteq> 0"
  then have "unat v = unat val div 128" "unat v \<noteq> 0"
    by (simp add: drop_bit_eq_div unat_div, metis unat_eq_zero)
  then have "unat v < unat val" by (cases "unat val") auto
  then show "((v, bs, c), (val, bytes, count)) \<in> measure (\<lambda>(val, _). unat val)" by simp
qed simp

declare uvarint_fill.simps [simp del]

text \<open>\<open>bytes[5]\<close> is not initialised; only the entries the loop has filled are read.\<close>

definition mcl_wire_uvarint_encode ::
    "u32 \<Rightarrow> u8 list ptr \<Rightarrow> nat \<Rightarrow> nat ptr \<Rightarrow> mcl_wire_status \<times> u8 list ptr \<times> nat ptr" where
  "mcl_wire_uvarint_encode val out out_capacity written =
     (case (out, written) of
        (Some bs, Some _) \<Rightarrow>
          let (bytes, count) = uvarint_fill val (replicate 5 0) 0
          in if out_capacity < count then (MCL_WIRE_ERR_BUFFER_TOO_SMALL, out, written)
             else (MCL_WIRE_OK,
                   Some (fold (\<lambda>i out.
                            let src = count - 1 - i;
                                byte = bytes ! src;
                                byte = (if i + 1 < count then byte OR 0x80 else byte)
                            in out[i := byte]) [0..<count] bs),
                   Some count)
      | _ \<Rightarrow> (MCL_WIRE_ERR_INVALID_ARGUMENT, out, written))"

text \<open>The \<open>for\<close> loop of the decoder and what follows it, with value and length when accepted.\<close>

function uvarint_decode_loop ::
    "u8 list \<Rightarrow> nat \<Rightarrow> nat \<Rightarrow> u32 \<Rightarrow> mcl_wire_status \<times> (u32 \<times> nat) option" where
  "uvarint_decode_loop data data_size i result =
     (if i < data_size \<and> i < 5 then
        let byte = data ! i in
        if result > drop_bit 7 0xFFFFFFFF then (MCL_WIRE_ERR_RANGE, None)
        else
          let result = push_bit 7 result OR ucast (byte AND 0x7f) in
          if byte AND 0x80 = 0
          then let len = i + 1 in
               if mcl_uvarint_size result \<noteq> len then (MCL_WIRE_ERR_NONCANONICAL, None)
               else (MCL_WIRE_OK, Some (result, len))
          else uvarint_decode_loop data data_size (i + 1) result
      else if data_size < 5 then (MCL_WIRE_ERR_TRUNCATED, None)
      else (MCL_WIRE_ERR_RANGE, None))"
  by pat_completeness auto
termination
  by (relation "measure (\<lambda>(_, _, i, _). 5 - i)") auto

declare uvarint_decode_loop.simps [simp del]

definition mcl_wire_uvarint_decode ::
    "u8 list ptr \<Rightarrow> nat \<Rightarrow> u32 ptr \<Rightarrow> nat ptr \<Rightarrow> mcl_wire_status \<times> u32 ptr \<times> nat ptr" where
  "mcl_wire_uvarint_decode data data_size val consumed =
     (case (data, val, consumed) of
        (Some bs, Some _, Some _) \<Rightarrow>
          if data_size = 0 then (MCL_WIRE_ERR_TRUNCATED, val, consumed)
          else (case uvarint_decode_loop bs data_size 0 0 of
                  (st, Some (v, len)) \<Rightarrow> (st, Some v, Some len)
                | (st, None) \<Rightarrow> (st, val, consumed))
      | _ \<Rightarrow> (MCL_WIRE_ERR_INVALID_ARGUMENT, val, consumed))"

section \<open>Base-128 digits\<close>

fun uvarint_len :: "nat \<Rightarrow> nat" where
  "uvarint_len v = (if v < 128 then 1 else Suc (uvarint_len (v div 128)))"

declare uvarint_len.simps [simp del]

text \<open>\<open>k\<close> digits of \<open>v\<close>, most significant first, each with the continuation bit.\<close>

primrec cont_septets :: "nat \<Rightarrow> nat \<Rightarrow> u8 list" where
  "cont_septets 0 v = []"
| "cont_septets (Suc k) v = cont_septets k (v div 128) @ [0x80 OR of_nat (v mod 128)]"

definition uvarint_wire :: "u32 \<Rightarrow> u8 list" where
  "uvarint_wire val =
     cont_septets (uvarint_len (unat val) - 1) (unat val div 128) @ [of_nat (unat val mod 128)]"

definition base128 :: "u8 list \<Rightarrow> nat" where
  "base128 bs = foldl (\<lambda>a b. a * 128 + unat b mod 128) 0 bs"

lemma base128_simps [simp]: "base128 [] = 0" "base128 (bs @ [b]) = base128 bs * 128 + unat b mod 128"
  by (simp_all add: base128_def)

lemma uvarint_len_pos [simp]: "0 < uvarint_len v"
  by (subst uvarint_len.simps) simp

lemma uvarint_len_iff: "uvarint_len v = Suc n \<longleftrightarrow> v < 128 ^ Suc n \<and> (n = 0 \<or> 128 ^ n \<le> v)"
proof (induction n arbitrary: v)
  case 0
  then show ?case using uvarint_len_pos [of "v div 128"] by (subst uvarint_len.simps) auto
next
  case (Suc n)
  have "uvarint_len v = Suc (Suc n) \<longleftrightarrow> 128 \<le> v \<and> uvarint_len (v div 128) = Suc n"
    by (subst uvarint_len.simps) auto
  also have "\<dots> \<longleftrightarrow> 128 \<le> v \<and> v div 128 < 128 ^ Suc n \<and> (n = 0 \<or> 128 ^ n \<le> v div 128)"
    by (simp only: Suc)
  also have "\<dots> \<longleftrightarrow> v < 128 ^ Suc (Suc n) \<and> 128 ^ Suc n \<le> v"
  proof -
    have "v div 128 < 128 ^ Suc n \<longleftrightarrow> v < 128 ^ Suc (Suc n)"
      by (subst div_less_iff_less_mult) (simp_all add: mult.commute)
    moreover have "128 ^ n \<le> v div 128 \<longleftrightarrow> 128 ^ Suc n \<le> v"
      by (subst less_eq_div_iff_mult_less_eq) (simp_all add: mult.commute)
    moreover have "128 \<le> (128::nat) ^ Suc n" by simp
    then have "(128::nat) ^ Suc n \<le> v \<Longrightarrow> 128 \<le> v" by (rule order_trans)
    ultimately show ?thesis by (cases n) auto
  qed
  finally show ?case by simp
qed

lemma uvarint_len_bound: "uvarint_len (unat (v::u32)) \<le> 5"
proof -
  obtain m where m: "uvarint_len (unat v) = Suc m"
    using gr0_implies_Suc uvarint_len_pos by blast
  then have lower: "m = 0 \<or> 128 ^ m \<le> unat v" by (simp only: uvarint_len_iff)
  have "m \<le> 4"
  proof (rule ccontr)
    assume "\<not> m \<le> 4"
    then have "(128::nat) ^ 5 \<le> 128 ^ m" by (intro power_increasing) auto
    moreover have "unat v < 2 ^ 32" using unsigned_less [of v] by simp
    ultimately show False using lower by auto
  qed
  with m show ?thesis by simp
qed

lemma length_cont_septets [simp]: "length (cont_septets k v) = k"
  by (induction k arbitrary: v) auto

lemma length_uvarint_wire: "length (uvarint_wire v) = uvarint_len (unat v)"
  by (simp add: uvarint_wire_def)

text \<open>The digits and the number they spell determine each other.\<close>

definition cont :: "u8 \<Rightarrow> bool" where
  "cont b \<longleftrightarrow> b AND 0x80 \<noteq> 0"

lemma cont_iff_bit: "cont b \<longleftrightarrow> bit b 7"
proof -
  have "b AND push_bit 7 1 \<noteq> 0 \<longleftrightarrow> bit b 7" by (simp only: bit_iff_and_push_bit_not_eq_0)
  then show ?thesis by (simp add: cont_def)
qed

lemma unat_low_septet: "unat (b AND 0x7f :: u8) = unat b mod 128"
proof -
  have "b AND mask 7 = take_bit 7 b" by (simp add: take_bit_eq_mask)
  then show ?thesis by (simp add: mask_eq_exp_minus_1 take_bit_eq_mod unat_mod)
qed

lemma cont_septet:
  assumes "m < 128"
  shows "cont (0x80 OR of_nat m)" and "unat (0x80 OR of_nat m :: u8) mod 128 = m"
    and "\<not> cont (of_nat m)" and "unat (of_nat m :: u8) mod 128 = m"
proof -
  have m: "unat (of_nat m :: u8) = m" using assms by (simp add: unsigned_of_nat take_bit_nat_eq_self_iff)
  have low: "take_bit 7 (of_nat m :: u8) = of_nat m"
    using less_exp_iff_take_bit [of 7 "of_nat m :: u8"] assms by (simp add: word_less_nat_alt m)
  have bit: "bit (0x80 :: u8) k \<longleftrightarrow> k = 7" for k
    using bit_exp_word [of 7 k, where 'a = 8] by auto
  show "cont (0x80 OR of_nat m)" by (simp add: cont_iff_bit bit_or_iff bit)
  show "\<not> cont (of_nat m)" using in_range_bits [OF low, of 7] by (auto simp: cont_iff_bit)
  show "unat (of_nat m :: u8) mod 128 = m" using m assms by simp
  have "(0x80 OR of_nat m) AND 0x7f = (of_nat m :: u8)"
  proof -
    have "take_bit 7 (0x80 OR of_nat m) = (of_nat m :: u8)"
      by (rule bit_eqI) (use in_range_bits [OF low] in \<open>auto simp: bit_take_bit_iff bit_or_iff bit\<close>)
    then show ?thesis by (simp add: take_bit_eq_mask mask_eq_exp_minus_1)
  qed
  then show "unat (0x80 OR of_nat m :: u8) mod 128 = m"
    by (metis unat_low_septet m)
qed

lemma septet_cases:
  "b = (if cont b then 0x80 OR of_nat (unat b mod 128) else of_nat (unat b mod 128))"
proof -
  have "unat (of_nat (unat b mod 128) :: u8) = unat (take_bit 7 b)"
    by (simp add: unsigned_of_nat take_bit_nat_eq_self_iff take_bit_eq_mod unat_mod)
  then have "of_nat (unat b mod 128) = take_bit 7 b" by (simp add: word_unat_eq_iff)
  moreover have "b = (if bit b 7 then 0x80 OR take_bit 7 b else take_bit 7 b)"
  proof (rule bit_eqI)
    fix k
    assume "possible_bit TYPE(8 word) k"
    then have "k < 8" by (simp add: possible_bit_word)
    moreover have "bit (0x80 :: u8) k \<longleftrightarrow> k = 7"
      using bit_exp_word [of 7 k, where 'a = 8] by auto
    ultimately show "bit b k \<longleftrightarrow> bit (if bit b 7 then 0x80 OR take_bit 7 b else take_bit 7 b) k"
      by (cases "k = 7") (auto simp: bit_or_iff bit_take_bit_iff)
  qed
  ultimately show ?thesis by (simp only: cont_iff_bit)
qed

lemma base128_cont_septets: "v < 128 ^ k \<Longrightarrow> base128 (cont_septets k v) = v"
proof (induction k arbitrary: v)
  case (Suc k)
  then have "v div 128 < 128 ^ k" by (simp add: div_less_iff_less_mult mult.commute)
  with Suc.IH show ?case by (simp add: cont_septet)
qed simp

lemma cont_septets_all: "b \<in> set (cont_septets k v) \<Longrightarrow> cont b"
  by (induction k arbitrary: v) (auto simp: cont_septet)

lemma cont_septets_base128: "\<forall>b \<in> set bs. cont b \<Longrightarrow> cont_septets (length bs) (base128 bs) = bs"
proof (induction bs rule: rev_induct)
  case (snoc b bs)
  moreover have "(base128 bs * 128 + unat b mod 128) div 128 = base128 bs"
    "(base128 bs * 128 + unat b mod 128) mod 128 = unat b mod 128"
    by (simp_all only: div_mult_self3 mod_mult_self3 mod_mod_trivial)
  ultimately show ?case using septet_cases [of b] by simp
qed simp

lemma base128_less: "base128 bs < 128 ^ length bs"
proof (induction bs rule: rev_induct)
  case (snoc b bs)
  have "unat b mod 128 < 128" by simp
  with snoc show ?case by simp
qed simp

text \<open>
  The bytes the decoder accepts: continuation bits on all but the last, no leading zero digit and
  at most 32 bits of value.
\<close>

lemma uvarint_wire_iff:
  "bs @ [b] = uvarint_wire v \<longleftrightarrow>
     (\<forall>c \<in> set bs. cont c) \<and> \<not> cont b \<and> base128 (bs @ [b]) = unat v \<and>
     uvarint_len (unat v) = length (bs @ [b])"
proof
  assume wire: "bs @ [b] = uvarint_wire v"
  then have bs: "bs = cont_septets (uvarint_len (unat v) - 1) (unat v div 128)"
    and b: "b = of_nat (unat v mod 128)"
    by (simp_all add: uvarint_wire_def)
  obtain n where n: "uvarint_len (unat v) = Suc n" using gr0_implies_Suc uvarint_len_pos by blast
  then have "unat v < 128 ^ Suc n" by (simp only: uvarint_len_iff)
  then have "unat v div 128 < 128 ^ n" by (simp add: div_less_iff_less_mult mult.commute)
  then have "base128 bs = unat v div 128" by (simp add: bs n base128_cont_septets)
  then show "(\<forall>c \<in> set bs. cont c) \<and> \<not> cont b \<and> base128 (bs @ [b]) = unat v \<and>
     uvarint_len (unat v) = length (bs @ [b])"
    using cont_septets_all bs b n cont_septet by auto
next
  assume r: "(\<forall>c \<in> set bs. cont c) \<and> \<not> cont b \<and> base128 (bs @ [b]) = unat v \<and>
     uvarint_len (unat v) = length (bs @ [b])"
  then have v: "unat v = base128 bs * 128 + unat b mod 128" by simp
  then have "unat v div 128 = base128 bs" "unat v mod 128 = unat b mod 128" by simp_all
  with r septet_cases [of b] cont_septets_base128 [of bs] show "bs @ [b] = uvarint_wire v"
    by (simp add: uvarint_wire_def)
qed

section \<open>What the functions compute\<close>

lemma unat_drop_7: "unat (drop_bit 7 (v::u32)) = unat v div 128"
  by (simp add: drop_bit_eq_div unat_div)

lemma uvarint_size_loop_len: "uvarint_size_loop v n = n + uvarint_len (unat v) - 1"
proof (induction v n rule: uvarint_size_loop.induct)
  case (1 v n)
  show ?case
  proof (cases "v \<ge> 0x80")
    case True
    then have "128 \<le> unat v" by (simp add: word_le_nat_alt)
    then have "uvarint_len (unat v) = Suc (uvarint_len (unat v div 128))"
      by (subst uvarint_len.simps) simp
    with 1 [OF True] True show ?thesis
      by (subst uvarint_size_loop.simps) (simp add: unat_drop_7)
  next
    case False
    then have "uvarint_len (unat v) = 1"
      by (subst uvarint_len.simps) (simp add: word_le_nat_alt)
    with False show ?thesis by (subst uvarint_size_loop.simps) simp
  qed
qed

lemma mcl_uvarint_size_len: "mcl_uvarint_size v = uvarint_len (unat v)"
  by (simp add: mcl_uvarint_size_def uvarint_size_loop_len)

text \<open>The septets the encoder collects are the base-128 digits, least significant first.\<close>

lemma low_septet: "(ucast (v AND 0x7f :: u32) :: u8) = of_nat (unat v mod 128)"
proof -
  have "v AND mask 7 = take_bit 7 v" by (simp add: take_bit_eq_mask)
  then have "unat (v AND 0x7f) = unat v mod 128"
    by (simp add: mask_eq_exp_minus_1 take_bit_eq_mod unat_mod)
  then show ?thesis
    by (simp add: word_unat_eq_iff unsigned_ucast_eq unsigned_of_nat)
qed

lemma uvarint_fill_digits:
  "count + uvarint_len (unat v) \<le> length bytes \<Longrightarrow>
   snd (uvarint_fill v bytes count) = count + uvarint_len (unat v) \<and>
   length (fst (uvarint_fill v bytes count)) = length bytes \<and>
   (\<forall>j < length bytes. fst (uvarint_fill v bytes count) ! j =
      (if count \<le> j \<and> j < count + uvarint_len (unat v)
       then of_nat (unat v div 128 ^ (j - count) mod 128) else bytes ! j))"
proof (induction v bytes count rule: uvarint_fill.induct)
  case (1 v bytes count)
  let ?bytes = "bytes[count := of_nat (unat v mod 128)]"
  show ?case
  proof (cases "unat v < 128")
    case True
    then have len: "uvarint_len (unat v) = 1" and "drop_bit 7 v = 0"
      by (subst uvarint_len.simps, simp) (use True in \<open>simp add: word_unat_eq_iff unat_drop_7\<close>)
    then have "uvarint_fill v bytes count = (?bytes, count + 1)"
      by (subst uvarint_fill.simps) (simp add: low_septet)
    with True len "1.prems" show ?thesis by (auto simp: nth_list_update le_less_Suc_eq)
  next
    case False
    then have len: "uvarint_len (unat v) = Suc (uvarint_len (unat v div 128))"
      by (subst uvarint_len.simps) simp
    have nz: "drop_bit 7 v \<noteq> 0" using False by (auto simp: word_unat_eq_iff unat_drop_7)
    have run: "uvarint_fill v bytes count = uvarint_fill (drop_bit 7 v) ?bytes (count + 1)"
      using nz by (subst uvarint_fill.simps) (simp add: low_septet)
    have IH: "snd (uvarint_fill v bytes count) = count + 1 + uvarint_len (unat v div 128)"
      "length (fst (uvarint_fill v bytes count)) = length bytes"
      "\<And>j. j < length bytes \<Longrightarrow> fst (uvarint_fill v bytes count) ! j =
        (if count + 1 \<le> j \<and> j < count + 1 + uvarint_len (unat v div 128)
         then of_nat (unat v div 128 div 128 ^ (j - (count + 1)) mod 128) else ?bytes ! j)"
      using "1.IH" [OF refl refl refl nz] "1.prems" len
      by (simp_all add: run low_septet unat_drop_7)
    have digit: "unat v div 128 div 128 ^ (j - Suc count) = unat v div 128 ^ (j - count)"
      if "Suc count \<le> j" for j
    proof -
      have "j - count = Suc (j - Suc count)" using that by simp
      then show ?thesis by (simp only: power_Suc div_mult2_eq)
    qed
    show ?thesis
      using "1.prems" by (auto simp: IH len digit nth_list_update)
  qed
qed

lemma nth_cont_septets:
  "i < k \<Longrightarrow> cont_septets k v ! i = 0x80 OR of_nat (v div 128 ^ (k - 1 - i) mod 128)"
proof (induction k arbitrary: v)
  case (Suc k)
  show ?case
  proof (cases "i = k")
    case False
    with Suc.prems have i: "i < k" by simp
    then have "k - i = Suc (k - 1 - i)" by simp
    then have "v div 128 div 128 ^ (k - 1 - i) = v div 128 ^ (k - i)"
      by (simp only: power_Suc div_mult2_eq)
    with Suc.IH [OF i, of "v div 128"] i show ?thesis by (simp add: nth_append)
  qed (simp add: nth_append)
qed simp

lemma uvarint_encode_result:
  assumes "cap \<le> length bs"
  shows "mcl_wire_uvarint_encode v (Some bs) cap (Some w) =
     (if cap < mcl_uvarint_size v then (MCL_WIRE_ERR_BUFFER_TOO_SMALL, Some bs, Some w)
      else (MCL_WIRE_OK, Some (uvarint_wire v @ drop (mcl_uvarint_size v) bs),
            Some (mcl_uvarint_size v)))"
proof -
  let ?n = "uvarint_len (unat v)"
  obtain bytes count where fill: "uvarint_fill v (replicate 5 0) 0 = (bytes, count)"
    by (cases "uvarint_fill v (replicate 5 0) 0")
  with uvarint_fill_digits [of 0 v "replicate 5 0"] uvarint_len_bound [of v]
  have count: "count = ?n"
    and digits: "\<And>j. j < ?n \<Longrightarrow> bytes ! j = of_nat (unat v div 128 ^ j mod 128)"
    by auto
  let ?f = "\<lambda>i. if Suc i < ?n then bytes ! (?n - Suc i) OR 0x80 else bytes ! (?n - Suc i)"
  have "map ?f [0..<?n] = uvarint_wire v"
  proof (rule nth_equalityI)
    show "length (map ?f [0..<?n]) = length (uvarint_wire v)"
      by (simp add: length_uvarint_wire)
    fix i
    assume "i < length (map ?f [0..<?n])"
    then have i: "i < ?n" by simp
    show "map ?f [0..<?n] ! i = uvarint_wire v ! i"
    proof (cases "i + 1 < ?n")
      case True
      then have "?n - 1 - i = Suc (?n - 1 - 1 - i)" by simp
      then have "unat v div 128 div 128 ^ (?n - 1 - 1 - i) = unat v div 128 ^ (?n - 1 - i)"
        by (simp only: power_Suc div_mult2_eq)
      moreover have "i < ?n - 1" using True by simp
      ultimately show ?thesis using True i digits [of "?n - 1 - i"]
        by (simp add: uvarint_wire_def nth_append nth_cont_septets or.commute)
    next
      case False
      with i have "i = ?n - 1" by simp
      with digits [of 0] uvarint_len_pos [of "unat v"] show ?thesis
        by (simp add: uvarint_wire_def nth_append)
    qed
  qed
  moreover have "fold (\<lambda>i out. out[i := ?f i]) [0..<?n] bs = map ?f [0..<?n] @ drop ?n bs"
    if "?n \<le> length bs"
    using that by (rule fold_store_bytes)
  ultimately show ?thesis
    using assms by (simp add: mcl_wire_uvarint_encode_def fill Let_def mcl_uvarint_size_len count)
qed

text \<open>
  Where the decoder stops: the number of bytes with a continuation bit at the start of the input,
  of which it looks at no more than five.
\<close>

definition uvarint_end :: "u8 list \<Rightarrow> nat \<Rightarrow> nat" where
  "uvarint_end data n = length (takeWhile cont (take (min n 5) data))"

definition uvarint_result :: "u8 list \<Rightarrow> nat \<Rightarrow> mcl_wire_status \<times> (u32 \<times> nat) option" where
  "uvarint_result data n =
     (let e = uvarint_end data n; v = base128 (take (Suc e) data) in
      if e = min n 5 then (if n < 5 then MCL_WIRE_ERR_TRUNCATED else MCL_WIRE_ERR_RANGE, None)
      else if v \<ge> 2 ^ 32 then (MCL_WIRE_ERR_RANGE, None)
      else if uvarint_len v \<noteq> Suc e then (MCL_WIRE_ERR_NONCANONICAL, None)
      else (MCL_WIRE_OK, Some (of_nat v, Suc e)))"

lemma uvarint_end_le: "n \<le> length data \<Longrightarrow> uvarint_end data n \<le> min n 5"
  using length_takeWhile_le [of cont "take (min n 5) data"] by (simp add: uvarint_end_def)

lemma uvarint_end_split:
  assumes "\<forall>b \<in> set (take i data). cont b" and "i < n" and "i < 5" and "n \<le> length data"
  shows "if cont (data ! i) then i < uvarint_end data n else uvarint_end data n = i"
proof -
  define m where "m = min n 5"
  have m: "i < m" "m \<le> length data" using assms(2-4) by (simp_all add: m_def)
  have "take m data = take i (take m data) @ take m data ! i # drop (Suc i) (take m data)"
    by (rule id_take_nth_drop) (use m in simp)
  also have "take i (take m data) = take i data" using m by (simp add: min_absorb1)
  also have "take m data ! i = data ! i" using m by simp
  finally have eq: "take m data = take i data @ data ! i # drop (Suc i) (take m data)" .
  have tw: "takeWhile cont (take (min n 5) data) =
      take i data @ takeWhile cont (data ! i # drop (Suc i) (take (min n 5) data))"
    unfolding m_def [symmetric]
    by (rule trans [OF arg_cong [OF eq, of "takeWhile cont"]]) (use assms(1) in simp)
  have "length (take i data) = i" using assms by simp
  then have "uvarint_end data n =
      i + length (takeWhile cont (data ! i # drop (Suc i) (take (min n 5) data)))"
    by (simp only: uvarint_end_def tw length_append)
  then show ?thesis by simp
qed

lemma base128_append_ge: "base128 xs \<le> base128 (xs @ ys)"
proof (induction ys rule: rev_induct)
  case (snoc y ys)
  then show ?case by (simp only: append_assoc [symmetric] base128_simps)
qed simp

lemma add_septet:
  assumes "r \<le> drop_bit 7 (0xFFFFFFFF :: u32)"
  shows "unat (push_bit 7 r OR ucast (b AND 0x7f :: u8)) = unat r * 128 + unat b mod 128"
proof -
  let ?s = "ucast (b AND 0x7f :: u8) :: u32"
  have r: "unat r < 33554432" using assms by (simp add: word_le_nat_alt)
  have s: "unat ?s = unat b mod 128"
    by (simp add: unsigned_ucast_eq unat_low_septet take_bit_nat_eq_self_iff)
  have p: "unat (push_bit 7 r) = unat r * 128"
    using r by (simp add: push_bit_eq_mult unat_word_ariths)
  have "unat ?s < 128" using s by simp
  then have "take_bit 7 ?s = ?s"
    using less_exp_iff_take_bit [of 7 ?s] by (simp add: word_less_nat_alt)
  then have "push_bit 7 r AND ?s = 0"
    by (intro bit_eqI) (auto simp only: bit_and_iff bit_push_bit_iff bit_0_eq dest: in_range_bits)
  then have "push_bit 7 r OR ?s = push_bit 7 r + ?s" by (simp add: disjunctive_add_eq_or)
  moreover have "unat (push_bit 7 r + ?s) = unat r * 128 + unat b mod 128"
  proof -
    have "unat b mod 128 < 128" by simp
    then have "unat r * 128 + unat b mod 128 < 4294967296" using r by linarith
    then show ?thesis by (simp only: unat_word_ariths p s) simp
  qed
  ultimately show ?thesis by simp
qed

text \<open>The three ways a round of the decoder's loop ends it: no byte left, a value that does not fit, a
  last byte.\<close>

lemma uvarint_end_all:
  assumes "\<forall>b \<in> set (take i data). cont b" and "i = min n 5" and "n \<le> length data"
  shows "uvarint_end data n = min n 5"
proof -
  have all: "takeWhile cont (take (min n 5) data) = take (min n 5) data"
    using assms by (simp add: takeWhile_eq_all_conv)
  have "min n 5 \<le> length data" using assms(3) by simp
  then show ?thesis unfolding uvarint_end_def all by simp
qed

lemma uvarint_overflow_end:
  assumes "\<forall>b \<in> set (take i data). cont b" and "i < n" and "i < 5" and "n \<le> length data"
    and "2 ^ 25 \<le> base128 (take i data)"
  shows "i = 4 \<and> (uvarint_end data n = 4 \<or> uvarint_end data n = 5) \<and>
     2 ^ 32 \<le> base128 (take (Suc i) data)"
proof -
  have "i = 4"
  proof (rule ccontr)
    assume "i \<noteq> 4"
    then have "(128::nat) ^ i \<le> 128 ^ 3" using assms(3) by (intro power_increasing) auto
    moreover have "base128 (take i data) < 128 ^ i"
      using base128_less [of "take i data"] assms(2,4) by simp
    ultimately show False using assms(5) by simp
  qed
  moreover have "uvarint_end data n = 4 \<or> uvarint_end data n = 5"
    using uvarint_end_split [OF assms(1-4)] \<open>i = 4\<close> uvarint_end_le [OF assms(4)]
    by (auto split: if_splits)
  moreover have "2 ^ 32 \<le> base128 (take (Suc i) data)"
    using assms(2,4,5) by (simp add: take_Suc_conv_app_nth)
  ultimately show ?thesis by simp
qed

lemma uvarint_last_byte:
  assumes "i < n" and "i < 5" and "\<not> drop_bit 7 0xFFFFFFFF < r" and "\<not> cont (data ! i)"
    and "uvarint_end data n = i" and "r' = push_bit 7 r OR ucast (data ! i AND 0x7f)"
    and val: "unat r' = base128 (take (Suc i) data)"
  shows "uvarint_decode_loop data n i r = uvarint_result data n"
proof -
  have "uvarint_decode_loop data n i r =
      (if mcl_uvarint_size r' \<noteq> i + 1 then (MCL_WIRE_ERR_NONCANONICAL, None)
       else (MCL_WIRE_OK, Some (r', i + 1)))"
    using assms(1-4) unfolding assms(6)
    by (subst uvarint_decode_loop.simps) (simp only: Let_def cont_def simp_thms if_True if_False)
  moreover have "unat r' < 2 ^ 32" using unsigned_less [of r'] by simp
  then have "base128 (take (Suc i) data) < 2 ^ 32" by (simp only: val)
  moreover have "of_nat (base128 (take (Suc i) data)) = r'"
    by (simp only: val [symmetric]) simp
  ultimately show ?thesis
    using assms(1,2) by (simp add: uvarint_result_def Let_def assms(5) mcl_uvarint_size_len val)
qed

lemma uvarint_loop_result:
  assumes "\<forall>b \<in> set (take i data). cont b" and "i \<le> min n 5" and "n \<le> length data"
    and "unat r = base128 (take i data)"
  shows "uvarint_decode_loop data n i r = uvarint_result data n"
  using assms
proof (induction data n i r rule: uvarint_decode_loop.induct)
  case (1 data n i r)
  let ?b = "data ! i"
  let ?r = "push_bit 7 r OR ucast (?b AND 0x7f)"
  consider (all) "\<not> (i < n \<and> i < 5)" | (big) "i < n \<and> i < 5" "drop_bit 7 0xFFFFFFFF < r"
    | (last) "i < n \<and> i < 5" "\<not> drop_bit 7 0xFFFFFFFF < r" "\<not> cont ?b"
    | (more) "i < n \<and> i < 5" "\<not> drop_bit 7 0xFFFFFFFF < r" "cont ?b" by blast
  then show ?case
  proof cases
    case all
    then have "i = min n 5" using "1.prems"(2) by auto
    then have "uvarint_end data n = min n 5" by (rule uvarint_end_all [OF "1.prems"(1) _ "1.prems"(3)])
    moreover have "(i < n \<and> i < 5) = False" using all by simp
    ultimately show ?thesis
      by (subst uvarint_decode_loop.simps)
         (simp only: uvarint_result_def Let_def if_False if_True simp_thms, simp)
  next
    case big
    have "2 ^ 25 \<le> base128 (take i data)"
      using big(2) "1.prems"(4) by (simp add: word_less_nat_alt)
    with big show ?thesis
      using uvarint_overflow_end [OF "1.prems"(1) _ _ "1.prems"(3)]
      by (subst uvarint_decode_loop.simps) (auto simp: uvarint_result_def Let_def)
  next
    case last
    moreover have "unat ?r = base128 (take (Suc i) data)"
      using add_septet [of r ?b] last "1.prems"(3,4) by (simp add: take_Suc_conv_app_nth not_less)
    moreover have "uvarint_end data n = i"
      using uvarint_end_split [OF "1.prems"(1) _ _ "1.prems"(3)] last by simp
    ultimately show ?thesis by (intro uvarint_last_byte [OF _ _ _ _ _ refl]) simp_all
  next
    case more
    have "unat ?r = base128 (take (Suc i) data)"
      using add_septet [of r ?b] more "1.prems"(3,4) by (simp add: take_Suc_conv_app_nth not_less)
    moreover have "take (Suc i) data = take i data @ [?b]"
      using more "1.prems"(3) by (simp add: take_Suc_conv_app_nth)
    ultimately have "uvarint_decode_loop data n (i + 1) ?r = uvarint_result data n"
      by (intro "1.IH" [OF more(1) refl _ refl])
        (use more "1.prems" in \<open>auto simp: cont_def not_less\<close>)
    moreover have "uvarint_decode_loop data n i r = uvarint_decode_loop data n (i + 1) ?r"
      using more
      by (subst uvarint_decode_loop.simps) (simp only: Let_def cont_def simp_thms if_True if_False)
    ultimately show ?thesis by simp
  qed
qed

lemma uvarint_decode_result:
  assumes "n \<le> length bs"
  shows "mcl_wire_uvarint_decode (Some bs) n (Some v0) (Some c0) =
     (case uvarint_result bs n of
        (st, Some (v, k)) \<Rightarrow> (st, Some v, Some k)
      | (st, None) \<Rightarrow> (st, Some v0, Some c0))"
proof (cases "n = 0")
  case True
  then show ?thesis
    by (simp add: mcl_wire_uvarint_decode_def uvarint_result_def uvarint_end_def)
next
  case False
  then show ?thesis
    using uvarint_loop_result [of 0 bs n 0] assms by (simp add: mcl_wire_uvarint_decode_def)
qed

lemma uvarint_result_OK_iff:
  assumes "n \<le> length bs"
  shows "uvarint_result bs n = (MCL_WIRE_OK, Some (v, k)) \<longleftrightarrow> k \<le> n \<and> take k bs = uvarint_wire v"
proof
  let ?e = "uvarint_end bs n"
  assume ok: "uvarint_result bs n = (MCL_WIRE_OK, Some (v, k))"
  then have e: "?e < min n 5" "k = Suc ?e" "uvarint_len (base128 (take k bs)) = k"
    "base128 (take k bs) < 2 ^ 32" "v = of_nat (base128 (take k bs))"
    using uvarint_end_le [OF assms] by (auto simp: uvarint_result_def Let_def split: if_splits)
  then have v: "unat v = base128 (take k bs)"
    by (simp add: unsigned_of_nat take_bit_nat_eq_self_iff)
  have prefix: "takeWhile cont (take (min n 5) bs) = take ?e bs"
  proof -
    have "takeWhile cont (take (min n 5) bs) = take ?e (take (min n 5) bs)"
      unfolding uvarint_end_def by (rule takeWhile_eq_take)
    then show ?thesis using e(1) by (simp add: min_absorb1)
  qed
  then have all: "\<forall>b \<in> set (take ?e bs). cont b"
    by (metis set_takeWhileD)
  have "\<not> cont (bs ! ?e)"
    using uvarint_end_split [OF all, of n] e(1) assms by (auto split: if_splits)
  moreover have snoc: "take k bs = take ?e bs @ [bs ! ?e]"
    using e(1,2) assms by (simp add: take_Suc_conv_app_nth)
  ultimately have "take ?e bs @ [bs ! ?e] = uvarint_wire v"
    using all v e assms by (simp add: uvarint_wire_iff)
  then show "k \<le> n \<and> take k bs = uvarint_wire v" using e(1,2) snoc by simp
next
  assume r: "k \<le> n \<and> take k bs = uvarint_wire v"
  then have k: "k = uvarint_len (unat v)"
    using assms by (metis length_take length_uvarint_wire min.absorb2 order_trans)
  obtain e where e: "k = Suc e" using k gr0_implies_Suc uvarint_len_pos by blast
  have bounds: "e < n" "e < 5" using r k e uvarint_len_bound [of v] by auto
  have snoc: "take k bs = take e bs @ [bs ! e]"
    using e bounds assms by (simp add: take_Suc_conv_app_nth)
  with r have wire: "take e bs @ [bs ! e] = uvarint_wire v" by simp
  note wire = this [unfolded uvarint_wire_iff]
  then have all: "\<forall>b \<in> set (take e bs). cont b" and last: "\<not> cont (bs ! e)"
    by blast+
  have val: "base128 (take k bs) = unat v" using wire by (simp only: snoc)
  have "uvarint_end bs n = e"
    using uvarint_end_split [OF all bounds assms] last by simp
  moreover have "unat v < 2 ^ 32" using unsigned_less [of v] by simp
  ultimately show "uvarint_result bs n = (MCL_WIRE_OK, Some (v, k))"
    using bounds k e val by (simp add: uvarint_result_def Let_def)
qed

lemma uvarint_decode_OK_iff:
  assumes "n \<le> length bs"
  shows "mcl_wire_uvarint_decode (Some bs) n (Some v0) (Some c0) = (MCL_WIRE_OK, Some v, Some k) \<longleftrightarrow>
     k \<le> n \<and> take k bs = uvarint_wire v"
proof -
  have "fst (uvarint_result bs n) = MCL_WIRE_OK \<longleftrightarrow> snd (uvarint_result bs n) \<noteq> None"
    by (simp add: uvarint_result_def Let_def)
  then show ?thesis
    by (simp only: uvarint_decode_result [OF assms] uvarint_result_OK_iff [OF assms, symmetric])
       (auto split: prod.splits option.splits)
qed

lemma uvarint_decode_wire:
  assumes "length (uvarint_wire v) \<le> n" and "n \<le> length (uvarint_wire v @ rest)"
  shows "mcl_wire_uvarint_decode (Some (uvarint_wire v @ rest)) n (Some v0) (Some c0) =
           (MCL_WIRE_OK, Some v, Some (length (uvarint_wire v)))"
  using assms by (simp only: uvarint_decode_OK_iff [OF assms(2)]) simp

lemma uvarint_decode_fail:
  assumes "n \<le> length bs"
    and "fst (mcl_wire_uvarint_decode (Some bs) n (Some v0) (Some c0)) \<noteq> MCL_WIRE_OK"
  shows "snd (mcl_wire_uvarint_decode (Some bs) n (Some v0) (Some c0)) = (Some v0, Some c0)"
  using assms by (auto simp: uvarint_decode_result uvarint_result_def Let_def split: if_splits)

section \<open>The contract\<close>

definition uvarint_enc :: "u32 \<Rightarrow> u8 list option" where
  "uvarint_enc v = encoding (mcl_wire_uvarint_encode v (Some (replicate 5 0)) 5 (Some 0))"

definition uvarint_dec :: "u8 list \<Rightarrow> (u32 \<times> nat) option" where
  "uvarint_dec bs = decoding (mcl_wire_uvarint_decode (Some bs) (length bs) (Some 0) (Some 0))"

lemma uvarint_enc_wire: "uvarint_enc v = Some (uvarint_wire v)"
  using uvarint_encode_result [of 5 "replicate 5 0" v 0] uvarint_len_bound [of v]
  by (simp add: uvarint_enc_def encoding_def mcl_uvarint_size_len length_uvarint_wire)

lemma uvarint_dec_iff: "uvarint_dec bs = Some (v, k) \<longleftrightarrow> k \<le> length bs \<and> take k bs = uvarint_wire v"
proof -
  have "uvarint_dec bs = Some (v, k) \<longleftrightarrow> uvarint_result bs (length bs) = (MCL_WIRE_OK, Some (v, k))"
    by (auto simp: uvarint_dec_def uvarint_decode_result decoding_def uvarint_result_def Let_def)
  then show ?thesis by (simp add: uvarint_result_OK_iff)
qed

interpretation uv: bounded_codec uvarint_enc uvarint_dec 5
proof unfold_locales
  fix v bs rest
  assume "uvarint_enc v = Some bs"
  then show "uvarint_dec (bs @ rest) = Some (v, length bs)"
    by (simp add: uvarint_enc_wire uvarint_dec_iff)
next
  fix bs v k
  assume "uvarint_dec bs = Some (v, k)"
  then show "k \<le> length bs \<and> uvarint_enc v = Some (take k bs)"
    by (simp add: uvarint_enc_wire uvarint_dec_iff)
next
  fix v bs
  assume v: "uvarint_enc v = Some bs"
  then have "length bs = uvarint_len (unat v)"
    by (auto simp: uvarint_enc_wire length_uvarint_wire)
  then show "bs \<noteq> []" and "length bs \<le> 5"
    using uvarint_len_pos [of "unat v"] uvarint_len_bound [of v]
    by (metis list.size(3) less_irrefl, simp)
qed

section \<open>Properties\<close>

text \<open>C26: \<open>mcl_wire_uvarint_encode\<close> never needs more than five bytes; it refuses a buffer that is
  too small without touching it, and otherwise writes the value's base-128 digits, most significant
  first with no leading zero digit, and nothing behind them.\<close>

theorem uvarint_encode_digits:
  assumes "cap \<le> length out"
  shows "mcl_uvarint_size v \<le> 5 \<and>
    (if cap < mcl_uvarint_size v
     then mcl_wire_uvarint_encode v (Some out) cap (Some w) = (MCL_WIRE_ERR_BUFFER_TOO_SMALL, Some out, Some w)
     else \<exists>bs b. length (bs @ [b]) = mcl_uvarint_size v \<and>
       mcl_wire_uvarint_encode v (Some out) cap (Some w) =
         (MCL_WIRE_OK, Some ((bs @ [b]) @ drop (length (bs @ [b])) out), Some (length (bs @ [b]))) \<and>
       list_all (\<lambda>c. c AND 0x80 \<noteq> 0) bs \<and> b AND 0x80 = 0 \<and>
       foldl (\<lambda>a c. a * 128 + unat (c AND 0x7f)) 0 (bs @ [b]) = unat v \<and>
       (length (bs @ [b]) = 1 \<or> 128 ^ (length (bs @ [b]) - 1) \<le> unat v))"
proof -
  obtain bs b where wire: "uvarint_wire v = bs @ [b]" by (simp add: uvarint_wire_def)
  have "bs @ [b] = uvarint_wire v" by (simp only: wire)
  note r = this [unfolded uvarint_wire_iff]
  obtain n where n: "uvarint_len (unat v) = Suc n" using gr0_implies_Suc uvarint_len_pos by blast
  then have len: "length bs = n" using r by simp
  have "n = 0 \<or> 128 ^ n \<le> unat v" using n uvarint_len_iff by blast
  moreover have "foldl (\<lambda>a c. a * 128 + unat (c AND 0x7f)) 0 (bs @ [b]) = unat v"
    using r by (simp only: unat_low_septet base128_def)
  moreover have "list_all (\<lambda>c. c AND 0x80 \<noteq> 0) bs" "b AND 0x80 = 0"
    using r by (simp_all add: list_all_iff cont_def)
  ultimately show ?thesis
    using uvarint_encode_result [OF assms, of v w] uvarint_len_bound [of v] n len
    by (auto simp: mcl_uvarint_size_len wire intro!: exI [of _ bs] exI [of _ b])
qed

lemma uvarint_encode_digits_witness:
  "(3::nat) \<le> length [0xAA, 0xBB, 0xCC :: u8] \<and>
   mcl_wire_uvarint_encode 300 (Some [0xAA, 0xBB, 0xCC]) 3 (Some 7) =
     (MCL_WIRE_OK, Some [0x82, 0x2C, 0xCC], Some 2) \<and> mcl_uvarint_size 300 \<le> 5"
proof -
  have "mcl_wire_uvarint_encode 300 (Some [0xAA, 0xBB, 0xCC]) 3 (Some 7) =
      (MCL_WIRE_OK, Some [0x82, 0x2C, 0xCC], Some 2)" by code_simp
  with uvarint_encode_digits [of 3 "[0xAA, 0xBB, 0xCC]" 300 7] show ?thesis by simp
qed

text \<open>C24: What was encoded is decoded again, whatever bytes follow it in the buffer.\<close>

theorem uvarint_round_trip:
  assumes "mcl_wire_uvarint_encode v (Some out) cap (Some w) = (MCL_WIRE_OK, Some out', Some n)"
    and "cap \<le> length out"
  shows "mcl_wire_uvarint_decode (Some out') (length out') (Some v0) (Some c0) =
           (MCL_WIRE_OK, Some v, Some n)"
proof -
  have "out' = uvarint_wire v @ drop n out" "n = length (uvarint_wire v)"
    using assms uvarint_encode_result [OF assms(2), of v w]
    by (auto simp: mcl_uvarint_size_len length_uvarint_wire split: if_splits)
  then show ?thesis using uvarint_decode_wire [of v "length out'" "drop n out"] by simp
qed

lemma uvarint_round_trip_witness:
  "mcl_wire_uvarint_encode 300 (Some [0, 0, 9]) 3 (Some 7) = (MCL_WIRE_OK, Some [0x82, 0x2C, 9], Some 2) \<and>
   mcl_wire_uvarint_decode (Some [0x82, 0x2C, 9]) (length [0x82, 0x2C, 9 :: u8]) (Some 1) (Some 5) =
     (MCL_WIRE_OK, Some 300, Some 2)"
proof -
  have run: "mcl_wire_uvarint_encode 300 (Some [0, 0, 9]) 3 (Some 7) =
      (MCL_WIRE_OK, Some [0x82, 0x2C, 9], Some 2)" by code_simp
  with uvarint_round_trip [OF run, of 1 5] show ?thesis by simp
qed

text \<open>C25: The decoder accepts only the bytes the encoder writes: a value it returns re-encodes to
  exactly the bytes it consumed, so overlong forms and values above 32 bits are refused.\<close>

theorem uvarint_canonical:
  assumes "mcl_wire_uvarint_decode (Some bs) n (Some v0) (Some c0) = (MCL_WIRE_OK, Some v, Some k)"
    and "n \<le> length bs" and "k \<le> length out"
  shows "k \<le> n \<and> mcl_wire_uvarint_encode v (Some out) (length out) (Some w) =
           (MCL_WIRE_OK, Some (take k bs @ drop k out), Some k)"
proof -
  have k: "k \<le> n" "take k bs = uvarint_wire v"
    using assms(1) by (simp_all add: uvarint_decode_OK_iff [OF assms(2)])
  moreover have "length (take k bs) = k" using k(1) assms(2) by simp
  ultimately show ?thesis
    using uvarint_encode_result [of "length out" out v w] assms(3)
    by (simp add: mcl_uvarint_size_len length_uvarint_wire [symmetric])
qed

lemma uvarint_canonical_witness:
  "mcl_wire_uvarint_decode (Some [0x81, 0x00, 0xFF]) 3 (Some 0) (Some 0) = (MCL_WIRE_OK, Some 128, Some 2) \<and>
   mcl_wire_uvarint_encode 128 (Some [7, 7, 7]) (length [7, 7, 7 :: u8]) (Some 0) =
     (MCL_WIRE_OK, Some (take 2 [0x81, 0x00, 0xFF] @ drop 2 [7, 7, 7]), Some 2)"
proof -
  have run: "mcl_wire_uvarint_decode (Some [0x81, 0x00, 0xFF]) 3 (Some 0) (Some 0) =
      (MCL_WIRE_OK, Some 128, Some 2)" by code_simp
  with uvarint_canonical [OF run, of "[7, 7, 7]" 0] show ?thesis by simp
qed

text \<open>The refusals of the decoder, completely: what it returns is determined by the run of bytes
  with a continuation bit at the start of the input. It answers "truncated" only for inputs shorter
  than five bytes that end inside a number, so five bytes are always enough to decide, and a
  refusal leaves the outputs alone.\<close>

theorem uvarint_decode_refusals:
  assumes "n \<le> length bs"
  shows "case mcl_wire_uvarint_decode (Some bs) n (Some v0) (Some c0) of (st, v, c) \<Rightarrow>
      (st = MCL_WIRE_ERR_TRUNCATED \<longleftrightarrow> n < 5 \<and> list_all (\<lambda>b. b AND 0x80 \<noteq> 0) (take n bs)) \<and>
      (st \<noteq> MCL_WIRE_OK \<longrightarrow> v = Some v0 \<and> c = Some c0) \<and>
      st \<in> {MCL_WIRE_OK, MCL_WIRE_ERR_TRUNCATED, MCL_WIRE_ERR_RANGE, MCL_WIRE_ERR_NONCANONICAL}"
proof -
  let ?m = "min n 5"
  have "?m \<le> length bs" using assms by simp
  then have len: "length (take ?m bs) = ?m" by simp
  have "uvarint_end bs n = ?m \<longleftrightarrow> list_all cont (take ?m bs)"
  proof
    assume "list_all cont (take ?m bs)"
    then have "takeWhile cont (take ?m bs) = take ?m bs"
      by (simp add: takeWhile_eq_all_conv list_all_iff)
    then show "uvarint_end bs n = ?m" unfolding uvarint_end_def by (simp only: len)
  next
    assume "uvarint_end bs n = ?m"
    then have "length (takeWhile cont (take ?m bs)) = length (take ?m bs)"
      unfolding uvarint_end_def by (simp only: len)
    then have "takeWhile cont (take ?m bs) = take ?m bs"
      by (metis takeWhile_eq_take take_all order_refl)
    then show "list_all cont (take ?m bs)" by (metis list_all_iff set_takeWhileD)
  qed
  then show ?thesis
    by (auto simp: uvarint_decode_result [OF assms] uvarint_result_def Let_def cont_def [abs_def]
        min_def split: if_splits)
qed

lemma uvarint_decode_refusals_witness:
  "mcl_wire_uvarint_decode (Some [0x80, 0x80]) 2 (Some 3) (Some 4) =
     (MCL_WIRE_ERR_TRUNCATED, Some 3, Some 4)"
  using uvarint_decode_refusals [of 2 "[0x80, 0x80]" 3 4] by (auto split: prod.splits)

end
