(* ===== verification/Wire_Extension.thy ===== *)
theory Wire_Extension
  imports Wire_Uvarint Wire_Codec
begin

text \<open>
  Extension blocks of \<open>src/extension.c\<close>: \<open>mcl_wire_extensions_encode\<close>,
  \<open>mcl_wire_extensions_encoded_size\<close>, \<open>mcl_wire_extension_reader_init\<close> and
  \<open>mcl_wire_extension_reader_next\<close>.
\<close>

unbundle bit_operations_syntax

section \<open>State\<close>

record mcl_wire_extension =
  ext_id :: u32
  ext_critical :: u8
  ext_value :: "u8 list ptr"
  ext_value_size :: nat

record mcl_wire_extension_reader =
  rdx_data :: "u8 list ptr"
  rdx_size :: nat
  rdx_offset :: nat
  rdx_previous_id :: u32
  rdx_has_previous :: u8

abbreviation (input) UINT32_MAX :: u32 where "UINT32_MAX \<equiv> 0xFFFFFFFF"
abbreviation (input) MCL_WIRE_EXTENSION_BLOCK_MAX :: nat where "MCL_WIRE_EXTENSION_BLOCK_MAX \<equiv> 256"

section \<open>Encoding a block\<close>

text \<open>The call \<open>mcl_wire_uvarint_encode(val, out + offset, out_capacity - offset, &field_size)\<close>.\<close>

definition uvarint_encode_at ::
    "u32 \<Rightarrow> u8 list \<Rightarrow> nat \<Rightarrow> nat \<Rightarrow> mcl_wire_status \<times> u8 list \<times> nat" where
  "uvarint_encode_at val out offset out_capacity =
     (case mcl_wire_uvarint_encode val (Some (drop offset out)) (out_capacity - offset) (Some 0) of
        (st, tail, field_size) \<Rightarrow> (st, take offset out @ the tail, the field_size))"

text \<open>
  The loop over the extensions. The result is the status, the buffer (also when an extension is
  refused after others have been written) and the final offset.
\<close>

function extensions_encode_loop ::
    "mcl_wire_extension list \<Rightarrow> nat \<Rightarrow> nat \<Rightarrow> nat \<Rightarrow> nat \<Rightarrow> u32 \<Rightarrow> u8 list \<Rightarrow>
     mcl_wire_status \<times> u8 list \<times> nat" where
  "extensions_encode_loop extensions extension_count out_capacity i offset previous_id out =
     (if i < extension_count then
        let extension = extensions ! i in
        if ext_id extension = 0 \<or> ext_id extension > drop_bit 1 UINT32_MAX \<or>
           ext_critical extension > 1 \<or>
           (ext_value_size extension \<noteq> 0 \<and> ext_value extension = None) \<or>
           ext_value_size extension > unat UINT32_MAX
        then (MCL_WIRE_ERR_RANGE, out, offset)
        else if i \<noteq> 0 \<and> ext_id extension \<le> previous_id
        then (MCL_WIRE_ERR_NONCANONICAL, out, offset)
        else
          let key = push_bit 1 (ext_id extension) OR ucast (ext_critical extension) in
          if offset > out_capacity then (MCL_WIRE_ERR_BUFFER_TOO_SMALL, out, offset)
          else case uvarint_encode_at key out offset out_capacity of
            (st, out, field_size) \<Rightarrow>
              if st \<noteq> MCL_WIRE_OK then (st, out, offset)
              else
                let offset = offset + field_size in
                if offset > out_capacity then (MCL_WIRE_ERR_BUFFER_TOO_SMALL, out, offset)
                else case uvarint_encode_at (of_nat (ext_value_size extension)) out offset out_capacity of
                  (st, out, field_size) \<Rightarrow>
                    if st \<noteq> MCL_WIRE_OK then (st, out, offset)
                    else
                      let offset = offset + field_size in
                      if ext_value_size extension > out_capacity - offset
                      then (MCL_WIRE_ERR_BUFFER_TOO_SMALL, out, offset)
                      else
                        let out = fold (\<lambda>j out. out[offset + j := the (ext_value extension) ! j])
                                    [0..<ext_value_size extension] out
                        in extensions_encode_loop extensions extension_count out_capacity (i + 1)
                             (offset + ext_value_size extension) (ext_id extension) out
      else (MCL_WIRE_OK, out, offset))"
  by pat_completeness auto
termination
  by (relation "measure (\<lambda>(_, extension_count, _, i, _). extension_count - i)") auto

declare extensions_encode_loop.simps [simp del]

definition mcl_wire_extensions_encode ::
    "mcl_wire_extension list ptr \<Rightarrow> nat \<Rightarrow> u8 list ptr \<Rightarrow> nat \<Rightarrow> nat ptr \<Rightarrow>
     mcl_wire_status \<times> u8 list ptr \<times> nat ptr" where
  "mcl_wire_extensions_encode extensions extension_count out out_capacity written =
     (if (extension_count \<noteq> 0 \<and> extensions = None) \<or> out = None \<or> written = None
      then (MCL_WIRE_ERR_INVALID_ARGUMENT, out, written)
      else
        case extensions_encode_loop (the extensions) extension_count out_capacity 0 0 0 (the out) of
          (st, bs, offset) \<Rightarrow> (st, Some bs, if st = MCL_WIRE_OK then Some offset else written))"

section \<open>The size of a block\<close>

function extensions_size_loop ::
    "mcl_wire_extension list \<Rightarrow> nat \<Rightarrow> nat \<Rightarrow> nat \<Rightarrow> u32 \<Rightarrow> mcl_wire_status \<times> nat" where
  "extensions_size_loop extensions extension_count i so_far previous_id =
     (if i < extension_count then
        let extension = extensions ! i in
        if ext_id extension = 0 \<or> ext_id extension > drop_bit 1 UINT32_MAX \<or>
           ext_critical extension > 1 \<or>
           (ext_value_size extension \<noteq> 0 \<and> ext_value extension = None) \<or>
           ext_value_size extension > unat UINT32_MAX
        then (MCL_WIRE_ERR_RANGE, so_far)
        else if i \<noteq> 0 \<and> ext_id extension \<le> previous_id
        then (MCL_WIRE_ERR_NONCANONICAL, so_far)
        else
          let key = push_bit 1 (ext_id extension) OR ucast (ext_critical extension);
              field = mcl_uvarint_size key + mcl_uvarint_size (of_nat (ext_value_size extension))
          in if field > MCL_WIRE_EXTENSION_BLOCK_MAX - so_far then (MCL_WIRE_ERR_RANGE, so_far)
             else
               let so_far = so_far + field in
               if ext_value_size extension > MCL_WIRE_EXTENSION_BLOCK_MAX - so_far
               then (MCL_WIRE_ERR_RANGE, so_far)
               else extensions_size_loop extensions extension_count (i + 1)
                      (so_far + ext_value_size extension) (ext_id extension)
      else (MCL_WIRE_OK, so_far))"
  by pat_completeness auto
termination
  by (relation "measure (\<lambda>(_, extension_count, i, _). extension_count - i)") auto

declare extensions_size_loop.simps [simp del]

definition mcl_wire_extensions_encoded_size ::
    "mcl_wire_extension list ptr \<Rightarrow> nat \<Rightarrow> nat ptr \<Rightarrow> mcl_wire_status \<times> nat ptr" where
  "mcl_wire_extensions_encoded_size extensions extension_count sz =
     (if (extension_count \<noteq> 0 \<and> extensions = None) \<or> sz = None
      then (MCL_WIRE_ERR_INVALID_ARGUMENT, sz)
      else
        case extensions_size_loop (the extensions) extension_count 0 0 0 of
          (st, so_far) \<Rightarrow> (st, if st = MCL_WIRE_OK then Some so_far else sz))"

section \<open>Reading a block\<close>

definition mcl_wire_extension_reader_init ::
    "mcl_wire_extension_reader ptr \<Rightarrow> u8 list ptr \<Rightarrow> nat \<Rightarrow> mcl_wire_extension_reader ptr" where
  "mcl_wire_extension_reader_init reader data data_size =
     (case reader of
        None \<Rightarrow> None
      | Some _ \<Rightarrow> Some \<lparr>rdx_data = data, rdx_size = data_size, rdx_offset = 0,
                       rdx_previous_id = 0, rdx_has_previous = 0\<rparr>)"

text \<open>The call \<open>mcl_wire_uvarint_decode(reader->data + reader->offset, reader->size - reader->offset, ..)\<close>.\<close>

definition reader_uvarint ::
    "mcl_wire_extension_reader \<Rightarrow> mcl_wire_status \<times> u32 ptr \<times> nat ptr" where
  "reader_uvarint r =
     mcl_wire_uvarint_decode (map_option (drop (rdx_offset r)) (rdx_data r))
       (rdx_size r - rdx_offset r) (Some 0) (Some 0)"

definition mcl_wire_extension_reader_next ::
    "mcl_wire_extension_reader ptr \<Rightarrow> mcl_wire_extension ptr \<Rightarrow> u8 ptr \<Rightarrow>
     mcl_wire_status \<times> mcl_wire_extension_reader ptr \<times> mcl_wire_extension ptr \<times> u8 ptr" where
  "mcl_wire_extension_reader_next reader extension has_extension =
     (case (reader, extension, has_extension) of
        (Some r, Some _, Some _) \<Rightarrow>
          if rdx_offset r = rdx_size r then (MCL_WIRE_OK, reader, extension, Some 0)
          else if rdx_data r = None \<or> rdx_offset r > rdx_size r
          then (MCL_WIRE_ERR_TRUNCATED, reader, extension, has_extension)
          else case reader_uvarint r of
            (st, key, consumed) \<Rightarrow>
              if st \<noteq> MCL_WIRE_OK then (st, reader, extension, has_extension)
              else
                let r = r\<lparr>rdx_offset := rdx_offset r + the consumed\<rparr>;
                    id' = drop_bit 1 (the key)
                in if id' = 0
                   then (MCL_WIRE_ERR_NONCANONICAL, Some r, extension, has_extension)
                   else if rdx_has_previous r \<noteq> 0 \<and> id' \<le> rdx_previous_id r
                   then (MCL_WIRE_ERR_NONCANONICAL, Some r, extension, has_extension)
                   else case reader_uvarint r of
                     (st, value_size, consumed) \<Rightarrow>
                       if st \<noteq> MCL_WIRE_OK then (st, Some r, extension, has_extension)
                       else
                         let r = r\<lparr>rdx_offset := rdx_offset r + the consumed\<rparr>;
                             vs = unat (the value_size)
                         in if vs > rdx_size r - rdx_offset r
                            then (MCL_WIRE_ERR_TRUNCATED, Some r, extension, has_extension)
                            else
                              (MCL_WIRE_OK,
                               Some (r\<lparr>rdx_offset := rdx_offset r + vs, rdx_previous_id := id',
                                       rdx_has_previous := 1\<rparr>),
                               Some \<lparr>ext_id = id', ext_critical = ucast (the key AND 1),
                                     ext_value = map_option (drop (rdx_offset r)) (rdx_data r),
                                     ext_value_size = vs\<rparr>,
                               Some 1)
      | _ \<Rightarrow> (MCL_WIRE_ERR_INVALID_ARGUMENT, reader, extension, has_extension))"

end
