(* ===== verification/Wire_Tier0.thy ===== *)
theory Wire_Tier0
  imports Wire_Field Wire_Header
begin

text \<open>
  The Tier-0 objects of \<open>include/mcl/wire.h\<close> and their encoder and decoder in \<open>src/wire.c\<close>:
  \<open>mcl_wire_tier0_encode_at_major\<close>, \<open>mcl_wire_tier0_encode\<close>, \<open>mcl_wire_tier0_decode_body\<close> and
  \<open>mcl_wire_tier0_decode\<close>. This theory holds the definitions; what they guarantee is in
  \<open>Wire_Tier0_Facts\<close>.
\<close>

unbundle bit_operations_syntax

section \<open>Objects\<close>

record mcl_wire_presence =
  presence_machine_class :: u8
  presence_capability_tag :: u32
  presence_ttl :: u8

record mcl_wire_hazard =
  hazard_hazard_class :: u8
  hazard_severity :: u8
  hazard_confidence :: u8
  hazard_x :: s16
  hazard_y :: s16
  hazard_z :: s16
  hazard_radius :: u16
  hazard_ttl :: u8

record mcl_wire_request =
  request_request_class :: u8
  request_target_ref :: u32
  request_x :: s16
  request_y :: s16
  request_radius :: u16
  request_ttl :: u8

record mcl_wire_authority_claim =
  authority_claim_authority_class :: u8
  authority_claim_jurisdiction :: u16
  authority_claim_credential_ref :: u32
  authority_claim_validity :: u8

record mcl_wire_degraded_state =
  degraded_state_affected_capability :: u8
  degraded_state_health :: u8
  degraded_state_severity :: u8
  degraded_state_ttl :: u8

record mcl_wire_transport_offer =
  transport_offer_migration_ref :: u32
  transport_offer_transport_id :: u8
  transport_offer_profile_id :: u8
  transport_offer_endpoint_token :: u32
  transport_offer_validity :: u8

record mcl_wire_transport_accept =
  transport_accept_migration_ref :: u32
  transport_accept_transport_id :: u8
  transport_accept_profile_id :: u8
  transport_accept_session_ref :: u32

text \<open>
  The C union of the seven bodies has one member per kind. The codec only ever accesses the member
  that \<open>kind\<close> selects, so no access reinterprets bytes written through another member, and the
  model keeps the members side by side.
\<close>

record mcl_wire_body =
  body_presence :: mcl_wire_presence
  body_hazard :: mcl_wire_hazard
  body_request :: mcl_wire_request
  body_authority_claim :: mcl_wire_authority_claim
  body_degraded_state :: mcl_wire_degraded_state
  body_transport_offer :: mcl_wire_transport_offer
  body_transport_accept :: mcl_wire_transport_accept

record mcl_wire_tier0 =
  obj_kind :: mcl_wire_kind
  obj_priority :: u8
  obj_source_ref :: u32
  obj_body :: mcl_wire_body

text \<open>What \<open>mcl_zero_bytes(object, sizeof(*object))\<close> leaves.\<close>

definition zero_body :: mcl_wire_body where
  "zero_body =
     \<lparr>body_presence = \<lparr>presence_machine_class = 0, presence_capability_tag = 0, presence_ttl = 0\<rparr>,
      body_hazard = \<lparr>hazard_hazard_class = 0, hazard_severity = 0, hazard_confidence = 0, hazard_x = 0, hazard_y = 0, hazard_z = 0, hazard_radius = 0, hazard_ttl = 0\<rparr>,
      body_request = \<lparr>request_request_class = 0, request_target_ref = 0, request_x = 0, request_y = 0, request_radius = 0, request_ttl = 0\<rparr>,
      body_authority_claim = \<lparr>authority_claim_authority_class = 0, authority_claim_jurisdiction = 0, authority_claim_credential_ref = 0, authority_claim_validity = 0\<rparr>,
      body_degraded_state = \<lparr>degraded_state_affected_capability = 0, degraded_state_health = 0, degraded_state_severity = 0, degraded_state_ttl = 0\<rparr>,
      body_transport_offer = \<lparr>transport_offer_migration_ref = 0, transport_offer_transport_id = 0, transport_offer_profile_id = 0, transport_offer_endpoint_token = 0, transport_offer_validity = 0\<rparr>,
      body_transport_accept = \<lparr>transport_accept_migration_ref = 0, transport_accept_transport_id = 0, transport_accept_profile_id = 0, transport_accept_session_ref = 0\<rparr>\<rparr>"

definition zero_object :: mcl_wire_tier0 where
  "zero_object = \<lparr>obj_kind = 0, obj_priority = 0, obj_source_ref = 0, obj_body = zero_body\<rparr>"

section \<open>Encoding\<close>

abbreviation (input) stmt_done :: "'s stmt" where
  "stmt_done \<equiv> \<lambda>s. (MCL_WIRE_OK, s)"

text \<open>The \<open>switch\<close> of the encoder: the body fields of the object's kind, in wire order.\<close>

definition encode_body :: "u8 \<Rightarrow> mcl_wire_tier0 \<Rightarrow> mcl_bit_writer ptr stmt" where
  "encode_body major object =
     (let body = obj_body object; kind = obj_kind object in
      if kind = MCL_WIRE_KIND_PRESENCE then
        (let b = body_presence body in
         mcl_try (\<lambda>w. if major \<noteq> MCL_WIRE_STABLE_MAJOR
                        then mcl_write_u (ucast (presence_machine_class b)) 8 w
                        else (MCL_WIRE_OK, w)) (
         mcl_try (mcl_write_u (presence_capability_tag b) 24) (
         mcl_try (mcl_write_u (ucast (presence_ttl b)) 8) (
         stmt_done))))
      else if kind = MCL_WIRE_KIND_HAZARD then
        (let b = body_hazard body in
         mcl_try (mcl_write_u (ucast (hazard_hazard_class b)) 8) (
         mcl_try (mcl_write_u (ucast (hazard_severity b)) 3) (
         mcl_try (mcl_write_u (ucast (hazard_confidence b)) 7) (
         mcl_try (mcl_write_s (scast (hazard_x b)) 12) (
         mcl_try (mcl_write_s (scast (hazard_y b)) 12) (
         mcl_try (mcl_write_s (scast (hazard_z b)) 10) (
         mcl_try (mcl_write_u (ucast (hazard_radius b)) 10) (
         mcl_try (mcl_write_u (ucast (hazard_ttl b)) 8) (
         stmt_done)))))))))
      else if kind = MCL_WIRE_KIND_REQUEST then
        (let b = body_request body in
         mcl_try (mcl_write_u (ucast (request_request_class b)) 8) (
         mcl_try (mcl_write_u (request_target_ref b) 32) (
         mcl_try (mcl_write_s (scast (request_x b)) 12) (
         mcl_try (mcl_write_s (scast (request_y b)) 12) (
         mcl_try (mcl_write_u (ucast (request_radius b)) 10) (
         mcl_try (mcl_write_u (ucast (request_ttl b)) 8) (
         stmt_done)))))))
      else if kind = MCL_WIRE_KIND_AUTHORITY_CLAIM then
        (let b = body_authority_claim body in
         mcl_try (mcl_write_u (ucast (authority_claim_authority_class b)) 6) (
         mcl_try (mcl_write_u (ucast (authority_claim_jurisdiction b)) 12) (
         mcl_try (mcl_write_u (authority_claim_credential_ref b) 32) (
         mcl_try (mcl_write_u (ucast (authority_claim_validity b)) 8) (
         stmt_done)))))
      else if kind = MCL_WIRE_KIND_DEGRADED_STATE then
        (let b = body_degraded_state body in
         mcl_try (mcl_write_u (ucast (degraded_state_affected_capability b)) 8) (
         mcl_try (mcl_write_u (ucast (degraded_state_health b)) 7) (
         mcl_try (mcl_write_u (ucast (degraded_state_severity b)) 3) (
         mcl_try (mcl_write_u (ucast (degraded_state_ttl b)) 8) (
         stmt_done)))))
      else if kind = MCL_WIRE_KIND_TRANSPORT_OFFER then
        (let b = body_transport_offer body in
         mcl_try (mcl_write_u (transport_offer_migration_ref b) 32) (
         mcl_try (mcl_write_u (ucast (transport_offer_transport_id b)) 8) (
         mcl_try (mcl_write_u (ucast (transport_offer_profile_id b)) 8) (
         mcl_try (mcl_write_u (transport_offer_endpoint_token b) 32) (
         mcl_try (mcl_write_u (ucast (transport_offer_validity b)) 8) (
         stmt_done))))))
      else if kind = MCL_WIRE_KIND_TRANSPORT_ACCEPT then
        (let b = body_transport_accept body in
         mcl_try (mcl_write_u (transport_accept_migration_ref b) 32) (
         mcl_try (mcl_write_u (ucast (transport_accept_transport_id b)) 8) (
         mcl_try (mcl_write_u (ucast (transport_accept_profile_id b)) 8) (
         mcl_try (mcl_write_u (transport_accept_session_ref b) 32) (
         stmt_done)))))
      else (\<lambda>w. (MCL_WIRE_ERR_UNSUPPORTED_SEMANTIC, w)))"

text \<open>
  \<open>writer.buffer = out\<close> makes the writer's buffer the caller's buffer, so what the writer has stored
  when a field is refused is in \<open>*out\<close> as well; \<open>*written\<close> is set on success only.
\<close>

definition mcl_wire_tier0_encode_at_major ::
    "u8 \<Rightarrow> mcl_wire_tier0 ptr \<Rightarrow> u8 list ptr \<Rightarrow> nat \<Rightarrow> nat ptr \<Rightarrow>
     mcl_wire_status \<times> u8 list ptr \<times> nat ptr" where
  "mcl_wire_tier0_encode_at_major major object out out_capacity written =
     (case (object, out, written) of
        (Some obj, Some bs, Some _) \<Rightarrow>
          let required = mcl_wire_tier0_encoded_size_at_major major (obj_kind obj) in
          if required = 0 then (MCL_WIRE_ERR_UNSUPPORTED_SEMANTIC, out, written)
          else if out_capacity < required then (MCL_WIRE_ERR_BUFFER_TOO_SMALL, out, written)
          else
            let bs = mcl_zero_bytes bs required;
                (category, opcode) = mcl_kind_to_code (obj_kind obj);
                header = \<lparr>hdr_major_version = major, hdr_category = category, hdr_opcode = opcode,
                          hdr_priority = obj_priority obj, hdr_extension_present = 0\<rparr>
            in case mcl_wire_header_encode (Some header) (Some [0, 0]) of
                 (st, hb) \<Rightarrow>
                   if st \<noteq> MCL_WIRE_OK then (st, Some bs, written)
                   else
                     let bs = bs[0 := the hb ! 0, 1 := the hb ! 1];
                         writer = \<lparr>wr_buffer = bs, wr_capacity_bits = required * 8, wr_position = 16\<rparr>
                     in case mcl_try (mcl_write_u (obj_source_ref obj) 32) (encode_body major obj)
                               (Some writer) of
                          (st, writer') \<Rightarrow>
                            (st, map_option wr_buffer writer',
                             if st = MCL_WIRE_OK then Some required else written)
      | _ \<Rightarrow> (MCL_WIRE_ERR_INVALID_ARGUMENT, out, written))"

definition mcl_wire_tier0_encode ::
    "mcl_wire_tier0 ptr \<Rightarrow> u8 list ptr \<Rightarrow> nat \<Rightarrow> nat ptr \<Rightarrow> mcl_wire_status \<times> u8 list ptr \<times> nat ptr"
  where
  "mcl_wire_tier0_encode object out out_capacity written =
     mcl_wire_tier0_encode_at_major MCL_WIRE_EXPERIMENTAL_MAJOR object out out_capacity written"

section \<open>Decoding\<close>

text \<open>The \<open>switch\<close> of the decoder: each field is read and stored in the object under construction.\<close>

definition decode_fields :: "u8 \<Rightarrow> mcl_wire_kind \<Rightarrow> (mcl_bit_reader ptr \<times> mcl_wire_tier0) stmt" where
  "decode_fields major kind =
     (if kind = MCL_WIRE_KIND_PRESENCE then
        mcl_try (\<lambda>s. if major \<noteq> MCL_WIRE_STABLE_MAJOR
                  then get_into mcl_read_u 8 (\<lambda>v. obj_body_update (body_presence_update (presence_machine_class_update (\<lambda>_. ucast v)))) s
                  else (MCL_WIRE_OK, s)) (
        mcl_try (get_into mcl_read_u 24 (\<lambda>v. obj_body_update (body_presence_update (presence_capability_tag_update (\<lambda>_. v))))) (
        mcl_try (get_into mcl_read_u 8 (\<lambda>v. obj_body_update (body_presence_update (presence_ttl_update (\<lambda>_. ucast v))))) (
        stmt_done)))
      else if kind = MCL_WIRE_KIND_HAZARD then
        mcl_try (get_into mcl_read_u 8 (\<lambda>v. obj_body_update (body_hazard_update (hazard_hazard_class_update (\<lambda>_. ucast v))))) (
        mcl_try (get_into mcl_read_u 3 (\<lambda>v. obj_body_update (body_hazard_update (hazard_severity_update (\<lambda>_. ucast v))))) (
        mcl_try (get_into mcl_read_u 7 (\<lambda>v. obj_body_update (body_hazard_update (hazard_confidence_update (\<lambda>_. ucast v))))) (
        mcl_try (get_into mcl_read_s 12 (\<lambda>v. obj_body_update (body_hazard_update (hazard_x_update (\<lambda>_. ucast v))))) (
        mcl_try (get_into mcl_read_s 12 (\<lambda>v. obj_body_update (body_hazard_update (hazard_y_update (\<lambda>_. ucast v))))) (
        mcl_try (get_into mcl_read_s 10 (\<lambda>v. obj_body_update (body_hazard_update (hazard_z_update (\<lambda>_. ucast v))))) (
        mcl_try (get_into mcl_read_u 10 (\<lambda>v. obj_body_update (body_hazard_update (hazard_radius_update (\<lambda>_. ucast v))))) (
        mcl_try (get_into mcl_read_u 8 (\<lambda>v. obj_body_update (body_hazard_update (hazard_ttl_update (\<lambda>_. ucast v))))) (
        stmt_done))))))))
      else if kind = MCL_WIRE_KIND_REQUEST then
        mcl_try (get_into mcl_read_u 8 (\<lambda>v. obj_body_update (body_request_update (request_request_class_update (\<lambda>_. ucast v))))) (
        mcl_try (get_into mcl_read_u 32 (\<lambda>v. obj_body_update (body_request_update (request_target_ref_update (\<lambda>_. v))))) (
        mcl_try (get_into mcl_read_s 12 (\<lambda>v. obj_body_update (body_request_update (request_x_update (\<lambda>_. ucast v))))) (
        mcl_try (get_into mcl_read_s 12 (\<lambda>v. obj_body_update (body_request_update (request_y_update (\<lambda>_. ucast v))))) (
        mcl_try (get_into mcl_read_u 10 (\<lambda>v. obj_body_update (body_request_update (request_radius_update (\<lambda>_. ucast v))))) (
        mcl_try (get_into mcl_read_u 8 (\<lambda>v. obj_body_update (body_request_update (request_ttl_update (\<lambda>_. ucast v))))) (
        stmt_done))))))
      else if kind = MCL_WIRE_KIND_AUTHORITY_CLAIM then
        mcl_try (get_into mcl_read_u 6 (\<lambda>v. obj_body_update (body_authority_claim_update (authority_claim_authority_class_update (\<lambda>_. ucast v))))) (
        mcl_try (get_into mcl_read_u 12 (\<lambda>v. obj_body_update (body_authority_claim_update (authority_claim_jurisdiction_update (\<lambda>_. ucast v))))) (
        mcl_try (get_into mcl_read_u 32 (\<lambda>v. obj_body_update (body_authority_claim_update (authority_claim_credential_ref_update (\<lambda>_. v))))) (
        mcl_try (get_into mcl_read_u 8 (\<lambda>v. obj_body_update (body_authority_claim_update (authority_claim_validity_update (\<lambda>_. ucast v))))) (
        stmt_done))))
      else if kind = MCL_WIRE_KIND_DEGRADED_STATE then
        mcl_try (get_into mcl_read_u 8 (\<lambda>v. obj_body_update (body_degraded_state_update (degraded_state_affected_capability_update (\<lambda>_. ucast v))))) (
        mcl_try (get_into mcl_read_u 7 (\<lambda>v. obj_body_update (body_degraded_state_update (degraded_state_health_update (\<lambda>_. ucast v))))) (
        mcl_try (get_into mcl_read_u 3 (\<lambda>v. obj_body_update (body_degraded_state_update (degraded_state_severity_update (\<lambda>_. ucast v))))) (
        mcl_try (get_into mcl_read_u 8 (\<lambda>v. obj_body_update (body_degraded_state_update (degraded_state_ttl_update (\<lambda>_. ucast v))))) (
        stmt_done))))
      else if kind = MCL_WIRE_KIND_TRANSPORT_OFFER then
        mcl_try (get_into mcl_read_u 32 (\<lambda>v. obj_body_update (body_transport_offer_update (transport_offer_migration_ref_update (\<lambda>_. v))))) (
        mcl_try (get_into mcl_read_u 8 (\<lambda>v. obj_body_update (body_transport_offer_update (transport_offer_transport_id_update (\<lambda>_. ucast v))))) (
        mcl_try (get_into mcl_read_u 8 (\<lambda>v. obj_body_update (body_transport_offer_update (transport_offer_profile_id_update (\<lambda>_. ucast v))))) (
        mcl_try (get_into mcl_read_u 32 (\<lambda>v. obj_body_update (body_transport_offer_update (transport_offer_endpoint_token_update (\<lambda>_. v))))) (
        mcl_try (get_into mcl_read_u 8 (\<lambda>v. obj_body_update (body_transport_offer_update (transport_offer_validity_update (\<lambda>_. ucast v))))) (
        stmt_done)))))
      else if kind = MCL_WIRE_KIND_TRANSPORT_ACCEPT then
        mcl_try (get_into mcl_read_u 32 (\<lambda>v. obj_body_update (body_transport_accept_update (transport_accept_migration_ref_update (\<lambda>_. v))))) (
        mcl_try (get_into mcl_read_u 8 (\<lambda>v. obj_body_update (body_transport_accept_update (transport_accept_transport_id_update (\<lambda>_. ucast v))))) (
        mcl_try (get_into mcl_read_u 8 (\<lambda>v. obj_body_update (body_transport_accept_update (transport_accept_profile_id_update (\<lambda>_. ucast v))))) (
        mcl_try (get_into mcl_read_u 32 (\<lambda>v. obj_body_update (body_transport_accept_update (transport_accept_session_ref_update (\<lambda>_. v))))) (
        stmt_done))))
      else (\<lambda>s. (MCL_WIRE_ERR_UNSUPPORTED_SEMANTIC, s)))"

definition mcl_wire_tier0_decode_body ::
    "u8 list ptr \<Rightarrow> nat \<Rightarrow> mcl_wire_tier0 ptr \<Rightarrow> nat ptr \<Rightarrow>
     mcl_wire_status \<times> mcl_wire_tier0 ptr \<times> nat ptr" where
  "mcl_wire_tier0_decode_body data data_size object consumed =
     (case (data, object, consumed) of
        (Some bs, Some _, Some _) \<Rightarrow>
          if data_size < MCL_WIRE_COMMON_HEADER_SIZE then (MCL_WIRE_ERR_TRUNCATED, object, consumed)
          else
            case mcl_wire_header_decode data (Some (header_of 0 0)) of
              (st, hp) \<Rightarrow>
                if st \<noteq> MCL_WIRE_OK then (st, object, consumed)
                else
                  let header = the hp; major = hdr_major_version header in
                  if major \<noteq> MCL_WIRE_EXPERIMENTAL_MAJOR \<and> major \<noteq> MCL_WIRE_STABLE_MAJOR
                  then (MCL_WIRE_ERR_UNSUPPORTED_SEMANTIC, object, consumed)
                  else
                    case mcl_code_to_kind (hdr_category header) (hdr_opcode header) (Some 0) of
                      (st, kp) \<Rightarrow>
                        if st \<noteq> MCL_WIRE_OK then (st, object, consumed)
                        else
                          let kind = the kp;
                              required = mcl_wire_tier0_encoded_size_at_major major kind
                          in if required = 0
                             then (MCL_WIRE_ERR_UNSUPPORTED_SEMANTIC, object, consumed)
                             else if data_size < required
                             then (MCL_WIRE_ERR_TRUNCATED, object, consumed)
                             else
                               let obj = zero_object\<lparr>obj_kind := kind,
                                                     obj_priority := hdr_priority header\<rparr>;
                                   reader = \<lparr>rd_buffer = bs, rd_size_bits = required * 8,
                                             rd_position = 16\<rparr>
                               in case mcl_try (get_into mcl_read_u 32 (\<lambda>v. obj_source_ref_update (\<lambda>_. v)))
                                        (mcl_try (decode_fields major kind)
                                          (\<lambda>(r, obj). case mcl_require_zero_padding r of
                                                        (st, r') \<Rightarrow> (st, (r', obj))))
                                        (Some reader, obj) of
                                    (st, (_, obj')) \<Rightarrow>
                                      (st, Some obj',
                                       if st = MCL_WIRE_OK then Some required else consumed)
      | _ \<Rightarrow> (MCL_WIRE_ERR_INVALID_ARGUMENT, object, consumed))"

definition mcl_wire_tier0_decode ::
    "u8 list ptr \<Rightarrow> nat \<Rightarrow> mcl_wire_tier0 ptr \<Rightarrow> nat ptr \<Rightarrow>
     mcl_wire_status \<times> mcl_wire_tier0 ptr \<times> nat ptr" where
  "mcl_wire_tier0_decode data data_size object consumed =
     (if data = None \<or> object = None \<or> consumed = None
      then (MCL_WIRE_ERR_INVALID_ARGUMENT, object, consumed)
      else if data_size < MCL_WIRE_COMMON_HEADER_SIZE
      then (MCL_WIRE_ERR_TRUNCATED, object, consumed)
      else
        case mcl_wire_header_decode data (Some (header_of 0 0)) of
          (st, hp) \<Rightarrow>
            if st \<noteq> MCL_WIRE_OK then (st, object, consumed)
            else if hdr_extension_present (the hp) \<noteq> 0
            then (MCL_WIRE_ERR_UNSUPPORTED_SEMANTIC, object, consumed)
            else mcl_wire_tier0_decode_body data data_size object consumed)"

section \<open>The layout of the bodies\<close>

text \<open>
  The body of a kind as a list of slots: the format of the field on the wire, how its value is read
  from an object, and how a value is stored in one.
\<close>

type_synonym slot =
  "field_format \<times> (mcl_wire_tier0 \<Rightarrow> u32) \<times> (u32 \<Rightarrow> mcl_wire_tier0 \<Rightarrow> mcl_wire_tier0)"

definition tier0_slots :: "u8 \<Rightarrow> mcl_wire_kind \<Rightarrow> slot list" where
  "tier0_slots major kind =
     (if kind = MCL_WIRE_KIND_PRESENCE then
        (if major \<noteq> MCL_WIRE_STABLE_MAJOR
         then [(Unsigned 8, \<lambda>o'. ucast (presence_machine_class (body_presence (obj_body o'))),
          \<lambda>v. obj_body_update (body_presence_update (presence_machine_class_update (\<lambda>_. ucast v))))]
         else []) @
        [(Unsigned 24, \<lambda>o'. presence_capability_tag (body_presence (obj_body o')),
          \<lambda>v. obj_body_update (body_presence_update (presence_capability_tag_update (\<lambda>_. v)))),
         (Unsigned 8, \<lambda>o'. ucast (presence_ttl (body_presence (obj_body o'))),
          \<lambda>v. obj_body_update (body_presence_update (presence_ttl_update (\<lambda>_. ucast v))))]
      else if kind = MCL_WIRE_KIND_HAZARD then
        [(Unsigned 8, \<lambda>o'. ucast (hazard_hazard_class (body_hazard (obj_body o'))),
          \<lambda>v. obj_body_update (body_hazard_update (hazard_hazard_class_update (\<lambda>_. ucast v)))),
         (Unsigned 3, \<lambda>o'. ucast (hazard_severity (body_hazard (obj_body o'))),
          \<lambda>v. obj_body_update (body_hazard_update (hazard_severity_update (\<lambda>_. ucast v)))),
         (Unsigned 7, \<lambda>o'. ucast (hazard_confidence (body_hazard (obj_body o'))),
          \<lambda>v. obj_body_update (body_hazard_update (hazard_confidence_update (\<lambda>_. ucast v)))),
         (Signed 12, \<lambda>o'. scast (hazard_x (body_hazard (obj_body o'))),
          \<lambda>v. obj_body_update (body_hazard_update (hazard_x_update (\<lambda>_. ucast v)))),
         (Signed 12, \<lambda>o'. scast (hazard_y (body_hazard (obj_body o'))),
          \<lambda>v. obj_body_update (body_hazard_update (hazard_y_update (\<lambda>_. ucast v)))),
         (Signed 10, \<lambda>o'. scast (hazard_z (body_hazard (obj_body o'))),
          \<lambda>v. obj_body_update (body_hazard_update (hazard_z_update (\<lambda>_. ucast v)))),
         (Unsigned 10, \<lambda>o'. ucast (hazard_radius (body_hazard (obj_body o'))),
          \<lambda>v. obj_body_update (body_hazard_update (hazard_radius_update (\<lambda>_. ucast v)))),
         (Unsigned 8, \<lambda>o'. ucast (hazard_ttl (body_hazard (obj_body o'))),
          \<lambda>v. obj_body_update (body_hazard_update (hazard_ttl_update (\<lambda>_. ucast v))))]
      else if kind = MCL_WIRE_KIND_REQUEST then
        [(Unsigned 8, \<lambda>o'. ucast (request_request_class (body_request (obj_body o'))),
          \<lambda>v. obj_body_update (body_request_update (request_request_class_update (\<lambda>_. ucast v)))),
         (Unsigned 32, \<lambda>o'. request_target_ref (body_request (obj_body o')),
          \<lambda>v. obj_body_update (body_request_update (request_target_ref_update (\<lambda>_. v)))),
         (Signed 12, \<lambda>o'. scast (request_x (body_request (obj_body o'))),
          \<lambda>v. obj_body_update (body_request_update (request_x_update (\<lambda>_. ucast v)))),
         (Signed 12, \<lambda>o'. scast (request_y (body_request (obj_body o'))),
          \<lambda>v. obj_body_update (body_request_update (request_y_update (\<lambda>_. ucast v)))),
         (Unsigned 10, \<lambda>o'. ucast (request_radius (body_request (obj_body o'))),
          \<lambda>v. obj_body_update (body_request_update (request_radius_update (\<lambda>_. ucast v)))),
         (Unsigned 8, \<lambda>o'. ucast (request_ttl (body_request (obj_body o'))),
          \<lambda>v. obj_body_update (body_request_update (request_ttl_update (\<lambda>_. ucast v))))]
      else if kind = MCL_WIRE_KIND_AUTHORITY_CLAIM then
        [(Unsigned 6, \<lambda>o'. ucast (authority_claim_authority_class (body_authority_claim (obj_body o'))),
          \<lambda>v. obj_body_update (body_authority_claim_update (authority_claim_authority_class_update (\<lambda>_. ucast v)))),
         (Unsigned 12, \<lambda>o'. ucast (authority_claim_jurisdiction (body_authority_claim (obj_body o'))),
          \<lambda>v. obj_body_update (body_authority_claim_update (authority_claim_jurisdiction_update (\<lambda>_. ucast v)))),
         (Unsigned 32, \<lambda>o'. authority_claim_credential_ref (body_authority_claim (obj_body o')),
          \<lambda>v. obj_body_update (body_authority_claim_update (authority_claim_credential_ref_update (\<lambda>_. v)))),
         (Unsigned 8, \<lambda>o'. ucast (authority_claim_validity (body_authority_claim (obj_body o'))),
          \<lambda>v. obj_body_update (body_authority_claim_update (authority_claim_validity_update (\<lambda>_. ucast v))))]
      else if kind = MCL_WIRE_KIND_DEGRADED_STATE then
        [(Unsigned 8, \<lambda>o'. ucast (degraded_state_affected_capability (body_degraded_state (obj_body o'))),
          \<lambda>v. obj_body_update (body_degraded_state_update (degraded_state_affected_capability_update (\<lambda>_. ucast v)))),
         (Unsigned 7, \<lambda>o'. ucast (degraded_state_health (body_degraded_state (obj_body o'))),
          \<lambda>v. obj_body_update (body_degraded_state_update (degraded_state_health_update (\<lambda>_. ucast v)))),
         (Unsigned 3, \<lambda>o'. ucast (degraded_state_severity (body_degraded_state (obj_body o'))),
          \<lambda>v. obj_body_update (body_degraded_state_update (degraded_state_severity_update (\<lambda>_. ucast v)))),
         (Unsigned 8, \<lambda>o'. ucast (degraded_state_ttl (body_degraded_state (obj_body o'))),
          \<lambda>v. obj_body_update (body_degraded_state_update (degraded_state_ttl_update (\<lambda>_. ucast v))))]
      else if kind = MCL_WIRE_KIND_TRANSPORT_OFFER then
        [(Unsigned 32, \<lambda>o'. transport_offer_migration_ref (body_transport_offer (obj_body o')),
          \<lambda>v. obj_body_update (body_transport_offer_update (transport_offer_migration_ref_update (\<lambda>_. v)))),
         (Unsigned 8, \<lambda>o'. ucast (transport_offer_transport_id (body_transport_offer (obj_body o'))),
          \<lambda>v. obj_body_update (body_transport_offer_update (transport_offer_transport_id_update (\<lambda>_. ucast v)))),
         (Unsigned 8, \<lambda>o'. ucast (transport_offer_profile_id (body_transport_offer (obj_body o'))),
          \<lambda>v. obj_body_update (body_transport_offer_update (transport_offer_profile_id_update (\<lambda>_. ucast v)))),
         (Unsigned 32, \<lambda>o'. transport_offer_endpoint_token (body_transport_offer (obj_body o')),
          \<lambda>v. obj_body_update (body_transport_offer_update (transport_offer_endpoint_token_update (\<lambda>_. v)))),
         (Unsigned 8, \<lambda>o'. ucast (transport_offer_validity (body_transport_offer (obj_body o'))),
          \<lambda>v. obj_body_update (body_transport_offer_update (transport_offer_validity_update (\<lambda>_. ucast v))))]
      else if kind = MCL_WIRE_KIND_TRANSPORT_ACCEPT then
        [(Unsigned 32, \<lambda>o'. transport_accept_migration_ref (body_transport_accept (obj_body o')),
          \<lambda>v. obj_body_update (body_transport_accept_update (transport_accept_migration_ref_update (\<lambda>_. v)))),
         (Unsigned 8, \<lambda>o'. ucast (transport_accept_transport_id (body_transport_accept (obj_body o'))),
          \<lambda>v. obj_body_update (body_transport_accept_update (transport_accept_transport_id_update (\<lambda>_. ucast v)))),
         (Unsigned 8, \<lambda>o'. ucast (transport_accept_profile_id (body_transport_accept (obj_body o'))),
          \<lambda>v. obj_body_update (body_transport_accept_update (transport_accept_profile_id_update (\<lambda>_. ucast v)))),
         (Unsigned 32, \<lambda>o'. transport_accept_session_ref (body_transport_accept (obj_body o')),
          \<lambda>v. obj_body_update (body_transport_accept_update (transport_accept_session_ref_update (\<lambda>_. v))))]
      else [])"

end
