(* ===== verification/Wire_Tier0_Ext.thy ===== *)
theory Wire_Tier0_Ext
  imports Wire_Extension Wire_Tier0
begin

text \<open>
  Tier-0 objects with an extension block, from \<open>src/extension.c\<close>: \<open>mcl_wire_tier0_encode_ext\<close>,
  \<open>mcl_wire_tier0_decode_ext\<close> and \<open>mcl_wire_tier0_decode_ext_accept\<close> with the callback of the
  decoder. This theory holds the definitions; what they guarantee is in \<open>Wire_Tier0_Ext_Facts\<close>.
\<close>

unbundle bit_operations_syntax

section \<open>Encoding\<close>

definition mcl_wire_tier0_encode_ext ::
    "mcl_wire_tier0 ptr \<Rightarrow> mcl_wire_extension list ptr \<Rightarrow> nat \<Rightarrow> u8 list ptr \<Rightarrow> nat \<Rightarrow> nat ptr \<Rightarrow>
     mcl_wire_status \<times> u8 list ptr \<times> nat ptr" where
  "mcl_wire_tier0_encode_ext object extensions extension_count out out_capacity written =
     (if object = None \<or> out = None \<or> written = None
      then (MCL_WIRE_ERR_INVALID_ARGUMENT, out, written)
      else if extension_count = 0 then mcl_wire_tier0_encode object out out_capacity written
      else if extensions = None then (MCL_WIRE_ERR_INVALID_ARGUMENT, out, written)
      else case mcl_wire_extensions_encoded_size extensions extension_count (Some 0) of
        (st, block) \<Rightarrow>
          if st \<noteq> MCL_WIRE_OK then (st, out, written)
          else case mcl_wire_tier0_encode object out out_capacity (Some 0) of
            (st, out, body) \<Rightarrow>
              if st \<noteq> MCL_WIRE_OK then (st, out, written)
              else
                let block = the block; body = the body; bs = the out in
                case mcl_wire_uvarint_encode (of_nat block) (Some (drop body bs))
                       (out_capacity - body) (Some 0) of
                  (st, tail, length_size) \<Rightarrow>
                    let bs = take body bs @ the tail in
                    if st \<noteq> MCL_WIRE_OK then (st, Some bs, written)
                    else
                      let start = body + the length_size in
                      case mcl_wire_extensions_encode extensions extension_count
                             (Some (drop start bs)) (out_capacity - body - the length_size) (Some 0) of
                        (st, tail, block_written) \<Rightarrow>
                          let bs = take start bs @ the tail in
                          if st \<noteq> MCL_WIRE_OK then (st, Some bs, written)
                          else if the block_written \<noteq> block then (MCL_WIRE_ERR_RANGE, Some bs, written)
                          else (MCL_WIRE_OK, Some (bs[1 := bs ! 1 OR 0x01]),
                                Some (body + the length_size + block)))"

section \<open>The validation scan\<close>

text \<open>
  A callback gets the caller's state \<open>*user\<close>, the id, the value and its size; it answers and may
  change the caller's state.
\<close>

type_synonym 'u mcl_wire_extension_accept_fn = "'u \<Rightarrow> u32 \<Rightarrow> u8 list ptr \<Rightarrow> nat \<Rightarrow> u8 \<times> 'u"

text \<open>
  The \<open>for (;;)\<close> loop terminates because a reader that delivers an extension has moved on.
\<close>

lemma uvarint_loop_consumed:
  "uvarint_decode_loop data n i r = (MCL_WIRE_OK, w) \<Longrightarrow> \<exists>v k. w = Some (v, k) \<and> i < k \<and> k \<le> n"
proof (induction data n i r rule: uvarint_decode_loop.induct)
  case (1 data n i r)
  let ?r = "push_bit 7 r OR ucast (data ! i AND 0x7f)"
  show ?case
  proof (cases "i < n \<and> i < 5 \<and> \<not> r > drop_bit 7 0xFFFFFFFF \<and> data ! i AND 0x80 \<noteq> 0")
    case True
    then have "uvarint_decode_loop data n i r = uvarint_decode_loop data n (i + 1) ?r"
      by (subst uvarint_decode_loop.simps) simp
    with "1.IH" [OF _ refl _ refl] True "1.prems" have "\<exists>v k. w = Some (v, k) \<and> i + 1 < k \<and> k \<le> n"
      by simp
    then show ?thesis by auto
  next
    case False
    with "1.prems" show ?thesis
      by (subst (asm) uvarint_decode_loop.simps) (auto simp: Let_def split: if_splits)
  qed
qed

lemma uvarint_decode_consumed:
  "mcl_wire_uvarint_decode data n (Some v0) (Some c0) = (MCL_WIRE_OK, v, c) \<Longrightarrow> 0 < the c \<and> the c \<le> n"
  by (auto simp: mcl_wire_uvarint_decode_def split: option.splits if_splits prod.splits
      dest: uvarint_loop_consumed)

lemma reader_next_progress:
  assumes "mcl_wire_extension_reader_next (Some r) (Some e0) (Some h0) = (MCL_WIRE_OK, r', e, h)"
    and "the h \<noteq> 0"
  shows "rdx_size (the r') - rdx_offset (the r') < rdx_size r - rdx_offset r"
  using assms
  by (auto simp: mcl_wire_extension_reader_next_def reader_uvarint_def Let_def split: if_splits prod.splits
      dest!: uvarint_decode_consumed)

function ext_scan ::
    "'u mcl_wire_extension_accept_fn option \<Rightarrow> 'u \<Rightarrow> mcl_wire_extension_reader \<Rightarrow>
     mcl_wire_extension \<Rightarrow> u8 \<Rightarrow> mcl_wire_status \<times> 'u" where
  "ext_scan accept user scan extension has_extension =
     (case mcl_wire_extension_reader_next (Some scan) (Some extension) (Some has_extension) of
        (st, scan', extension', has_extension') \<Rightarrow>
          if st \<noteq> MCL_WIRE_OK then (st, user)
          else if the has_extension' = 0 then (MCL_WIRE_OK, user)
          else
            let e = the extension' in
            if ext_critical e \<noteq> 0 then
              (case accept of
                 None \<Rightarrow> (MCL_WIRE_ERR_UNSUPPORTED_SEMANTIC, user)
               | Some f \<Rightarrow>
                   (case f user (ext_id e) (ext_value e) (ext_value_size e) of
                      (answer, user') \<Rightarrow>
                        if answer = 0 then (MCL_WIRE_ERR_UNSUPPORTED_SEMANTIC, user')
                        else ext_scan accept user' (the scan') e (the has_extension')))
            else ext_scan accept user (the scan') e (the has_extension'))"
  by pat_completeness auto
termination
  by (relation "measure (\<lambda>(_, _, scan, _, _). rdx_size scan - rdx_offset scan)")
     (auto dest: reader_next_progress [OF sym])

declare ext_scan.simps [simp del]

section \<open>Decoding\<close>

definition mcl_wire_tier0_decode_ext_accept ::
    "u8 list ptr \<Rightarrow> nat \<Rightarrow> mcl_wire_tier0 ptr \<Rightarrow> mcl_wire_extension_reader ptr \<Rightarrow>
     'u mcl_wire_extension_accept_fn option \<Rightarrow> 'u \<Rightarrow> nat ptr \<Rightarrow>
     mcl_wire_status \<times> mcl_wire_tier0 ptr \<times> mcl_wire_extension_reader ptr \<times> nat ptr \<times> 'u" where
  "mcl_wire_tier0_decode_ext_accept data data_size object reader accept user consumed =
     (if data = None \<or> object = None \<or> reader = None \<or> consumed = None
      then (MCL_WIRE_ERR_INVALID_ARGUMENT, object, reader, consumed, user)
      else if data_size < MCL_WIRE_COMMON_HEADER_SIZE
      then (MCL_WIRE_ERR_TRUNCATED, object, reader, consumed, user)
      else case mcl_wire_header_decode data (Some (header_of 0 0)) of
        (st, header) \<Rightarrow>
          if st \<noteq> MCL_WIRE_OK then (st, object, reader, consumed, user)
          else case mcl_wire_tier0_decode_body data data_size object (Some 0) of
            (st, object, body) \<Rightarrow>
              if st \<noteq> MCL_WIRE_OK then (st, object, reader, consumed, user)
              else
                let bs = the data; body = the body in
                if hdr_extension_present (the header) = 0
                then (MCL_WIRE_OK, object,
                      mcl_wire_extension_reader_init reader (Some (drop body bs)) 0, Some body, user)
                else case mcl_wire_uvarint_decode (Some (drop body bs)) (data_size - body)
                            (Some 0) (Some 0) of
                  (st, block_length, length_size) \<Rightarrow>
                    if st \<noteq> MCL_WIRE_OK then (st, object, reader, consumed, user)
                    else
                      let block_length = the block_length; length_size = the length_size in
                      if block_length = 0
                      then (MCL_WIRE_ERR_NONCANONICAL, object, reader, consumed, user)
                      else if unat block_length > MCL_WIRE_EXTENSION_BLOCK_MAX
                      then (MCL_WIRE_ERR_RANGE, object, reader, consumed, user)
                      else if unat block_length > data_size - body - length_size
                      then (MCL_WIRE_ERR_TRUNCATED, object, reader, consumed, user)
                      else
                        let block = Some (drop (body + length_size) bs);
                            scan = mcl_wire_extension_reader_init reader block (unat block_length)
                        in case ext_scan accept user (the scan)
                                  \<lparr>ext_id = 0, ext_critical = 0, ext_value = None, ext_value_size = 0\<rparr> 0 of
                             (st, user) \<Rightarrow>
                               if st \<noteq> MCL_WIRE_OK then (st, object, reader, consumed, user)
                               else (MCL_WIRE_OK, object,
                                     mcl_wire_extension_reader_init reader block (unat block_length),
                                     Some (body + length_size + unat block_length), user))"

definition mcl_wire_tier0_decode_ext ::
    "u8 list ptr \<Rightarrow> nat \<Rightarrow> mcl_wire_tier0 ptr \<Rightarrow> mcl_wire_extension_reader ptr \<Rightarrow> nat ptr \<Rightarrow>
     mcl_wire_status \<times> mcl_wire_tier0 ptr \<times> mcl_wire_extension_reader ptr \<times> nat ptr" where
  "mcl_wire_tier0_decode_ext data data_size object reader consumed =
     (case mcl_wire_tier0_decode_ext_accept data data_size object reader None () consumed of
        (st, object, reader, consumed, user) \<Rightarrow> (st, object, reader, consumed))"

end
