(* ===== verification/Wire_Extension_Facts.thy ===== *)
theory Wire_Extension_Facts
  imports Wire_Extension
begin

text \<open>
  What the extension-block functions promise: the wire form of a block written independently of the
  code, the complete outcome of the encoder and of the size function, and what the reader accepts.
\<close>

unbundle bit_operations_syntax

section \<open>Blocks\<close>

text \<open>An extension without its pointers: id, criticality and value.\<close>

type_synonym tlv = "u32 \<times> u8 \<times> u8 list"

definition ext_bytes :: "mcl_wire_extension \<Rightarrow> u8 list" where
  "ext_bytes e = (if ext_value_size e = 0 then [] else take (ext_value_size e) (the (ext_value e)))"

definition tlv_of :: "mcl_wire_extension \<Rightarrow> tlv" where
  "tlv_of e = (ext_id e, ext_critical e, ext_bytes e)"

text \<open>The caller's side: \<open>value\<close> points to at least \<open>value_size\<close> bytes.\<close>

definition readable :: "mcl_wire_extension \<Rightarrow> bool" where
  "readable e \<longleftrightarrow> (case ext_value e of None \<Rightarrow> True | Some vs \<Rightarrow> ext_value_size e \<le> length vs)"

definition ext_ok :: "mcl_wire_extension \<Rightarrow> bool" where
  "ext_ok e \<longleftrightarrow>
     ext_id e \<noteq> 0 \<and> ext_id e \<le> 0x7FFFFFFF \<and> ext_critical e \<le> 1 \<and>
     (ext_value_size e \<noteq> 0 \<longrightarrow> ext_value e \<noteq> None) \<and> ext_value_size e < 2 ^ 32"

definition tlv_ok :: "tlv \<Rightarrow> bool" where
  "tlv_ok = (\<lambda>(i, c, v). i \<noteq> 0 \<and> i \<le> 0x7FFFFFFF \<and> c \<le> 1 \<and> length v < 2 ^ 32)"

definition tlv_key :: "u32 \<Rightarrow> u8 \<Rightarrow> u32" where
  "tlv_key i c = push_bit 1 i OR ucast c"

definition tlv_wire :: "tlv \<Rightarrow> u8 list" where
  "tlv_wire = (\<lambda>(i, c, v). uvarint_wire (tlv_key i c) @ uvarint_wire (of_nat (length v)) @ v)"

definition block_wire :: "tlv list \<Rightarrow> u8 list" where
  "block_wire ts = concat (map tlv_wire ts)"

primrec ids_above :: "u32 option \<Rightarrow> tlv list \<Rightarrow> bool" where
  "ids_above p [] \<longleftrightarrow> True"
| "ids_above p (t # ts) \<longleftrightarrow> (\<forall>q. p = Some q \<longrightarrow> q < fst t) \<and> ids_above (Some (fst t)) ts"

definition block_ok :: "u32 option \<Rightarrow> tlv list \<Rightarrow> bool" where
  "block_ok p ts \<longleftrightarrow> list_all tlv_ok ts \<and> ids_above p ts"

lemma block_wire_simps [simp]:
  "block_wire [] = []" "block_wire (t # ts) = tlv_wire t @ block_wire ts"
  by (simp_all add: block_wire_def)

lemma block_ok_simps [simp]:
  "block_ok p []"
  "block_ok p (t # ts) \<longleftrightarrow> tlv_ok t \<and> (\<forall>q. p = Some q \<longrightarrow> q < fst t) \<and> block_ok (Some (fst t)) ts"
  by (auto simp: block_ok_def)

lemma tlv_wire_not_Nil [simp]: "tlv_wire t \<noteq> []"
  using length_uvarint_wire uvarint_len_pos
  by (cases t) (auto simp: tlv_wire_def simp flip: length_greater_0_conv)

lemma length_ext_bytes:
  "readable e \<Longrightarrow> ext_ok e \<Longrightarrow> length (ext_bytes e) = ext_value_size e"
  by (auto simp: readable_def ext_ok_def ext_bytes_def)

lemma tlv_ok_of: "readable e \<Longrightarrow> ext_ok e \<Longrightarrow> tlv_ok (tlv_of e)"
  using length_ext_bytes [of e] by (simp add: tlv_ok_def tlv_of_def ext_ok_def)

lemma ext_ok_guard:
  "(ext_id e = 0 \<or> ext_id e > drop_bit 1 UINT32_MAX \<or> ext_critical e > 1 \<or>
    (ext_value_size e \<noteq> 0 \<and> ext_value e = None) \<or> ext_value_size e > unat UINT32_MAX) \<longleftrightarrow>
   \<not> ext_ok e"
proof -
  have "drop_bit 1 UINT32_MAX = 0x7FFFFFFF" by simp
  moreover have "ext_value_size e > unat UINT32_MAX \<longleftrightarrow> \<not> ext_value_size e < 2 ^ 32" by auto
  ultimately show ?thesis by (simp only: ext_ok_def) (auto simp: not_less)
qed

section \<open>The outcome of a run over a list of extensions\<close>

text \<open>
  In the order of the code's checks: the extension itself, the order of the ids, then the room for
  its bytes. \<open>err\<close> is the status for lack of room.
\<close>

primrec block_status ::
    "mcl_wire_status \<Rightarrow> nat \<Rightarrow> u32 option \<Rightarrow> mcl_wire_extension list \<Rightarrow> mcl_wire_status" where
  "block_status err room p [] = MCL_WIRE_OK"
| "block_status err room p (e # es) =
     (if \<not> ext_ok e then MCL_WIRE_ERR_RANGE
      else if (case p of None \<Rightarrow> False | Some q \<Rightarrow> ext_id e \<le> q) then MCL_WIRE_ERR_NONCANONICAL
      else if room < length (tlv_wire (tlv_of e)) then err
      else block_status err (room - length (tlv_wire (tlv_of e))) (Some (ext_id e)) es)"

definition block_bytes :: "mcl_wire_extension list \<Rightarrow> u8 list" where
  "block_bytes es = block_wire (map tlv_of es)"

lemma block_bytes_simps [simp]:
  "block_bytes [] = []" "block_bytes (e # es) = tlv_wire (tlv_of e) @ block_bytes es"
  by (simp_all add: block_bytes_def)

lemma block_status_OK_iff:
  assumes "err \<noteq> MCL_WIRE_OK" and "\<forall>e \<in> set es. readable e"
  shows "block_status err room p es = MCL_WIRE_OK \<longleftrightarrow>
     list_all ext_ok es \<and> block_ok p (map tlv_of es) \<and> length (block_bytes es) \<le> room"
  using assms(2)
proof (induction es arbitrary: room p)
  case (Cons e es)
  have order: "(case p of None \<Rightarrow> False | Some q \<Rightarrow> ext_id e \<le> q) \<longleftrightarrow>
      \<not> (\<forall>q. p = Some q \<longrightarrow> q < fst (tlv_of e))"
    by (auto simp: tlv_of_def not_less split: option.splits)
  have fst: "fst (tlv_of e) = ext_id e" by (simp add: tlv_of_def)
  from Cons tlv_ok_of [of e] assms(1) show ?case
    by (simp add: order) (auto simp: fst)
qed simp

section \<open>Writing into the middle of a buffer\<close>

definition overwrite :: "nat \<Rightarrow> u8 list \<Rightarrow> u8 list \<Rightarrow> u8 list" where
  "overwrite offset ws out = take offset out @ ws @ drop (offset + length ws) out"

lemma length_overwrite [simp]: "offset + length ws \<le> length out \<Longrightarrow> length (overwrite offset ws out) = length out"
  by (simp add: overwrite_def)

lemma overwrite_Nil [simp]: "overwrite offset [] out = out"
  by (simp add: overwrite_def)

lemma overwrite_overwrite [simp]:
  "offset \<le> length out \<Longrightarrow>
   overwrite (offset + length ws) vs (overwrite offset ws out) = overwrite offset (ws @ vs) out"
proof -
  assume offset: "offset \<le> length out"
  let ?rest = "drop (offset + length ws) out"
  have "take (offset + length ws) (take offset out @ ws @ ?rest) = take offset out @ ws"
    using offset by simp
  moreover have "drop (offset + length ws + length vs) (take offset out @ ws @ ?rest) =
      drop (offset + length (ws @ vs)) out"
    using offset by (simp add: ac_simps)
  ultimately show ?thesis by (simp only: overwrite_def append_assoc)
qed

lemma take_overwrite [simp]: "offset \<le> length out \<Longrightarrow> take offset (overwrite offset ws out) = take offset out"
  by (simp add: overwrite_def min_absorb2)

lemma drop_overwrite:
  "offset + length ws \<le> cap \<Longrightarrow> cap \<le> length out \<Longrightarrow> drop cap (overwrite offset ws out) = drop cap out"
  by (simp add: overwrite_def min_absorb2)

lemma store_overwrite:
  assumes "offset + n \<le> length out"
  shows "fold (\<lambda>j out. out[offset + j := f j]) [0..<n] out = overwrite offset (map f [0..<n]) out"
  using assms
proof (induction n)
  case (Suc n)
  then show ?case
    by (simp add: overwrite_def list_update_append min_absorb2 Cons_nth_drop_Suc [symmetric])
qed simp

lemma uvarint_encode_at_result:
  assumes "offset \<le> cap" and "cap \<le> length out"
  shows "uvarint_encode_at v out offset cap =
     (if cap - offset < length (uvarint_wire v) then (MCL_WIRE_ERR_BUFFER_TOO_SMALL, out, 0)
      else (MCL_WIRE_OK, overwrite offset (uvarint_wire v) out, length (uvarint_wire v)))"
  using assms uvarint_encode_result [of "cap - offset" "drop offset out" v 0]
  by (simp add: uvarint_encode_at_def overwrite_def mcl_uvarint_size_len length_uvarint_wire add.commute)

text \<open>The key and the length field of an extension, as they stand in front of its value.\<close>

definition key_wire :: "mcl_wire_extension \<Rightarrow> u8 list" where
  "key_wire e = uvarint_wire (tlv_key (ext_id e) (ext_critical e))"

definition size_wire :: "mcl_wire_extension \<Rightarrow> u8 list" where
  "size_wire e = uvarint_wire (of_nat (ext_value_size e))"

lemma tlv_wire_of:
  "readable e \<Longrightarrow> ext_ok e \<Longrightarrow> tlv_wire (tlv_of e) = key_wire e @ size_wire e @ ext_bytes e"
  by (simp add: tlv_wire_def tlv_of_def key_wire_def size_wire_def length_ext_bytes)

lemma length_tlv_wire_of:
  "readable e \<Longrightarrow> ext_ok e \<Longrightarrow>
   length (tlv_wire (tlv_of e)) = length (key_wire e) + length (size_wire e) + ext_value_size e"
  by (simp add: tlv_wire_of length_ext_bytes)

lemma value_bytes:
  assumes "readable e" and "ext_ok e"
  shows "map ((!) (the (ext_value e))) [0..<ext_value_size e] = ext_bytes e"
proof (rule nth_equalityI)
  fix j
  assume "j < length (map ((!) (the (ext_value e))) [0..<ext_value_size e])"
  then show "map ((!) (the (ext_value e))) [0..<ext_value_size e] ! j = ext_bytes e ! j"
    using assms by (auto simp: ext_bytes_def)
qed (simp add: length_ext_bytes assms)

text \<open>The id before position \<open>i\<close>, as the loops keep it.\<close>

definition previous_of :: "nat \<Rightarrow> u32 \<Rightarrow> u32 option" where
  "previous_of i prev = (if i = 0 then None else Some prev)"

lemma previous_of_Suc [simp]: "previous_of (Suc i) prev = Some prev"
  by (simp add: previous_of_def)

lemma previous_of_0 [simp]: "previous_of 0 prev = None"
  by (simp add: previous_of_def)

lemma wrong_order [simp]:
  "(case previous_of i prev of None \<Rightarrow> False | Some q \<Rightarrow> x \<le> q) \<longleftrightarrow> i \<noteq> 0 \<and> x \<le> prev"
  by (simp add: previous_of_def)

lemma rest_of_count:
  "i < count \<Longrightarrow> count \<le> length es \<Longrightarrow>
   drop i (take count es) = es ! i # drop (Suc i) (take count es)"
  by (simp add: Cons_nth_drop_Suc [symmetric])

section \<open>The encoder\<close>

text \<open>
  The outcome of a run that starts at \<open>offset\<close> within the capacity \<open>cap\<close>: the status \<open>st\<close>, some bytes
  written, none beyond the capacity; all of \<open>bs\<close>, with the offset after them, on success.
\<close>

definition encode_run ::
    "nat \<Rightarrow> nat \<Rightarrow> u8 list \<Rightarrow> u8 list \<Rightarrow> mcl_wire_status \<Rightarrow> mcl_wire_status \<times> u8 list \<times> nat \<Rightarrow> bool" where
  "encode_run cap offset out bs st r \<longleftrightarrow>
     (\<exists>ws off. r = (st, overwrite offset ws out, off) \<and> offset + length ws \<le> cap \<and>
        (st = MCL_WIRE_OK \<longrightarrow> ws = bs \<and> off = offset + length ws))"

lemma encode_run_refused:
  "st \<noteq> MCL_WIRE_OK \<Longrightarrow> offset + length ws \<le> cap \<Longrightarrow>
   encode_run cap offset out bs st (st, overwrite offset ws out, off)"
  by (auto simp: encode_run_def)

lemma encode_run_unchanged:
  "st \<noteq> MCL_WIRE_OK \<Longrightarrow> offset \<le> cap \<Longrightarrow> encode_run cap offset out bs st (st, out, off)"
  using encode_run_refused [of st offset "[]" cap out bs off] by simp

lemma encode_run_append:
  assumes "encode_run cap (offset + length ws) (overwrite offset ws out) bs st r" and "offset \<le> length out"
  shows "encode_run cap offset out (ws @ bs) st r"
proof -
  from assms(1) obtain vs off where
    "r = (st, overwrite (offset + length ws) vs (overwrite offset ws out), off)"
    "offset + length ws + length vs \<le> cap"
    "st = MCL_WIRE_OK \<longrightarrow> vs = bs \<and> off = offset + length ws + length vs"
    unfolding encode_run_def by blast
  with assms(2) show ?thesis
    unfolding encode_run_def by (intro exI [of _ "ws @ vs"] exI [of _ off]) (simp add: add.assoc)
qed

text \<open>One round of the loop: an extension that fails a check, and one that passes them all.\<close>

lemma encode_loop_not_ok:
  "i < count \<Longrightarrow> \<not> ext_ok (es ! i) \<Longrightarrow>
   extensions_encode_loop es count cap i offset prev out = (MCL_WIRE_ERR_RANGE, out, offset)"
  by (subst extensions_encode_loop.simps)
    (simp only: Let_def ext_ok_guard if_True not_False_eq_True)

lemma encode_loop_wrong_order:
  "i < count \<Longrightarrow> ext_ok (es ! i) \<Longrightarrow> i \<noteq> 0 \<and> ext_id (es ! i) \<le> prev \<Longrightarrow>
   extensions_encode_loop es count cap i offset prev out = (MCL_WIRE_ERR_NONCANONICAL, out, offset)"
  by (subst extensions_encode_loop.simps)
    (simp only: Let_def ext_ok_guard not_True_eq_False if_True if_False simp_thms)

lemma encode_loop_fields:
  assumes "i < count" and "ext_ok (es ! i)" and "\<not> (i \<noteq> 0 \<and> ext_id (es ! i) \<le> prev)"
    and "offset \<le> cap" and "cap \<le> length out" and e: "e = es ! i"
  shows "extensions_encode_loop es count cap i offset prev out =
     (let offset' = offset + length (key_wire e);
          offset'' = offset' + length (size_wire e);
          out' = overwrite offset (key_wire e) out;
          out'' = overwrite offset (key_wire e @ size_wire e) out
      in if cap - offset < length (key_wire e) then (MCL_WIRE_ERR_BUFFER_TOO_SMALL, out, offset)
         else if cap - offset' < length (size_wire e) then (MCL_WIRE_ERR_BUFFER_TOO_SMALL, out', offset')
         else if cap - offset'' < ext_value_size e then (MCL_WIRE_ERR_BUFFER_TOO_SMALL, out'', offset'')
         else extensions_encode_loop es count cap (i + 1) (offset'' + ext_value_size e) (ext_id e)
                (fold (\<lambda>j out. out[offset'' + j := the (ext_value e) ! j]) [0..<ext_value_size e] out''))"
proof -
  have "\<not> offset > cap" using assms(4) by simp
  moreover have "uvarint_encode_at (of_nat (ext_value_size e)) (overwrite offset (key_wire e) out)
      (offset + length (key_wire e)) cap =
      (if cap - (offset + length (key_wire e)) < length (size_wire e)
       then (MCL_WIRE_ERR_BUFFER_TOO_SMALL, overwrite offset (key_wire e) out, 0)
       else (MCL_WIRE_OK, overwrite offset (key_wire e @ size_wire e) out, length (size_wire e)))"
    if "\<not> cap - offset < length (key_wire e)"
    using that assms(4,5) by (subst uvarint_encode_at_result) (simp_all add: size_wire_def)
  ultimately show ?thesis
    using assms(1-3,5) uvarint_encode_at_result [OF assms(4,5), of "tlv_key (ext_id e) (ext_critical e)"]
    by (subst extensions_encode_loop.simps)
      (simp only: Let_def e [symmetric] ext_ok_guard not_True_eq_False if_True if_False
        tlv_key_def [symmetric] key_wire_def [symmetric], auto simp: not_less)
qed

lemma encode_loop_no_room:
  assumes "i < count" and "ext_ok (es ! i)" and "\<not> (i \<noteq> 0 \<and> ext_id (es ! i) \<le> prev)"
    and "offset \<le> cap" and "cap \<le> length out" and "readable (es ! i)"
    and "cap - offset < length (tlv_wire (tlv_of (es ! i)))"
  shows "encode_run cap offset out bs MCL_WIRE_ERR_BUFFER_TOO_SMALL
     (extensions_encode_loop es count cap i offset prev out)"
  using assms(4,7) unfolding encode_loop_fields [OF assms(1-5) refl] length_tlv_wire_of [OF assms(6,2)]
  by (auto simp: Let_def intro!: encode_run_refused encode_run_unchanged)

lemma encode_loop_room:
  assumes "i < count" and "ext_ok (es ! i)" and "\<not> (i \<noteq> 0 \<and> ext_id (es ! i) \<le> prev)"
    and "offset \<le> cap" and "cap \<le> length out" and "readable (es ! i)"
    and "length (tlv_wire (tlv_of (es ! i))) \<le> cap - offset"
  shows "extensions_encode_loop es count cap i offset prev out =
     extensions_encode_loop es count cap (Suc i) (offset + length (tlv_wire (tlv_of (es ! i))))
       (ext_id (es ! i)) (overwrite offset (tlv_wire (tlv_of (es ! i))) out)"
proof -
  let ?e = "es ! i"
  let ?ks = "key_wire ?e @ size_wire ?e"
  have size: "offset + length ?ks + ext_value_size ?e \<le> cap"
    using assms(4,7) unfolding length_tlv_wire_of [OF assms(6,2)] by simp
  have copy: "fold (\<lambda>j out. out[offset + length ?ks + j := the (ext_value ?e) ! j])
      [0..<ext_value_size ?e] (overwrite offset ?ks out) = overwrite offset (tlv_wire (tlv_of ?e)) out"
    using size assms(5) overwrite_overwrite [of offset out ?ks "ext_bytes ?e"]
    by (subst store_overwrite) (simp_all add: value_bytes assms(2,6) tlv_wire_of add.assoc)
  have fit: "\<not> cap - offset < length (key_wire ?e)"
    "\<not> cap - (offset + length (key_wire ?e)) < length (size_wire ?e)"
    "\<not> cap - (offset + length (key_wire ?e) + length (size_wire ?e)) < ext_value_size ?e"
    using size by simp_all
  show ?thesis
    unfolding encode_loop_fields [OF assms(1-5) refl] Let_def if_not_P [OF fit(1)] if_not_P [OF fit(2)]
      if_not_P [OF fit(3)] length_tlv_wire_of [OF assms(6,2)]
    using copy by (simp add: add.assoc)
qed

lemma encode_loop_result:
  assumes "i \<le> count" and "count \<le> length es" and "\<forall>e \<in> set es. readable e"
    and "offset \<le> cap" and "cap \<le> length out"
  shows "encode_run cap offset out (block_bytes (drop i (take count es)))
     (block_status MCL_WIRE_ERR_BUFFER_TOO_SMALL (cap - offset) (previous_of i prev) (drop i (take count es)))
     (extensions_encode_loop es count cap i offset prev out)"
  using assms
proof (induction "count - i" arbitrary: i offset prev out)
  case 0
  then show ?case
    by (subst extensions_encode_loop.simps) (auto simp: encode_run_def intro!: exI [of _ "[]"])
next
  case (Suc d)
  let ?e = "es ! i" and ?w = "tlv_wire (tlv_of (es ! i))"
  have i: "i < count" using Suc.hyps(2) by simp
  note rest = rest_of_count [OF i Suc.prems(2)]
  have e: "readable ?e" using i Suc.prems(2,3) by simp
  consider (bad) "\<not> ext_ok ?e" | (order) "ext_ok ?e" "i \<noteq> 0 \<and> ext_id ?e \<le> prev"
    | (full) "ext_ok ?e" "\<not> (i \<noteq> 0 \<and> ext_id ?e \<le> prev)" "cap - offset < length ?w"
    | (room) "ext_ok ?e" "\<not> (i \<noteq> 0 \<and> ext_id ?e \<le> prev)" "length ?w \<le> cap - offset"
    by linarith
  then show ?case
  proof cases
    case bad
    with i Suc.prems(4) show ?thesis by (simp add: rest encode_loop_not_ok encode_run_unchanged)
  next
    case order
    with i Suc.prems(4) show ?thesis by (simp add: rest encode_loop_wrong_order encode_run_unchanged)
  next
    case full
    then have "block_status MCL_WIRE_ERR_BUFFER_TOO_SMALL (cap - offset) (previous_of i prev)
        (drop i (take count es)) = MCL_WIRE_ERR_BUFFER_TOO_SMALL"
      by (simp add: rest)
    then show ?thesis using encode_loop_no_room [OF i full(1,2) Suc.prems(4,5) e full(3)] by simp
  next
    case room
    have fit: "offset + length ?w \<le> cap" using room(3) Suc.prems(4) by linarith
    then have "encode_run cap (offset + length ?w) (overwrite offset ?w out)
        (block_bytes (drop (Suc i) (take count es)))
        (block_status MCL_WIRE_ERR_BUFFER_TOO_SMALL (cap - (offset + length ?w))
          (previous_of (Suc i) (ext_id ?e)) (drop (Suc i) (take count es)))
        (extensions_encode_loop es count cap i offset prev out)"
      unfolding encode_loop_room [OF i room(1,2) Suc.prems(4,5) e room(3)]
      by (intro Suc.hyps(1)) (use Suc.hyps(2) Suc.prems i in simp_all)
    from encode_run_append [OF this] room Suc.prems(4,5) show ?thesis
      by (auto simp: rest not_less)
  qed
qed

lemma extensions_encode_result:
  assumes "count \<le> length es" and "\<forall>e \<in> set es. readable e" and "cap \<le> length out"
  shows "\<exists>ws. length ws \<le> cap \<and>
      mcl_wire_extensions_encode (Some es) count (Some out) cap (Some w) =
        (block_status MCL_WIRE_ERR_BUFFER_TOO_SMALL cap None (take count es),
         Some (ws @ drop (length ws) out),
         if block_status MCL_WIRE_ERR_BUFFER_TOO_SMALL cap None (take count es) = MCL_WIRE_OK
         then Some (length ws) else Some w) \<and>
      (block_status MCL_WIRE_ERR_BUFFER_TOO_SMALL cap None (take count es) = MCL_WIRE_OK \<longrightarrow>
       ws = block_bytes (take count es))"
proof -
  let ?st = "block_status MCL_WIRE_ERR_BUFFER_TOO_SMALL cap None (take count es)"
  from encode_loop_result [of 0 count es 0 cap out 0] assms
  obtain ws off where "extensions_encode_loop es count cap 0 0 0 out = (?st, overwrite 0 ws out, off)"
    "length ws \<le> cap" "?st = MCL_WIRE_OK \<longrightarrow> ws = block_bytes (take count es) \<and> off = length ws"
    by (auto simp: encode_run_def)
  then show ?thesis
    by (intro exI [of _ ws]) (auto simp: mcl_wire_extensions_encode_def overwrite_def)
qed

section \<open>The size function\<close>

lemma size_loop_not_ok:
  "i < count \<Longrightarrow> \<not> ext_ok (es ! i) \<Longrightarrow>
   extensions_size_loop es count i so_far prev = (MCL_WIRE_ERR_RANGE, so_far)"
  by (subst extensions_size_loop.simps) (simp only: Let_def ext_ok_guard if_True not_False_eq_True)

lemma size_loop_wrong_order:
  "i < count \<Longrightarrow> ext_ok (es ! i) \<Longrightarrow> i \<noteq> 0 \<and> ext_id (es ! i) \<le> prev \<Longrightarrow>
   extensions_size_loop es count i so_far prev = (MCL_WIRE_ERR_NONCANONICAL, so_far)"
  by (subst extensions_size_loop.simps)
    (simp only: Let_def ext_ok_guard not_True_eq_False if_True if_False simp_thms)

lemma size_loop_fields:
  assumes "i < count" and "ext_ok (es ! i)" and "\<not> (i \<noteq> 0 \<and> ext_id (es ! i) \<le> prev)"
  shows "extensions_size_loop es count i so_far prev =
     (let fields = length (key_wire (es ! i)) + length (size_wire (es ! i));
          n = ext_value_size (es ! i)
      in if fields > MCL_WIRE_EXTENSION_BLOCK_MAX - so_far then (MCL_WIRE_ERR_RANGE, so_far)
         else if n > MCL_WIRE_EXTENSION_BLOCK_MAX - (so_far + fields)
         then (MCL_WIRE_ERR_RANGE, so_far + fields)
         else extensions_size_loop es count (Suc i) (so_far + fields + n) (ext_id (es ! i)))"
  using assms
  by (subst extensions_size_loop.simps)
    (simp only: Let_def ext_ok_guard not_True_eq_False if_True if_False simp_thms Suc_eq_plus1
      tlv_key_def [symmetric] mcl_uvarint_size_len length_uvarint_wire key_wire_def size_wire_def)

lemma size_loop_result:
  assumes "i \<le> count" and "count \<le> length es" and "\<forall>e \<in> set es. readable e"
    and "so_far \<le> MCL_WIRE_EXTENSION_BLOCK_MAX"
    and "st = block_status MCL_WIRE_ERR_RANGE (MCL_WIRE_EXTENSION_BLOCK_MAX - so_far)
           (previous_of i prev) (drop i (take count es))"
  shows "\<exists>n. extensions_size_loop es count i so_far prev = (st, n) \<and>
      (st = MCL_WIRE_OK \<longrightarrow> n = so_far + length (block_bytes (drop i (take count es))))"
  using assms
proof (induction "count - i" arbitrary: i so_far prev)
  case 0
  then show ?case by (subst extensions_size_loop.simps) simp
next
  case (Suc d)
  let ?e = "es ! i" and ?n = "length (tlv_wire (tlv_of (es ! i)))"
  have i: "i < count" using Suc.hyps(2) by simp
  note rest = rest_of_count [OF i Suc.prems(2)]
  have e: "readable ?e" using i Suc.prems(2,3) by simp
  consider (bad) "\<not> ext_ok ?e" | (order) "ext_ok ?e" "i \<noteq> 0 \<and> ext_id ?e \<le> prev"
    | (full) "ext_ok ?e" "\<not> (i \<noteq> 0 \<and> ext_id ?e \<le> prev)" "256 - so_far < ?n"
    | (room) "ext_ok ?e" "\<not> (i \<noteq> 0 \<and> ext_id ?e \<le> prev)" "?n \<le> 256 - so_far"
    by linarith
  then show ?case
  proof cases
    case bad
    with i show ?thesis by (simp add: Suc.prems(5) rest size_loop_not_ok)
  next
    case order
    with i show ?thesis by (simp add: Suc.prems(5) rest size_loop_wrong_order)
  next
    case full
    then have "st = MCL_WIRE_ERR_RANGE" by (simp add: Suc.prems(5) rest)
    with full(3) Suc.prems(4) show ?thesis
      unfolding size_loop_fields [OF i full(1,2)] length_tlv_wire_of [OF e full(1)]
      by (auto simp: Let_def)
  next
    case room
    have fit: "so_far + ?n \<le> 256" using room(3) Suc.prems(4) by simp
    then have "extensions_size_loop es count i so_far prev =
        extensions_size_loop es count (Suc i) (so_far + ?n) (ext_id ?e)"
      unfolding size_loop_fields [OF i room(1,2)] length_tlv_wire_of [OF e room(1)]
      by (auto simp: Let_def add.assoc)
    moreover have "\<exists>m. extensions_size_loop es count (Suc i) (so_far + ?n) (ext_id ?e) = (st, m) \<and>
        (st = MCL_WIRE_OK \<longrightarrow> m = so_far + ?n + length (block_bytes (drop (Suc i) (take count es))))"
      by (rule Suc.hyps(1)) (use Suc.hyps(2) Suc.prems i fit room in \<open>auto simp: rest not_less\<close>)
    ultimately show ?thesis by (auto simp: rest)
  qed
qed

lemma extensions_size_result:
  assumes "count \<le> length es" and "\<forall>e \<in> set es. readable e"
  shows "mcl_wire_extensions_encoded_size (Some es) count (Some n0) =
     (block_status MCL_WIRE_ERR_RANGE MCL_WIRE_EXTENSION_BLOCK_MAX None (take count es),
      if block_status MCL_WIRE_ERR_RANGE MCL_WIRE_EXTENSION_BLOCK_MAX None (take count es) = MCL_WIRE_OK
      then Some (length (block_bytes (take count es))) else Some n0)"
  using size_loop_result [of 0 count es 0 _ 0] assms
  by (auto simp: mcl_wire_extensions_encoded_size_def)

end
