(* ===== verification/Wire_Reader_Facts.thy ===== *)
theory Wire_Reader_Facts
  imports Wire_Extension_Facts
begin

text \<open>
  What \<open>mcl_wire_extension_reader_next\<close> accepts: one well-formed extension with an id above the
  previous one, read from the bytes of the block and from no byte behind it. The steps of a reader
  form a transition relation; what holds of every reader reached from
  \<open>mcl_wire_extension_reader_init\<close> is proved by rule induction.
\<close>

unbundle bit_operations_syntax

section \<open>Keys\<close>

lemma key_parts:
  assumes "i \<le> 0x7FFFFFFF" and "c \<le> 1"
  shows "drop_bit 1 (tlv_key i c) = i" and "ucast (tlv_key i c AND 1) = c"
proof -
  have "i < 2 ^ 31" using assms(1) by (simp add: word_less_nat_alt word_le_nat_alt)
  then have i: "take_bit 31 i = i" using less_exp_iff_take_bit [of 31 i] by simp
  have c: "take_bit 1 c = c" using assms(2) by (simp add: word_le_nat_alt take_bit_eq_mod word_unat_eq_iff unat_mod)
  show "drop_bit 1 (tlv_key i c) = i"
    unfolding tlv_key_def
    by (rule bit_eqI, simp only: word_bits_only) (auto dest: in_range_bits [OF i] in_range_bits [OF c])
  have and1: "x AND 1 = take_bit 1 x" for x :: u32 by (simp add: take_bit_eq_mask)
  show "ucast (tlv_key i c AND 1) = c"
    unfolding tlv_key_def and1
    by (rule bit_eqI, simp only: word_bits_only) (auto dest: in_range_bits [OF c])
qed

lemma key_of_parts: "tlv_key (drop_bit 1 key) (ucast (key AND 1)) = key"
proof -
  have and1: "x AND 1 = take_bit 1 x" for x :: u32 by (simp add: take_bit_eq_mask)
  show ?thesis
    unfolding tlv_key_def and1
  proof (rule bit_eqI)
    fix n
    show "bit (push_bit 1 (drop_bit 1 key) OR ucast (ucast (take_bit 1 key) :: u8)) n \<longleftrightarrow> bit key n"
      by (cases n) (simp_all only: word_bits_only, auto dest: bit_imp_le_length)
  qed
qed

lemma key_parts_ok: "drop_bit 1 (key::u32) \<le> 0x7FFFFFFF" "(ucast (key AND 1) :: u8) \<le> 1"
proof -
  have "unat (drop_bit 1 key) = unat key div 2" by (simp add: drop_bit_eq_div unat_div)
  moreover have "unat key < 4294967296" using unsigned_less [of key] by simp
  ultimately show "drop_bit 1 key \<le> 0x7FFFFFFF" by (simp add: word_le_nat_alt)
  show "(ucast (key AND 1) :: u8) \<le> 1"
    by (simp add: and_one_eq mod2_eq_if)
qed

section \<open>The bytes a reader has left\<close>

definition rdx_wf :: "mcl_wire_extension_reader \<Rightarrow> bool" where
  "rdx_wf r \<longleftrightarrow>
     (\<exists>data. rdx_data r = Some data \<and> rdx_offset r \<le> rdx_size r \<and> rdx_size r \<le> length data)"

definition rdx_rest :: "mcl_wire_extension_reader \<Rightarrow> u8 list" where
  "rdx_rest r = drop (rdx_offset r) (take (rdx_size r) (the (rdx_data r)))"

definition rdx_previous :: "mcl_wire_extension_reader \<Rightarrow> u32 option" where
  "rdx_previous r = (if rdx_has_previous r = 0 then None else Some (rdx_previous_id r))"

definition rdx_after :: "tlv \<Rightarrow> mcl_wire_extension_reader \<Rightarrow> mcl_wire_extension_reader" where
  "rdx_after t r = r\<lparr>rdx_offset := rdx_offset r + length (tlv_wire t),
                     rdx_previous_id := fst t, rdx_has_previous := 1\<rparr>"

definition rdx_view :: "tlv \<Rightarrow> mcl_wire_extension_reader \<Rightarrow> mcl_wire_extension" where
  "rdx_view t r = (case t of (i, c, v) \<Rightarrow>
     \<lparr>ext_id = i, ext_critical = c,
      ext_value = map_option (drop (rdx_offset r + (length (tlv_wire t) - length v))) (rdx_data r),
      ext_value_size = length v\<rparr>)"

lemma length_rdx_rest: "rdx_wf r \<Longrightarrow> length (rdx_rest r) = rdx_size r - rdx_offset r"
  by (auto simp: rdx_wf_def rdx_rest_def)

lemma rdx_rest_Nil_iff: "rdx_wf r \<Longrightarrow> rdx_rest r = [] \<longleftrightarrow> rdx_offset r = rdx_size r"
  by (auto simp: rdx_wf_def rdx_rest_def)

lemma rdx_skip:
  assumes "rdx_wf r" and "k \<le> length (rdx_rest r)"
  shows "rdx_wf (r\<lparr>rdx_offset := rdx_offset r + k\<rparr>)"
    and "rdx_rest (r\<lparr>rdx_offset := rdx_offset r + k\<rparr>) = drop k (rdx_rest r)"
  using assms by (auto simp: rdx_wf_def rdx_rest_def add.commute)

lemma reader_uvarint_cases:
  assumes "rdx_wf r"
  obtains v k where "reader_uvarint r = (MCL_WIRE_OK, Some v, Some k)"
      "k \<le> length (rdx_rest r)" "take k (rdx_rest r) = uvarint_wire v"
  | st where "reader_uvarint r = (st, Some 0, Some 0)" "st \<noteq> MCL_WIRE_OK"
      "\<And>v rest. rdx_rest r \<noteq> uvarint_wire v @ rest"
proof -
  from assms obtain data where data: "rdx_data r = Some data" "rdx_offset r \<le> rdx_size r"
    "rdx_size r \<le> length data" by (auto simp: rdx_wf_def)
  let ?bs = "drop (rdx_offset r) data" and ?n = "rdx_size r - rdx_offset r"
  have n: "?n \<le> length ?bs" using data by simp
  have run: "reader_uvarint r = mcl_wire_uvarint_decode (Some ?bs) ?n (Some 0) (Some 0)"
    by (simp add: reader_uvarint_def data)
  have rest: "rdx_rest r = take ?n ?bs" using data by (simp add: rdx_rest_def drop_take)
  have "(\<exists>v k. uvarint_result ?bs ?n = (MCL_WIRE_OK, Some (v, k))) \<or>
      (\<exists>st. uvarint_result ?bs ?n = (st, None) \<and> st \<noteq> MCL_WIRE_OK)"
    by (simp add: uvarint_result_def Let_def)
  then show thesis
  proof
    assume "\<exists>v k. uvarint_result ?bs ?n = (MCL_WIRE_OK, Some (v, k))"
    then obtain v k where vk: "uvarint_result ?bs ?n = (MCL_WIRE_OK, Some (v, k))" by blast
    with uvarint_result_OK_iff [OF n, of v k] have "k \<le> ?n" "take k ?bs = uvarint_wire v" by simp_all
    moreover from this(1) n have "k \<le> length ?bs" by (rule order_trans)
    ultimately show thesis using vk
      by (intro that(1) [of v k])
        (simp_all add: run uvarint_decode_result [OF n] rest min_absorb1 data)
  next
    assume "\<exists>st. uvarint_result ?bs ?n = (st, None) \<and> st \<noteq> MCL_WIRE_OK"
    then obtain st where st: "uvarint_result ?bs ?n = (st, None)" "st \<noteq> MCL_WIRE_OK" by blast
    have "rdx_rest r \<noteq> uvarint_wire v @ rest" for v rest
    proof
      assume eq: "rdx_rest r = uvarint_wire v @ rest"
      let ?k = "length (uvarint_wire v)"
      have "?k \<le> ?n" using arg_cong [OF eq, of length] length_rdx_rest [OF assms] by simp
      moreover have "take ?k ?bs = uvarint_wire v"
        using arg_cong [OF eq, of "take ?k"] \<open>?k \<le> ?n\<close> by (simp add: rest min_absorb1)
      ultimately show False using uvarint_result_OK_iff [OF n, of v ?k] st by simp
    qed
    with st show thesis by (intro that(2) [of st]) (simp_all add: run uvarint_decode_result [OF n])
  qed
qed

lemma rdx_after_wf:
  assumes "rdx_wf r" and "rdx_rest r = tlv_wire t @ rest"
  shows "rdx_wf (rdx_after t r)" and "rdx_rest (rdx_after t r) = rest"
    and "rdx_previous (rdx_after t r) = Some (fst t)"
  using assms length_rdx_rest [OF assms(1)]
  by (auto simp: rdx_wf_def rdx_rest_def rdx_after_def rdx_previous_def)
    (metis add.commute append_eq_conv_conj drop_drop)

section \<open>One step of the reader\<close>

definition tlv_above :: "u32 option \<Rightarrow> tlv \<Rightarrow> bool" where
  "tlv_above p t \<longleftrightarrow> (\<forall>q. p = Some q \<longrightarrow> q < fst t)"

lemma order_guard:
  "rdx_has_previous r \<noteq> 0 \<and> i \<le> rdx_previous_id r \<longleftrightarrow> \<not> tlv_above (rdx_previous r) (i, c, v)"
  by (auto simp: tlv_above_def rdx_previous_def)

lemma tlv_wire_split:
  "tlv_wire (i, c, v) @ rest =
     uvarint_wire (tlv_key i c) @ uvarint_wire (of_nat (length v)) @ v @ rest"
  by (simp add: tlv_wire_def)

lemma unat_of_length: "n < 2 ^ 32 \<Longrightarrow> unat (of_nat n :: u32) = n"
  by (simp add: unsigned_of_nat take_bit_nat_eq_self_iff)

text \<open>The bytes a uvarint at the front of the rest takes are determined.\<close>

lemma uvarint_front:
  assumes "uvarint_wire v @ xs = uvarint_wire w @ ys"
  shows "v = w" and "xs = ys"
proof -
  let ?bs = "uvarint_wire v @ xs"
  have v: "uvarint_result ?bs (length ?bs) = (MCL_WIRE_OK, Some (v, length (uvarint_wire v)))"
    by (subst uvarint_result_OK_iff) simp_all
  have w: "uvarint_result ?bs (length ?bs) = (MCL_WIRE_OK, Some (w, length (uvarint_wire w)))"
    unfolding assms by (subst uvarint_result_OK_iff) simp_all
  from v w show "v = w" by simp
  with assms show "xs = ys" by simp
qed

lemma reader_uvarint_wire:
  assumes "rdx_wf r" and "rdx_rest r = uvarint_wire v @ rest"
  shows "reader_uvarint r = (MCL_WIRE_OK, Some v, Some (length (uvarint_wire v)))"
proof (cases rule: reader_uvarint_cases [OF assms(1)])
  case (1 w k)
  have "uvarint_wire w @ drop k (rdx_rest r) = uvarint_wire v @ rest"
    using 1(3) by (metis append_take_drop_id assms(2))
  from uvarint_front(1) [OF this] 1 show ?thesis by (metis length_take min.absorb2)
qed (use assms(2) in blast)

lemma reader_next_wire:
  assumes "rdx_wf r" and "rdx_rest r = tlv_wire t @ rest" and "tlv_ok t"
    and "tlv_above (rdx_previous r) t"
  shows "mcl_wire_extension_reader_next (Some r) (Some e0) (Some h0) =
     (MCL_WIRE_OK, Some (rdx_after t r), Some (rdx_view t r), Some 1)"
proof -
  obtain i c v where t: "t = (i, c, v)" by (cases t)
  let ?k = "uvarint_wire (tlv_key i c)" and ?l = "uvarint_wire (of_nat (length v))"
  have ok: "i \<noteq> 0" "i \<le> 0x7FFFFFFF" "c \<le> 1" "length v < 2 ^ 32"
    using assms(3) by (simp_all add: tlv_ok_def t)
  have rest: "rdx_rest r = ?k @ ?l @ v @ rest"
    by (simp only: assms(2) t tlv_wire_split)
  let ?r1 = "r\<lparr>rdx_offset := rdx_offset r + length ?k\<rparr>"
  let ?r2 = "?r1\<lparr>rdx_offset := rdx_offset ?r1 + length ?l\<rparr>"
  have "length ?k \<le> length (rdx_rest r)" by (simp add: rest)
  note r1 = rdx_skip [OF assms(1) this]
  have rest1: "rdx_rest ?r1 = ?l @ v @ rest" using r1(2) rest by simp
  then have "length ?l \<le> length (rdx_rest ?r1)" by simp
  note r2 = rdx_skip [OF r1(1) this]
  have rest2: "rdx_rest ?r2 = v @ rest" using r2(2) rest1 by simp
  note u0 = reader_uvarint_wire [OF assms(1) rest] and u1 = reader_uvarint_wire [OF r1(1) rest1]
  have not_end: "rdx_offset r \<noteq> rdx_size r"
    using rdx_rest_Nil_iff [OF assms(1)] assms(2) by auto
  have data: "rdx_data r \<noteq> None" "\<not> rdx_offset r > rdx_size r" using assms(1) by (auto simp: rdx_wf_def)
  have order: "\<not> (rdx_has_previous r \<noteq> 0 \<and> i \<le> rdx_previous_id r)"
    using assms(4) by (simp only: t order_guard [of r i c v]) simp
  have room: "\<not> length v > rdx_size r - (rdx_offset r + length ?k + length ?l)"
    using length_rdx_rest [OF r2(1)] rest2 by simp
  have val: "length (tlv_wire t) - length v = length ?k + length ?l"
    by (simp add: t tlv_wire_def)
  have key: "drop_bit (Suc 0) (tlv_key i c) = i" "ucast (tlv_key i c AND 1) = c"
    using key_parts [OF ok(2,3)] by simp_all
  show ?thesis
    using not_end data order room u1 ok(1)
    by (simp add: mcl_wire_extension_reader_next_def u0 Let_def key
        unat_of_length [OF ok(4)] rdx_after_def rdx_view_def val add.assoc)
       (simp add: t tlv_wire_def)
qed

text \<open>Two uvarints and a value are one extension.\<close>

lemma extension_bytes:
  assumes "take k xs = uvarint_wire key" and "take l (drop k xs) = uvarint_wire vs"
    and "unat vs \<le> length (drop l (drop k xs))" and "v = take (unat vs) (drop l (drop k xs))"
  shows "length v = unat vs"
    and "xs = tlv_wire (drop_bit 1 key, ucast (key AND 1), v) @ drop (unat vs) (drop l (drop k xs))"
proof -
  show len: "length v = unat vs" using assms(3,4) by simp
  have "xs = take k xs @ take l (drop k xs) @ v @ drop (unat vs) (drop l (drop k xs))"
    by (simp only: assms(4) append_take_drop_id)
  also have "take k xs = uvarint_wire (tlv_key (drop_bit 1 key) (ucast (key AND 1)))"
    by (simp only: key_of_parts assms(1))
  also have "take l (drop k xs) = uvarint_wire (of_nat (length v))"
    by (simp only: len assms(2)) simp
  finally show "xs = tlv_wire (drop_bit 1 key, ucast (key AND 1), v) @ drop (unat vs) (drop l (drop k xs))"
    by (simp only: tlv_wire_split)
qed

text \<open>The three outcomes of a call: end of the block, one extension, or a refusal.\<close>

lemma reader_next_cases:
  assumes "rdx_wf r"
  obtains (block_end) "rdx_rest r = []"
      "mcl_wire_extension_reader_next (Some r) (Some e0) (Some h0) = (MCL_WIRE_OK, Some r, Some e0, Some 0)"
  | (extension) t rest where "rdx_rest r = tlv_wire t @ rest" "tlv_ok t" "tlv_above (rdx_previous r) t"
      "mcl_wire_extension_reader_next (Some r) (Some e0) (Some h0) =
         (MCL_WIRE_OK, Some (rdx_after t r), Some (rdx_view t r), Some 1)"
  | (refused) st r' where "st \<noteq> MCL_WIRE_OK"
      "mcl_wire_extension_reader_next (Some r) (Some e0) (Some h0) = (st, Some r', Some e0, Some h0)"
      "rdx_wf r'" "rdx_data r' = rdx_data r" "rdx_size r' = rdx_size r" "rdx_offset r \<le> rdx_offset r'"
proof (cases "rdx_offset r = rdx_size r")
  case True
  then show thesis
    using rdx_rest_Nil_iff [OF assms]
    by (intro block_end) (simp_all add: mcl_wire_extension_reader_next_def)
next
  case not_end: False
  let ?next = "mcl_wire_extension_reader_next (Some r) (Some e0) (Some h0)"
  obtain bytes where data: "rdx_data r = Some bytes" "\<not> rdx_offset r > rdx_size r"
    using assms by (auto simp: rdx_wf_def)
  show thesis
  proof (cases rule: reader_uvarint_cases [OF assms])
    case (2 st)
    then have "?next = (st, Some r, Some e0, Some h0)"
      using not_end data by (simp add: mcl_wire_extension_reader_next_def)
    then show thesis using refused 2 assms by blast
  next
    case (1 key k)
    let ?i = "drop_bit 1 key" and ?c = "ucast (key AND 1) :: u8"
    let ?r1 = "r\<lparr>rdx_offset := rdx_offset r + k\<rparr>"
    note r1 = rdx_skip [OF assms 1(2)]
    show thesis
    proof (cases "?i = 0 \<or> rdx_has_previous r \<noteq> 0 \<and> ?i \<le> rdx_previous_id r")
      case True
      then have "?next = (MCL_WIRE_ERR_NONCANONICAL, Some ?r1, Some e0, Some h0)"
        using not_end data 1(1) by (auto simp: mcl_wire_extension_reader_next_def Let_def)
      then show thesis using refused r1(1) by simp
    next
      case good: False
      show thesis
      proof (cases rule: reader_uvarint_cases [OF r1(1)])
        case (2 st)
        then have "?next = (st, Some ?r1, Some e0, Some h0)"
          using not_end data 1(1) good by (auto simp: mcl_wire_extension_reader_next_def Let_def)
        then show thesis using refused 2(2) r1(1) by simp
      next
        case l: (1 vs l)
        let ?r2 = "r\<lparr>rdx_offset := rdx_offset r + k + l\<rparr>"
        have r2: "rdx_wf ?r2" "rdx_rest ?r2 = drop l (rdx_rest ?r1)"
          using rdx_skip [OF r1(1) l(2)] by simp_all
        show thesis
        proof (cases "unat vs > rdx_size r - (rdx_offset r + k + l)")
          case True
          then have "?next = (MCL_WIRE_ERR_TRUNCATED, Some ?r2, Some e0, Some h0)"
            using not_end data 1(1) good l(1) by (auto simp: mcl_wire_extension_reader_next_def Let_def)
          then show thesis using refused r2(1) by simp
        next
          case False
          let ?v = "take (unat vs) (rdx_rest ?r2)"
          let ?t = "(?i, ?c, ?v)"
          have "length ?v = unat vs \<and> rdx_rest r = tlv_wire ?t @ drop (unat vs) (rdx_rest ?r2)"
            using extension_bytes [OF 1(3) l(3) [unfolded r1(2)] _ refl] False length_rdx_rest [OF r2(1)]
            by (simp add: r1(2) r2(2))
          then have len: "length ?v = unat vs"
            and rest: "rdx_rest r = tlv_wire ?t @ drop (unat vs) (rdx_rest ?r2)" by blast+
          have ok: "tlv_ok ?t"
            using good key_parts_ok [of key] unsigned_less [of vs] len by (simp add: tlv_ok_def)
          have above: "tlv_above (rdx_previous r) ?t"
            using good order_guard [of r ?i ?c ?v] by blast
          from extension [OF rest ok above reader_next_wire [OF assms rest ok above]] show thesis .
        qed
      qed
    qed
  qed
qed

section \<open>Blocks have one reading\<close>

lemma tlv_front:
  assumes "tlv_wire t @ xs = tlv_wire u @ ys" and "tlv_ok t" and "tlv_ok u"
  shows "t = u" and "xs = ys"
proof -
  obtain i c v where t: "t = (i, c, v)" by (cases t)
  obtain j d w where u: "u = (j, d, w)" by (cases u)
  note ok = assms(2,3) [unfolded tlv_ok_def t u prod.case]
  note eq = assms(1) [unfolded t u tlv_wire_split]
  have "tlv_key i c = tlv_key j d" using uvarint_front(1) [OF eq] .
  then have ij: "i = j" "c = d" using key_parts [of i c] key_parts [of j d] ok by metis+
  note eq2 = uvarint_front(2) [OF eq]
  have "(of_nat (length v) :: u32) = of_nat (length w)" using uvarint_front(1) [OF eq2] .
  then have "length v = length w" using unat_of_length ok by metis
  with uvarint_front(2) [OF eq2] ij show "t = u" and "xs = ys" by (simp_all add: t u)
qed

lemma block_wire_inject:
  "block_wire ts = block_wire us \<Longrightarrow> list_all tlv_ok ts \<Longrightarrow> list_all tlv_ok us \<Longrightarrow> ts = us"
proof (induction ts arbitrary: us)
  case Nil
  then show ?case by (cases us) auto
next
  case (Cons t ts)
  then obtain u us' where us: "us = u # us'" by (cases us) auto
  with Cons.prems tlv_front [of t "block_wire ts" u "block_wire us'"] Cons.IH [of us'] show ?case
    by simp
qed

section \<open>Runs of a reader\<close>

text \<open>A caller that calls \<open>mcl_wire_extension_reader_next\<close> again and again, and what it is given.\<close>

inductive reader_run ::
    "mcl_wire_extension_reader \<Rightarrow> mcl_wire_extension list \<Rightarrow> mcl_wire_extension_reader \<Rightarrow> bool" where
  run_start: "reader_run r [] r"
| run_next: "mcl_wire_extension_reader_next (Some r) (Some e0) (Some h0) =
      (MCL_WIRE_OK, Some r', Some e, Some 1) \<Longrightarrow> reader_run r' es r'' \<Longrightarrow> reader_run r (e # es) r''"

inductive_cases reader_run_NilE: "reader_run r [] r'"
inductive_cases reader_run_ConsE: "reader_run r (e # es) r'"

lemma next_delivers:
  assumes "rdx_wf r"
    and "mcl_wire_extension_reader_next (Some r) (Some e0) (Some h0) = (MCL_WIRE_OK, Some r', Some e, Some 1)"
  obtains t rest where "rdx_rest r = tlv_wire t @ rest" "tlv_ok t" "tlv_above (rdx_previous r) t"
    "r' = rdx_after t r" "e = rdx_view t r"
  using assms
  by (cases rule: reader_next_cases [OF assms(1), of e0 h0]) auto

lemma tlv_of_view:
  assumes "rdx_wf r" and "rdx_rest r = tlv_wire t @ rest"
  shows "tlv_of (rdx_view t r) = t" and "readable (rdx_view t r)"
proof -
  obtain i c v where t: "t = (i, c, v)" by (cases t)
  obtain data where data: "rdx_data r = Some data" "rdx_offset r \<le> rdx_size r" "rdx_size r \<le> length data"
    using assms(1) by (auto simp: rdx_wf_def)
  let ?n = "length (tlv_wire t) - length v"
  have n: "tlv_wire t = take ?n (tlv_wire t) @ v" by (simp add: t tlv_wire_def)
  then have len: "length (take ?n (tlv_wire t)) = ?n" by simp
  have "drop ?n (rdx_rest r) = v @ rest"
    using n len assms(2) by (metis append_eq_conv_conj append_assoc)
  then have front: "take (length v) (drop (rdx_offset r + ?n) (take (rdx_size r) data)) = v"
    by (simp add: rdx_rest_def data add.commute)
  then have "length (drop (rdx_offset r + ?n) (take (rdx_size r) data)) \<ge> length v"
    by (metis length_take min.cobounded1)
  then have "length v \<le> rdx_size r - (rdx_offset r + ?n)"
    using data by (simp add: min_absorb2)
  then have room: "rdx_offset r + ?n + length v \<le> rdx_size r \<or> v = []"
    unfolding length_0_conv [symmetric] by linarith
  have v: "take (length v) (drop (rdx_offset r + ?n) data) = v"
  proof (cases "v = []")
    case False
    with room have "length v \<le> rdx_size r - (rdx_offset r + ?n)" by auto
    then have "take (length v) (take (rdx_size r - (rdx_offset r + ?n)) (drop (rdx_offset r + ?n) data)) =
        take (length v) (drop (rdx_offset r + ?n) data)"
      by (simp add: min_absorb1)
    with front show ?thesis by (simp add: drop_take)
  qed simp
  show "tlv_of (rdx_view t r) = t"
    using v by (simp add: tlv_of_def rdx_view_def t ext_bytes_def data)
  show "readable (rdx_view t r)"
  proof -
    have "length v \<le> length (drop (rdx_offset r + ?n) data)"
      using v by (metis length_take min.cobounded1)
    then show ?thesis by (simp add: readable_def rdx_view_def t data)
  qed
qed

lemma ext_ok_view: "tlv_ok t \<Longrightarrow> rdx_wf r \<Longrightarrow> ext_ok (rdx_view t r)"
  by (auto simp: ext_ok_def tlv_ok_def rdx_view_def rdx_wf_def split: prod.splits)

lemma reader_run_consumed:
  assumes "reader_run r es r'" and "rdx_wf r"
  shows "rdx_wf r' \<and> rdx_rest r = block_wire (map tlv_of es) @ rdx_rest r' \<and>
     block_ok (rdx_previous r) (map tlv_of es) \<and> list_all ext_ok es \<and> list_all readable es \<and>
     rdx_size r' = rdx_size r \<and> rdx_data r' = rdx_data r"
  using assms
proof (induction rule: reader_run.induct)
  case (run_next r e0 h0 r' e es r'')
  from next_delivers [OF run_next.prems run_next.hyps(1)] obtain t rest where
    t: "rdx_rest r = tlv_wire t @ rest" "tlv_ok t" "tlv_above (rdx_previous r) t"
       "r' = rdx_after t r" "e = rdx_view t r" by blast
  note after = rdx_after_wf [OF run_next.prems t(1)]
  with run_next.IH t tlv_of_view [OF run_next.prems t(1)] ext_ok_view [OF t(2) run_next.prems]
  show ?case by (auto simp: tlv_above_def) (simp_all add: rdx_after_def)
qed simp

lemma reader_run_block:
  assumes "rdx_wf r" and "rdx_rest r = block_wire ts @ rest" and "block_ok (rdx_previous r) ts"
  shows "\<exists>es r'. reader_run r es r' \<and> map tlv_of es = ts \<and> rdx_rest r' = rest \<and> rdx_wf r'"
  using assms
proof (induction ts arbitrary: r)
  case Nil
  then show ?case using run_start by fastforce
next
  case (Cons t ts)
  from Cons.prems have t: "rdx_rest r = tlv_wire t @ block_wire ts @ rest" "tlv_ok t"
    "tlv_above (rdx_previous r) t" by (simp_all add: tlv_above_def)
  note after = rdx_after_wf [OF Cons.prems(1) t(1)]
  have "block_ok (rdx_previous (rdx_after t r)) ts" using Cons.prems(3) after(3) by simp
  from Cons.IH [OF after(1,2) this] obtain es r' where run: "reader_run (rdx_after t r) es r'"
    "map tlv_of es = ts" "rdx_rest r' = rest" "rdx_wf r'" by blast
  have "reader_run r (rdx_view t r # es) r'"
    by (rule run_next [OF reader_next_wire [OF Cons.prems(1) t, of undefined undefined] run(1)])
  with run(2-4) tlv_of_view(1) [OF Cons.prems(1) t(1)] show ?case
    by (intro exI [of _ "rdx_view t r # es"] exI [of _ r']) simp
qed

end
