(* ===== verification/Wire_Tier0_Facts.thy ===== *)
theory Wire_Tier0_Facts
  imports Wire_Tier0
begin

text \<open>
  What the Tier-0 encoder writes and the decoder reads, reduced to the slots of the layout: the
  bodies of the two \<open>switch\<close> statements are sequences of puts and gets over the same slot list, the
  slots are independent members of the object, and the contract of \<open>bit_field\<close> does the rest.
\<close>

unbundle bit_operations_syntax

section \<open>The two switches are the slot list\<close>

definition slot_fields :: "slot list \<Rightarrow> mcl_wire_tier0 \<Rightarrow> (field_format \<times> u32) list" where
  "slot_fields slots obj = map (\<lambda>(f, g, s). (f, g obj)) slots"

definition slot_readers ::
    "slot list \<Rightarrow> (field_format \<times> (u32 \<Rightarrow> mcl_wire_tier0 \<Rightarrow> mcl_wire_tier0)) list" where
  "slot_readers slots = map (\<lambda>(f, g, s). (f, s)) slots"

definition slot_values :: "slot list \<Rightarrow> bool list \<Rightarrow> mcl_wire_tier0 \<Rightarrow> mcl_wire_tier0" where
  "slot_values slots bs obj = apply_values format_width format_value (slot_readers slots) bs obj"

definition slots_width :: "slot list \<Rightarrow> nat" where
  "slots_width slots = sum_list (map (format_width \<circ> fst) slots)"

lemma slots_width_simps [simp]:
  "slots_width [] = 0"
  "slots_width (x # xs) = format_width (fst x) + slots_width xs"
  by (simp_all add: slots_width_def)

lemma slot_values_simps [simp]:
  "slot_values [] bs obj = obj"
  "slot_values ((f, g, s) # xs) bs obj =
     slot_values xs (drop (format_width f) bs) (s (format_value f (take (format_width f) bs)) obj)"
  by (simp_all add: slot_values_def slot_readers_def)

lemma slot_fields_simps [simp]:
  "slot_fields [] obj = []"
  "slot_fields ((f, g, s) # xs) obj = (f, g obj) # slot_fields xs obj"
  by (simp_all add: slot_fields_def)

lemma length_slot_fields_bits [simp]:
  "length (field_bits format_width (slot_fields slots obj)) = slots_width slots"
  by (induction slots) auto

lemma slot_readers_width: "sum_list (map (format_width \<circ> fst) (slot_readers slots)) = slots_width slots"
  by (induction slots) (auto simp: slot_readers_def)

lemma kind_cases:
  assumes "kind \<in> {0::u8, 1, 2, 3, 4, 5, 6}"
  obtains "kind = 0" | "kind = 1" | "kind = 2" | "kind = 3" | "kind = 4" | "kind = 5" | "kind = 6"
  using assms by auto

lemma put_format_eqs: "mcl_write_u v n = put_format (Unsigned n) v" "mcl_write_s v n = put_format (Signed n) v"
  by simp_all

lemma get_into_eqs:
  "get_into mcl_read_u n upd = get_into get_format (Unsigned n) upd"
  "get_into mcl_read_s n upd = get_into get_format (Signed n) upd"
  by (simp_all add: get_into_def)

lemma mcl_try_skip: "mcl_try (\<lambda>w. (MCL_WIRE_OK, w)) rest = rest"
  by (rule ext) simp

lemma encode_body_slots:
  assumes "obj_kind obj \<in> {0, 1, 2, 3, 4, 5, 6}"
  shows "encode_body major obj =
     put_all put_format (slot_fields (tier0_slots major (obj_kind obj)) obj)"
  using assms
  by (cases rule: kind_cases)
     (simp_all add: encode_body_def slot_fields_def tier0_slots_def Let_def mcl_try_skip)

lemma decode_fields_slots:
  assumes "kind \<in> {0, 1, 2, 3, 4, 5, 6}"
  shows "decode_fields major kind = get_all get_format (slot_readers (tier0_slots major kind))"
  using assms
  by (cases rule: kind_cases)
     (simp_all add: decode_fields_def slot_readers_def tier0_slots_def get_into_eqs mcl_try_skip)

section \<open>The slots\<close>

lemma slots_legal: "slot \<in> set (tier0_slots major kind) \<Longrightarrow> format_legal (fst slot)"
  by (auto simp: tier0_slots_def split: if_splits)

lemma slots_width_encoded_size:
  assumes "kind_carried major kind"
  shows "48 + slots_width (tier0_slots major kind) \<le> 8 * mcl_wire_tier0_encoded_size_at_major major kind"
    and "8 * mcl_wire_tier0_encoded_size_at_major major kind < 48 + slots_width (tier0_slots major kind) + 8"
  using assms
  by (auto simp: kind_carried_cases slots_width_def tier0_slots_def
      mcl_wire_tier0_encoded_size_at_major_def mcl_wire_tier0_encoded_size_def
      mcl_wire_kind_allowed_at_major_def)

text \<open>
  A slot gives back the value stored in it, and the slots stored later leave it alone; no slot
  touches the kind, the priority or the source reference.
\<close>

primrec slots_independent :: "slot list \<Rightarrow> bool" where
  "slots_independent [] \<longleftrightarrow> True"
| "slots_independent (x # xs) \<longleftrightarrow>
     (case x of (f, g, s) \<Rightarrow>
        (\<forall>v obj. format_fits f v \<longrightarrow> g (s v obj) = v) \<and>
        (\<forall>(f', g', s') \<in> set xs. \<forall>v obj. g (s' v obj) = g obj)) \<and>
     slots_independent xs"

lemma fits_u_bits: "fits_u n v \<Longrightarrow> bit v k \<Longrightarrow> k < n"
  unfolding fits_u_def by (rule in_range_bits)

lemma ucast_narrow_u8: "fits_u n v \<Longrightarrow> n \<le> 8 \<Longrightarrow> ucast (ucast v :: u8) = v"
  by (rule bit_eqI, simp only: word_bits_only) (auto dest: fits_u_bits)

lemma ucast_narrow_u16: "fits_u n v \<Longrightarrow> n \<le> 16 \<Longrightarrow> ucast (ucast v :: u16) = v"
  by (rule bit_eqI, simp only: word_bits_only) (auto dest: fits_u_bits)

lemma fits_s_bits:
  assumes "fits_s n v" and "0 < n" and "n < 32" and "n - 1 \<le> j" and "j < 32"
  shows "bit v j \<longleftrightarrow> bit v (n - 1)"
proof -
  have "signed_take_bit (n - 1) v = v"
    using assms(1-3) by (simp add: fits_s_iff_signed_take_bit)
  moreover have "bit (signed_take_bit (n - 1) v) j \<longleftrightarrow> bit v (n - 1)"
    using assms(4,5) by (auto simp: bit_signed_take_bit_iff min_def)
  ultimately show ?thesis by simp
qed

lemma scast_narrow:
  assumes "fits_s n v" and "0 < n" and "n \<le> 16"
  shows "scast (ucast v :: s16) = v"
proof (rule bit_eqI)
  fix k
  assume "possible_bit TYPE(32 word) k"
  then have k: "k < 32" by (simp add: possible_bit_word)
  have same: "bit v j \<longleftrightarrow> bit v (n - 1)" if "n - 1 \<le> j" "j < 32" for j
    using fits_s_bits [of n v j] assms that by simp
  have "bit (scast (ucast v :: s16) :: u32) k \<longleftrightarrow> bit v (min k 15)"
    using k by (auto simp: bit_signed_iff bit_unsigned_iff min_def possible_bit_word)
  also have "\<dots> \<longleftrightarrow> bit v k"
    using same [of 15] same [of k] assms(3) k by (cases "k \<le> 15") simp_all
  finally show "bit (scast (ucast v :: s16) :: u32) k \<longleftrightarrow> bit v k" .
qed

lemma slots_independent_tier0:
  "kind \<in> {0, 1, 2, 3, 4, 5, 6} \<Longrightarrow> slots_independent (tier0_slots major kind)"
  by (erule kind_cases)
     (simp_all add: tier0_slots_def ucast_narrow_u8 ucast_narrow_u16 scast_narrow)

lemma slots_frame:
  assumes "slot \<in> set (tier0_slots major kind)"
  shows "obj_kind (snd (snd slot) v obj) = obj_kind obj"
    and "obj_priority (snd (snd slot) v obj) = obj_priority obj"
    and "obj_source_ref (snd (snd slot) v obj) = obj_source_ref obj"
  using assms by (auto simp: tier0_slots_def split: if_splits)

section \<open>The layout after the header\<close>

definition tier0_layout :: "u8 \<Rightarrow> mcl_wire_kind \<Rightarrow> slot list" where
  "tier0_layout major kind =
     (Unsigned 32, obj_source_ref, \<lambda>v. obj_source_ref_update (\<lambda>_. v)) # tier0_slots major kind"

text \<open>A getter left alone by every later slot keeps its value.\<close>

lemma slot_values_frame:
  assumes "\<forall>(f, g, s) \<in> set slots. \<forall>v obj. p (s v obj) = p obj"
  shows "p (slot_values slots bs obj) = p obj"
  using assms
proof (induction slots arbitrary: bs obj)
  case (Cons x xs)
  obtain f g s where x: "x = (f, g, s)" by (cases x)
  with Cons.prems have "p (s v obj) = p obj" for v by auto
  with Cons x show ?case by simp
qed simp

text \<open>What the fields of an object just read are, bit for bit, and that each is in its range.\<close>

lemma slot_fields_values:
  assumes "slots_independent slots" and "\<forall>x \<in> set slots. format_legal (fst x)"
    and "slots_width slots \<le> length bs"
  shows "field_bits format_width (slot_fields slots (slot_values slots bs obj)) =
           take (slots_width slots) bs"
    and "\<forall>(f, v) \<in> set (slot_fields slots (slot_values slots bs obj)). format_fits f v"
proof -
  have "field_bits format_width (slot_fields slots (slot_values slots bs obj)) =
           take (slots_width slots) bs \<and>
        (\<forall>(f, v) \<in> set (slot_fields slots (slot_values slots bs obj)). format_fits f v)"
    using assms
  proof (induction slots arbitrary: bs obj)
    case (Cons x xs)
    obtain f g s where x: "x = (f, g, s)" by (cases x)
    let ?v = "format_value f (take (format_width f) bs)"
    let ?rest = "slot_values xs (drop (format_width f) bs) (s ?v obj)"
    have chunk: "length (take (format_width f) bs) = format_width f"
      using Cons.prems(3) x by simp
    have fits: "format_fits f ?v" and bits: "to_bits (format_width f) ?v = take (format_width f) bs"
      using Cons.prems(2) x chunk by (auto intro: ff.fits_value_of ff.bits_value_of)
    have "g ?rest = g (s ?v obj)"
      using Cons.prems(1) x by (intro slot_values_frame) auto
    also have "\<dots> = ?v"
      using Cons.prems(1) x fits by simp
    finally have g: "g ?rest = ?v" .
    from Cons.IH [of "drop (format_width f) bs" "s ?v obj"] Cons.prems x fits
    show ?case by (simp add: g bits take_add)
  qed simp
  then show "field_bits format_width (slot_fields slots (slot_values slots bs obj)) =
           take (slots_width slots) bs"
    and "\<forall>(f, v) \<in> set (slot_fields slots (slot_values slots bs obj)). format_fits f v"
    by blast+
qed

text \<open>Reading back what an object's fields wrote stores each of its fields.\<close>

lemma slot_values_fields:
  assumes "\<forall>x \<in> set slots. format_legal (fst x)"
    and "\<forall>(f, v) \<in> set (slot_fields slots obj). format_fits f v"
  shows "slot_values slots (field_bits format_width (slot_fields slots obj) @ rest) obj0 =
           fold (\<lambda>(f, g, s). s (g obj)) slots obj0"
  using assms
proof (induction slots arbitrary: obj0)
  case (Cons x xs)
  obtain f g s where x: "x = (f, g, s)" by (cases x)
  with Cons show ?case by (simp add: ff.value_of_bits)
qed simp

lemma layout_legal: "x \<in> set (tier0_layout major kind) \<Longrightarrow> format_legal (fst x)"
  by (auto simp: tier0_layout_def dest: slots_legal)

lemma layout_independent:
  assumes "kind \<in> {0, 1, 2, 3, 4, 5, 6}"
  shows "slots_independent (tier0_layout major kind)"
  using slots_independent_tier0 [OF assms] slots_frame(3)
  by (fastforce simp: tier0_layout_def)

lemma layout_frame:
  "obj_kind (slot_values (tier0_layout major kind) bs obj) = obj_kind obj"
  "obj_priority (slot_values (tier0_layout major kind) bs obj) = obj_priority obj"
  by (rule slot_values_frame, use slots_frame in \<open>fastforce simp: tier0_layout_def\<close>)+

section \<open>The wire form of an object\<close>

text \<open>
  Written independently of the writer: the two header bytes, the source reference, the fields of
  the body, and zero bits up to the next byte boundary.
\<close>

definition tier0_header :: "u8 \<Rightarrow> mcl_wire_tier0 \<Rightarrow> mcl_wire_header" where
  "tier0_header major obj =
     \<lparr>hdr_major_version = major, hdr_category = fst (mcl_kind_to_code (obj_kind obj)),
      hdr_opcode = snd (mcl_kind_to_code (obj_kind obj)), hdr_priority = obj_priority obj,
      hdr_extension_present = 0\<rparr>"

definition tier0_padding :: "u8 \<Rightarrow> mcl_wire_kind \<Rightarrow> nat" where
  "tier0_padding major kind =
     8 * mcl_wire_tier0_encoded_size_at_major major kind - 16 - slots_width (tier0_layout major kind)"

definition tier0_payload :: "u8 \<Rightarrow> mcl_wire_tier0 \<Rightarrow> bool list" where
  "tier0_payload major obj =
     field_bits format_width (slot_fields (tier0_layout major (obj_kind obj)) obj) @
     replicate (tier0_padding major (obj_kind obj)) False"

definition tier0_wire :: "u8 \<Rightarrow> mcl_wire_tier0 \<Rightarrow> u8 list" where
  "tier0_wire major obj = header_bytes (tier0_header major obj) @ pack (tier0_payload major obj)"

definition fields_fit :: "u8 \<Rightarrow> mcl_wire_tier0 \<Rightarrow> bool" where
  "fields_fit major obj \<longleftrightarrow>
     (\<forall>(f, v) \<in> set (slot_fields (tier0_slots major (obj_kind obj)) obj). format_fits f v)"

definition tier0_encodable :: "u8 \<Rightarrow> mcl_wire_tier0 \<Rightarrow> bool" where
  "tier0_encodable major obj \<longleftrightarrow>
     kind_carried major (obj_kind obj) \<and> obj_priority obj \<le> 3 \<and> fields_fit major obj"

lemma length_header_bytes [simp]: "length (header_bytes h) = 2"
  by (simp add: header_bytes_def)

lemma layout_width_encoded_size:
  assumes "kind_carried major kind"
  shows "16 + slots_width (tier0_layout major kind) + tier0_padding major kind =
           8 * mcl_wire_tier0_encoded_size_at_major major kind"
    and "tier0_padding major kind < 8"
  using slots_width_encoded_size [OF assms]
  by (auto simp: tier0_padding_def tier0_layout_def)

lemma length_tier0_payload:
  assumes "kind_carried major (obj_kind obj)"
  shows "length (tier0_payload major obj) =
           8 * (mcl_wire_tier0_encoded_size_at_major major (obj_kind obj) - 2)"
  using layout_width_encoded_size [OF assms] by (simp add: tier0_payload_def)

lemma bits_of_tier0_wire:
  assumes "kind_carried major (obj_kind obj)"
  shows "bits_of (tier0_wire major obj) =
           bits_of (header_bytes (tier0_header major obj)) @ tier0_payload major obj"
  using length_tier0_payload [OF assms] by (simp add: tier0_wire_def bits_of_pack)

lemma length_tier0_wire:
  assumes "kind_carried major (obj_kind obj)"
  shows "length (tier0_wire major obj) = mcl_wire_tier0_encoded_size_at_major major (obj_kind obj)"
  using length_tier0_payload [OF assms] encoded_size_bounds [OF assms]
  by (simp add: tier0_wire_def) linarith

lemma layout_fits: "(\<forall>(f, v) \<in> set (slot_fields (tier0_layout major (obj_kind obj)) obj). format_fits f v)
    \<longleftrightarrow> fields_fit major obj"
  by (simp add: tier0_layout_def fields_fit_def fits_u_def take_bit_word_eq_self)

lemma tier0_header_in_range:
  assumes "kind_carried major (obj_kind obj)"
  shows "header_in_range (tier0_header major obj) \<longleftrightarrow> obj_priority obj \<le> 3"
  using assms kind_to_code_in_range [OF kind_carried_small [OF assms]]
  by (auto simp: header_in_range_def tier0_header_def kind_carried_cases)

section \<open>The encoder\<close>

lemma source_ref_then_body:
  assumes "obj_kind obj \<in> {0, 1, 2, 3, 4, 5, 6}"
  shows "mcl_try (mcl_write_u (obj_source_ref obj) 32) (encode_body major obj) =
           put_all put_format (slot_fields (tier0_layout major (obj_kind obj)) obj)"
  by (simp add: tier0_layout_def encode_body_slots [OF assms])

lemma mcl_zero_bytes_result: "n \<le> length bs \<Longrightarrow> mcl_zero_bytes bs n = replicate n 0 @ drop n bs"
  by (simp add: mcl_zero_bytes_def fold_store_bytes map_replicate_const)

text \<open>The writer after the header: everything up to the encoded size is still zero.\<close>

definition body_writer :: "mcl_wire_header \<Rightarrow> nat \<Rightarrow> u8 list \<Rightarrow> mcl_bit_writer" where
  "body_writer h sz bs =
     \<lparr>wr_buffer = header_bytes h @ replicate (sz - 2) 0 @ drop sz bs,
      wr_capacity_bits = sz * 8, wr_position = 16\<rparr>"

lemma body_writer_ok:
  assumes "2 \<le> sz" and "sz \<le> length bs"
  shows "writer_ok (body_writer h sz bs)"
proof -
  have "\<not> bits_of (header_bytes h @ replicate (sz - 2) 0 @ drop sz bs) ! k"
    if "16 \<le> k" "k < sz * 8" for k
  proof -
    have "k - 16 < 8 * (sz - 2)" using that assms by linarith
    with that show ?thesis by (simp add: nth_append)
  qed
  then show ?thesis using assms by (simp add: body_writer_def writer_ok_def)
qed

lemma encode_after_guards:
  assumes "kind_carried major (obj_kind obj)"
    and "mcl_wire_tier0_encoded_size_at_major major (obj_kind obj) = sz"
    and "sz \<le> cap" and "sz \<le> length bs"
  shows "mcl_wire_tier0_encode_at_major major (Some obj) (Some bs) cap (Some w) =
     (if obj_priority obj \<le> 3
      then case put_all put_format (slot_fields (tier0_layout major (obj_kind obj)) obj)
                  (Some (body_writer (tier0_header major obj) sz bs)) of
             (st, wr) \<Rightarrow> (st, map_option wr_buffer wr, if st = MCL_WIRE_OK then Some sz else Some w)
      else (MCL_WIRE_ERR_RANGE, Some (replicate sz 0 @ drop sz bs), Some w))"
proof -
  have small: "obj_kind obj \<in> {0, 1, 2, 3, 4, 5, 6}"
    using assms(1) by (rule kind_carried_small)
  have two: "2 \<le> sz" and pos: "sz \<noteq> 0"
    using encoded_size_bounds [OF assms(1)] assms(2) by auto
  obtain zs where zs: "replicate sz 0 = 0 # 0 # (zs :: u8 list)" "zs = replicate (sz - 2) 0"
    using two by (cases sz; cases "sz - 1") auto
  obtain c p where code: "mcl_kind_to_code (obj_kind obj) = (c, p)" by (cases "mcl_kind_to_code (obj_kind obj)")
  then have hdr: "\<lparr>hdr_major_version = major, hdr_category = c, hdr_opcode = p,
      hdr_priority = obj_priority obj, hdr_extension_present = 0\<rparr> = tier0_header major obj"
    by (simp add: tier0_header_def)
  note enc = mcl_wire_header_encode_result [of "[0, 0]" "tier0_header major obj", simplified]
  have buf: "(replicate sz 0 @ drop sz bs)[0 := header_bytes (tier0_header major obj) ! 0,
      Suc 0 := header_bytes (tier0_header major obj) ! Suc 0] =
      wr_buffer (body_writer (tier0_header major obj) sz bs)"
    using zs by (simp add: body_writer_def header_bytes_def)
  have wr: "\<lparr>wr_buffer = wr_buffer (body_writer h sz bs), wr_capacity_bits = sz * 8,
      wr_position = 16\<rparr> = body_writer h sz bs" for h
    by (simp add: body_writer_def)
  show ?thesis
    using assms(2-4) pos
    by (simp add: mcl_wire_tier0_encode_at_major_def Let_def mcl_zero_bytes_result code hdr enc
        tier0_header_in_range [OF assms(1)] source_ref_then_body [OF small] buf wr not_less)
qed

lemma body_writer_emit:
  assumes "2 \<le> sz" and "sz \<le> length bs" and "16 + length cs \<le> 8 * sz"
  shows "bits_of (wr_buffer (emit cs (body_writer h sz bs))) =
           bits_of (header_bytes h) @ cs @ replicate (8 * sz - 16 - length cs) False @
           bits_of (drop sz bs)"
proof -
  have "8 * (sz - 2) - length cs = 8 * sz - 16 - length cs"
    and "length cs - 8 * (sz - 2) = 0" using assms by linarith+
  moreover have "bits_of (wr_buffer (emit cs (body_writer h sz bs))) =
      take 16 (bits_of (wr_buffer (body_writer h sz bs))) @ cs @
      drop (16 + length cs) (bits_of (wr_buffer (body_writer h sz bs)))"
    using bits_of_emit [OF body_writer_ok [OF assms(1,2), of h], of cs] assms(3)
    by (simp add: body_writer_def)
  ultimately show ?thesis by (simp add: body_writer_def)
qed

lemma encode_success:
  assumes "tier0_encodable major obj"
    and "mcl_wire_tier0_encoded_size_at_major major (obj_kind obj) = sz"
    and "sz \<le> cap" and "sz \<le> length bs"
  shows "mcl_wire_tier0_encode_at_major major (Some obj) (Some bs) cap (Some w) =
           (MCL_WIRE_OK, Some (tier0_wire major obj @ drop sz bs), Some sz)"
proof -
  let ?fs = "slot_fields (tier0_layout major (obj_kind obj)) obj"
  let ?w = "body_writer (tier0_header major obj) sz bs"
  have carried: "kind_carried major (obj_kind obj)" and prio: "obj_priority obj \<le> 3"
    and fits: "\<forall>(f, v) \<in> set ?fs. format_fits f v"
    using assms(1) by (simp_all add: tier0_encodable_def layout_fits)
  have two: "2 \<le> sz" using encoded_size_bounds [OF carried] assms(2) by simp
  have len: "16 + length (field_bits format_width ?fs) \<le> 8 * sz"
    using layout_width_encoded_size(1) [OF carried] assms(2) by simp
  have "put_all put_format ?fs (Some ?w) = (MCL_WIRE_OK, Some (emit (field_bits format_width ?fs) ?w))"
  proof -
    have legal: "\<forall>(f, v) \<in> set ?fs. format_legal f"
      using layout_legal by (fastforce simp: slot_fields_def)
    have "takeWhile (\<lambda>(f, v). format_fits f v) ?fs = ?fs"
      using fits by (simp add: takeWhile_eq_all_conv)
    with ff.put_all_result [OF legal, of ?w] fits len show ?thesis
      by (simp add: body_writer_def mult.commute)
  qed
  moreover have "wr_buffer (emit (field_bits format_width ?fs) ?w) = tier0_wire major obj @ drop sz bs"
    using body_writer_emit [OF two assms(4) len] layout_width_encoded_size(1) [OF carried] assms(2)
    by (simp add: bits_of_inject [symmetric] bits_of_tier0_wire [OF carried] tier0_payload_def
        tier0_padding_def)
  ultimately show ?thesis
    using encode_after_guards [OF carried assms(2-4)] prio by simp
qed

lemma encode_out_of_range:
  assumes "kind_carried major (obj_kind obj)" and "\<not> tier0_encodable major obj"
    and "mcl_wire_tier0_encoded_size_at_major major (obj_kind obj) = sz"
    and "sz \<le> cap" and "sz \<le> length bs"
  shows "\<exists>cs. length cs = sz \<and>
     mcl_wire_tier0_encode_at_major major (Some obj) (Some bs) cap (Some w) =
       (MCL_WIRE_ERR_RANGE, Some (cs @ drop sz bs), Some w)"
proof (cases "obj_priority obj \<le> 3")
  case False
  with encode_after_guards [OF assms(1,3-5), of w] show ?thesis
    by (intro exI [of _ "replicate sz 0"]) simp
next
  case True
  let ?fs = "slot_fields (tier0_layout major (obj_kind obj)) obj"
  let ?done = "takeWhile (\<lambda>(f, v). format_fits f v) ?fs"
  let ?w = "body_writer (tier0_header major obj) sz bs"
  have two: "2 \<le> sz" using encoded_size_bounds [OF assms(1)] assms(3) by simp
  have len: "16 + length (field_bits format_width ?fs) \<le> 8 * sz"
    using layout_width_encoded_size(1) [OF assms(1)] assms(3) by simp
  have len': "16 + length (field_bits format_width ?done) \<le> 8 * sz"
    using len length_field_bits_takeWhile [of format_width "\<lambda>(f, v). format_fits f v" ?fs]
    by linarith
  have legal: "\<forall>(f, v) \<in> set ?fs. format_legal f"
    using layout_legal by (fastforce simp: slot_fields_def)
  have "\<not> (\<forall>(f, v) \<in> set ?fs. format_fits f v)"
    using assms(1,2) True by (simp add: tier0_encodable_def layout_fits)
  with ff.put_all_result [OF legal, of ?w] len have put: "put_all put_format ?fs (Some ?w) =
      (MCL_WIRE_ERR_RANGE, Some (emit (field_bits format_width ?done) ?w))"
    by (auto simp: body_writer_def mult.commute)
  let ?buf = "wr_buffer (emit (field_bits format_width ?done) ?w)"
  have "bits_of (drop sz ?buf) = bits_of (drop sz bs)"
    using body_writer_emit [OF two assms(5) len'] len' by (simp add: bits_of_drop)
  then have "drop sz ?buf = drop sz bs" by (simp add: bits_of_inject)
  moreover have "length ?buf = length bs" using two assms(5) by (simp add: body_writer_def)
  ultimately obtain cs where "?buf = cs @ drop sz bs" "length cs = sz"
    using assms(5) append_take_drop_id [of sz ?buf] length_take [of sz ?buf] by (metis min.absorb2)
  moreover have "mcl_wire_tier0_encode_at_major major (Some obj) (Some bs) cap (Some w) =
      (MCL_WIRE_ERR_RANGE, Some ?buf, Some w)"
    using encode_after_guards [OF assms(1,3-5), of w] True by (simp add: put)
  ultimately show ?thesis by auto
qed

text \<open>The three outcomes together, in the order of the code's checks.\<close>

lemma encode_status:
  assumes "cap \<le> length bs"
  shows "fst (mcl_wire_tier0_encode_at_major major (Some obj) (Some bs) cap (Some w)) =
     (if \<not> kind_carried major (obj_kind obj) then MCL_WIRE_ERR_UNSUPPORTED_SEMANTIC
      else if cap < mcl_wire_tier0_encoded_size_at_major major (obj_kind obj)
      then MCL_WIRE_ERR_BUFFER_TOO_SMALL
      else if tier0_encodable major obj then MCL_WIRE_OK
      else MCL_WIRE_ERR_RANGE)"
proof -
  let ?sz = "mcl_wire_tier0_encoded_size_at_major major (obj_kind obj)"
  consider "\<not> kind_carried major (obj_kind obj)" | "kind_carried major (obj_kind obj)" "cap < ?sz"
    | "kind_carried major (obj_kind obj)" "?sz \<le> cap"
    by linarith
  then show ?thesis
  proof cases
    case 3
    with encode_success [of major obj ?sz cap bs w] encode_out_of_range [of major obj ?sz cap bs w]
      assms
    show ?thesis by auto
  qed (use encoded_size_at_major_pos [of major "obj_kind obj"] in
       \<open>auto simp: mcl_wire_tier0_encode_at_major_def Let_def\<close>)
qed

section \<open>The decoder\<close>

definition wire_header :: "u8 list \<Rightarrow> mcl_wire_header" where
  "wire_header bs = header_of (bs ! 0) (bs ! 1)"

lemma wire_header_eq: "header_of (bs ! 0) (bs ! Suc 0) = wire_header bs"
  by (simp add: wire_header_def)

abbreviation wire_major :: "u8 list \<Rightarrow> u8" where
  "wire_major bs \<equiv> hdr_major_version (wire_header bs)"

definition wire_kind :: "u8 list \<Rightarrow> mcl_wire_kind option" where
  "wire_kind bs =
     (case mcl_code_to_kind (hdr_category (wire_header bs)) (hdr_opcode (wire_header bs)) (Some 0) of
        (st, k) \<Rightarrow>
          if st = MCL_WIRE_OK \<and> kind_carried (wire_major bs) (the k) then k else None)"

text \<open>The object in the bytes, and whether the padding after it is zero.\<close>

definition wire_object :: "u8 list \<Rightarrow> mcl_wire_kind \<Rightarrow> mcl_wire_tier0" where
  "wire_object bs kind =
     slot_values (tier0_layout (wire_major bs) kind) (drop 16 (bits_of bs))
       (zero_object\<lparr>obj_kind := kind, obj_priority := hdr_priority (wire_header bs)\<rparr>)"

definition wire_size :: "u8 list \<Rightarrow> mcl_wire_kind \<Rightarrow> nat" where
  "wire_size bs kind = mcl_wire_tier0_encoded_size_at_major (wire_major bs) kind"

definition wire_padding_zero :: "u8 list \<Rightarrow> mcl_wire_kind \<Rightarrow> bool" where
  "wire_padding_zero bs kind \<longleftrightarrow>
     True \<notin> set (drop (16 + slots_width (tier0_layout (wire_major bs) kind))
                  (bits_of (take (wire_size bs kind) bs)))"

lemma wire_kind_SomeD:
  assumes "wire_kind bs = Some kind"
  shows "kind_carried (wire_major bs) kind"
    and "mcl_kind_to_code kind = (hdr_category (wire_header bs), hdr_opcode (wire_header bs))"
    and "mcl_code_to_kind (hdr_category (wire_header bs)) (hdr_opcode (wire_header bs)) (Some 0) =
           (MCL_WIRE_OK, Some kind)"
proof -
  show code: "mcl_code_to_kind (hdr_category (wire_header bs)) (hdr_opcode (wire_header bs)) (Some 0) =
           (MCL_WIRE_OK, Some kind)"
    and "kind_carried (wire_major bs) kind"
    using assms by (auto simp: wire_kind_def split: prod.splits if_splits)
  show "mcl_kind_to_code kind = (hdr_category (wire_header bs), hdr_opcode (wire_header bs))"
    using kind_to_code_to_kind [OF code] by simp
qed

text \<open>Taking a value consumes no more than its width, so bits behind the layout do not matter.\<close>

lemma slot_values_take:
  "slots_width slots \<le> n \<Longrightarrow> slot_values slots (take n bs) obj = slot_values slots bs obj"
proof (induction slots arbitrary: n bs obj)
  case (Cons x xs)
  obtain f g s where x: "x = (f, g, s)" by (cases x)
  with Cons.prems have "format_width f \<le> n" "slots_width xs \<le> n - format_width f" by simp_all
  with Cons.IH x show ?case by (simp add: drop_take min_absorb1)
qed simp

lemma source_ref_then_fields:
  assumes "kind \<in> {0, 1, 2, 3, 4, 5, 6}"
  shows "mcl_try (get_into mcl_read_u 32 (\<lambda>v. obj_source_ref_update (\<lambda>_. v)))
           (mcl_try (decode_fields major kind) rest) s =
         mcl_try (get_all get_format (slot_readers (tier0_layout major kind))) rest s"
proof -
  have assoc: "mcl_try a (mcl_try b c) s = mcl_try (mcl_try a b) c s" for a b c and s :: 's
    by (simp add: mcl_try_def split: prod.splits)
  show ?thesis
    by (simp only: assoc decode_fields_slots [OF assms])
       (simp add: tier0_layout_def slot_readers_def get_into_eqs)
qed

lemma read_layout:
  assumes "kind_carried major kind"
    and "mcl_wire_tier0_encoded_size_at_major major kind \<le> length bs"
  shows "\<exists>r'. mcl_try (get_all get_format (slot_readers (tier0_layout major kind)))
       (\<lambda>(r, obj). case mcl_require_zero_padding r of (st, r') \<Rightarrow> (st, (r', obj)))
       (Some \<lparr>rd_buffer = bs, rd_size_bits = mcl_wire_tier0_encoded_size_at_major major kind * 8,
              rd_position = 16\<rparr>, obj) =
     (if True \<in> set (drop (16 + slots_width (tier0_layout major kind))
                  (bits_of (take (mcl_wire_tier0_encoded_size_at_major major kind) bs)))
      then MCL_WIRE_ERR_NONCANONICAL else MCL_WIRE_OK,
      (r', slot_values (tier0_layout major kind) (drop 16 (bits_of bs)) obj))"
proof -
  let ?n = "mcl_wire_tier0_encoded_size_at_major major kind" and ?l = "tier0_layout major kind"
  let ?r = "\<lparr>rd_buffer = bs, rd_size_bits = ?n * 8, rd_position = 16\<rparr>"
  have width: "16 + slots_width ?l \<le> 8 * ?n"
    using layout_width_encoded_size(1) [OF assms(1)] by simp
  have ok: "reader_ok ?r" using assms(2) width by (simp add: reader_ok_def)
  have rem: "remaining ?r = take (8 * ?n - 16) (drop 16 (bits_of bs))"
    by (simp add: remaining_def drop_take mult.commute)
  have room: "slots_width ?l \<le> length (remaining ?r)"
    using width assms(2) by (simp add: rem)
  have legal: "\<forall>fu \<in> set (slot_readers ?l). format_legal (fst fu)"
    using layout_legal by (fastforce simp: slot_readers_def)
  have ok': "reader_ok (advance (slots_width ?l) ?r)"
    using ok room by (rule reader_ok_advance)
  have get: "get_all get_format (slot_readers ?l) (Some ?r, obj) =
      (MCL_WIRE_OK, Some (advance (slots_width ?l) ?r), slot_values ?l (drop 16 (bits_of bs)) obj)"
    using ff.get_all_result [OF legal ok, of obj] room slot_values_take [of ?l "8 * ?n - 16"] width
    by (simp add: slot_readers_width slot_values_def [symmetric] rem)
  have rest: "remaining (advance (slots_width ?l) ?r) =
      drop (16 + slots_width ?l) (bits_of (take ?n bs))"
    by (simp add: advance_def bits_of_take remaining_def add.commute mult.commute)
  show ?thesis
    using padding_loop_remaining [OF ok', unfolded rest]
    by (auto simp: mcl_try_def get mcl_require_zero_padding_def split: if_splits)
qed

lemma wire_size_pos:
  assumes "wire_kind bs = Some kind"
  shows "0 < wire_size bs kind"
  using wire_kind_SomeD(1) [OF assms] by (simp add: wire_size_def encoded_size_at_major_pos)

lemma decode_body_refused:
  assumes "2 \<le> n" and "wire_kind bs = None"
  shows "mcl_wire_tier0_decode_body (Some bs) n (Some o0) (Some c0) =
           (MCL_WIRE_ERR_UNSUPPORTED_SEMANTIC, Some o0, Some c0)"
proof -
  let ?h = "wire_header bs"
  from mcl_code_to_kind_cases [of "hdr_category ?h" "hdr_opcode ?h" 0]
  show ?thesis
  proof
    assume "mcl_code_to_kind (hdr_category ?h) (hdr_opcode ?h) (Some 0) =
        (MCL_WIRE_ERR_UNSUPPORTED_SEMANTIC, Some 0)"
    with assms show ?thesis
      by (simp add: mcl_wire_tier0_decode_body_def Let_def wire_header_eq)
  next
    assume "\<exists>kind. mcl_code_to_kind (hdr_category ?h) (hdr_opcode ?h) (Some 0) = (MCL_WIRE_OK, Some kind)"
    then obtain kind where kind: "mcl_code_to_kind (hdr_category ?h) (hdr_opcode ?h) (Some 0) =
        (MCL_WIRE_OK, Some kind)" by blast
    with assms(2) have "mcl_wire_tier0_encoded_size_at_major (wire_major bs) kind = 0"
      using encoded_size_at_major_pos [of "wire_major bs" kind]
      by (simp add: wire_kind_def split: if_splits)
    with assms(1) kind show ?thesis
      by (simp add: mcl_wire_tier0_decode_body_def Let_def wire_header_eq)
  qed
qed

lemma decode_body_accepted:
  assumes "wire_kind bs = Some kind" and "2 \<le> n" and "n \<le> length bs"
  shows "mcl_wire_tier0_decode_body (Some bs) n (Some o0) (Some c0) =
     (if n < wire_size bs kind then (MCL_WIRE_ERR_TRUNCATED, Some o0, Some c0)
      else if wire_padding_zero bs kind
      then (MCL_WIRE_OK, Some (wire_object bs kind), Some (wire_size bs kind))
      else (MCL_WIRE_ERR_NONCANONICAL, Some (wire_object bs kind), Some c0))"
proof -
  note kind = wire_kind_SomeD [OF assms(1)]
  have major: "\<not> (wire_major bs \<noteq> 0 \<and> wire_major bs \<noteq> 1)"
    using kind(1) by (auto simp: kind_carried_cases)
  have pos: "wire_size bs kind \<noteq> 0" using wire_size_pos [OF assms(1)] by simp
  show ?thesis
  proof (cases "n < wire_size bs kind")
    case True
    with assms(2) major kind(3) pos show ?thesis
      by (simp add: mcl_wire_tier0_decode_body_def Let_def wire_header_eq
          wire_size_def del: de_Morgan_conj)
  next
    case False
    then have "mcl_wire_tier0_encoded_size_at_major (wire_major bs) kind \<le> length bs"
      using assms(3) by (simp add: wire_size_def)
    from read_layout [OF kind(1) this, of "zero_object\<lparr>obj_kind := kind, obj_priority := hdr_priority (wire_header bs)\<rparr>"]
    obtain r' where run: "mcl_try (get_into mcl_read_u 32 (\<lambda>v. obj_source_ref_update (\<lambda>_. v)))
          (mcl_try (decode_fields (wire_major bs) kind)
             (\<lambda>(r, obj). case mcl_require_zero_padding r of (st, r') \<Rightarrow> (st, (r', obj))))
          (Some \<lparr>rd_buffer = bs, rd_size_bits = wire_size bs kind * 8, rd_position = 16\<rparr>,
           zero_object\<lparr>obj_kind := kind, obj_priority := hdr_priority (wire_header bs)\<rparr>) =
        (if wire_padding_zero bs kind then MCL_WIRE_OK else MCL_WIRE_ERR_NONCANONICAL,
         (r', wire_object bs kind))"
      by (auto simp: source_ref_then_fields [OF kind_carried_small [OF kind(1)]] wire_object_def
          wire_size_def wire_padding_zero_def)
    show ?thesis
      using False assms(2) major kind(3) pos run
      by (simp add: mcl_wire_tier0_decode_body_def Let_def wire_header_eq
          wire_size_def [symmetric] del: de_Morgan_conj)
  qed
qed

lemma decode_body_short:
  assumes "n < 2"
  shows "mcl_wire_tier0_decode_body (Some bs) n (Some o0) (Some c0) =
           (MCL_WIRE_ERR_TRUNCATED, Some o0, Some c0)"
  using assms by (simp add: mcl_wire_tier0_decode_body_def)

text \<open>Everything a decoder that returned \<open>MCL_WIRE_OK\<close> has established.\<close>

lemma decode_body_OK_iff:
  assumes "n \<le> length bs"
  shows "mcl_wire_tier0_decode_body (Some bs) n (Some o0) (Some c0) =
           (MCL_WIRE_OK, Some obj, Some c) \<longleftrightarrow>
     (\<exists>kind. 2 \<le> n \<and> wire_kind bs = Some kind \<and> wire_size bs kind \<le> n \<and> wire_padding_zero bs kind \<and>
        obj = wire_object bs kind \<and> c = wire_size bs kind)"
proof (cases "n < 2")
  case True
  then show ?thesis by (simp add: decode_body_short)
next
  case False
  then have two: "2 \<le> n" by simp
  show ?thesis
  proof (cases "wire_kind bs")
    case None
    then show ?thesis by (simp add: decode_body_refused [OF two])
  next
    case (Some kind)
    then show ?thesis using two by (auto simp: decode_body_accepted [OF Some two assms] not_less)
  qed
qed

lemma decode_clear_bit:
  assumes "n \<le> length bs"
  shows "mcl_wire_tier0_decode (Some bs) n (Some o0) (Some c0) =
     (if 2 \<le> n \<and> hdr_extension_present (wire_header bs) \<noteq> 0
      then (MCL_WIRE_ERR_UNSUPPORTED_SEMANTIC, Some o0, Some c0)
      else mcl_wire_tier0_decode_body (Some bs) n (Some o0) (Some c0))"
  by (auto simp: mcl_wire_tier0_decode_def wire_header_eq decode_body_short)

section \<open>Round trips\<close>

text \<open>
  What survives the wire: the common members and the body member of the object's kind, at the
  Stable major without the machine class of a PRESENCE; everything else reads back as zero.
\<close>

definition wire_view :: "u8 \<Rightarrow> mcl_wire_tier0 \<Rightarrow> mcl_wire_tier0" where
  "wire_view major obj =
     (let b = obj_body obj; k = obj_kind obj in
      obj\<lparr>obj_body :=
        if k = MCL_WIRE_KIND_PRESENCE
        then zero_body\<lparr>body_presence :=
               if major = MCL_WIRE_STABLE_MAJOR then (body_presence b)\<lparr>presence_machine_class := 0\<rparr>
               else body_presence b\<rparr>
        else if k = MCL_WIRE_KIND_HAZARD then zero_body\<lparr>body_hazard := body_hazard b\<rparr>
        else if k = MCL_WIRE_KIND_REQUEST then zero_body\<lparr>body_request := body_request b\<rparr>
        else if k = MCL_WIRE_KIND_AUTHORITY_CLAIM
        then zero_body\<lparr>body_authority_claim := body_authority_claim b\<rparr>
        else if k = MCL_WIRE_KIND_DEGRADED_STATE
        then zero_body\<lparr>body_degraded_state := body_degraded_state b\<rparr>
        else if k = MCL_WIRE_KIND_TRANSPORT_OFFER
        then zero_body\<lparr>body_transport_offer := body_transport_offer b\<rparr>
        else if k = MCL_WIRE_KIND_TRANSPORT_ACCEPT
        then zero_body\<lparr>body_transport_accept := body_transport_accept b\<rparr>
        else zero_body\<rparr>)"

lemma ucast_widen: "ucast (ucast (v :: u8) :: u32) = v" "ucast (ucast (w :: u16) :: u32) = w"
  by (rule bit_eqI, simp only: word_bits_only, auto)+

lemma ucast_scast_widen: "ucast (scast (w :: s16) :: s32) = w"
proof (rule bit_eqI)
  fix n
  assume "possible_bit TYPE(16 word) n"
  then have "n < 16" by (simp add: possible_bit_word)
  then show "bit (ucast (scast w :: s32) :: s16) n \<longleftrightarrow> bit w n"
    by (cases "n = 15") (auto simp: bit_unsigned_iff bit_signed_iff possible_bit_word min_def)
qed

lemma store_fields_view:
  assumes "obj_kind obj \<in> {0, 1, 2, 3, 4, 5, 6}"
  shows "fold (\<lambda>(f, g, s). s (g obj)) (tier0_layout major (obj_kind obj))
           (zero_object\<lparr>obj_kind := obj_kind obj, obj_priority := obj_priority obj\<rparr>) =
         wire_view major obj"
  using assms
  by (cases rule: kind_cases)
     (simp_all add: tier0_layout_def tier0_slots_def wire_view_def zero_object_def zero_body_def
        ucast_widen ucast_scast_widen)

text \<open>
  The header and the payload, read back. The decoder of the fixed body does not look at the
  extension bit, so the bytes are taken with either value of it.
\<close>

definition object_bytes :: "u8 \<Rightarrow> u8 \<Rightarrow> mcl_wire_tier0 \<Rightarrow> u8 list" where
  "object_bytes x major obj =
     header_bytes (tier0_header major obj\<lparr>hdr_extension_present := x\<rparr>) @ pack (tier0_payload major obj)"

lemma tier0_wire_object_bytes: "tier0_wire major obj = object_bytes 0 major obj"
  by (simp add: tier0_wire_def object_bytes_def tier0_header_def)

lemma length_object_bytes:
  "kind_carried major (obj_kind obj) \<Longrightarrow>
   length (object_bytes x major obj) = mcl_wire_tier0_encoded_size_at_major major (obj_kind obj)"
  using length_tier0_wire [of major obj] by (simp add: tier0_wire_def object_bytes_def)

lemma bits_of_object_bytes:
  "kind_carried major (obj_kind obj) \<Longrightarrow>
   bits_of (object_bytes x major obj) =
     bits_of (header_bytes (tier0_header major obj\<lparr>hdr_extension_present := x\<rparr>)) @ tier0_payload major obj"
  using length_tier0_payload [of major obj] by (simp add: object_bytes_def bits_of_pack)

lemma wire_header_object_bytes:
  assumes "tier0_encodable major obj" and "x \<le> 1"
  shows "wire_header (object_bytes x major obj @ rest) =
           tier0_header major obj\<lparr>hdr_extension_present := x\<rparr>"
proof -
  let ?h = "tier0_header major obj\<lparr>hdr_extension_present := x\<rparr>"
  have "header_in_range (tier0_header major obj)"
    using assms(1) by (simp add: tier0_encodable_def tier0_header_in_range)
  then have "header_in_range ?h" using assms(2) by (simp add: header_in_range_def)
  then have "header_of (header_bytes ?h ! 0) (header_bytes ?h ! 1) = ?h"
    by (rule header_of_header_bytes)
  then show ?thesis by (simp add: wire_header_def object_bytes_def nth_append)
qed

lemma wire_kind_object_bytes:
  assumes "tier0_encodable major obj" and "x \<le> 1"
  shows "wire_kind (object_bytes x major obj @ rest) = Some (obj_kind obj)"
proof -
  have "kind_carried major (obj_kind obj)" using assms(1) by (simp add: tier0_encodable_def)
  then show ?thesis
    using code_to_kind_to_code [OF kind_carried_small, of major "obj_kind obj" 0]
    by (simp add: wire_kind_def wire_header_object_bytes [OF assms] tier0_header_def)
qed

lemma wire_object_object_bytes:
  assumes "tier0_encodable major obj" and "x \<le> 1"
  shows "wire_object (object_bytes x major obj @ rest) (obj_kind obj) = wire_view major obj"
proof -
  have carried: "kind_carried major (obj_kind obj)" using assms(1) by (simp add: tier0_encodable_def)
  let ?l = "tier0_layout major (obj_kind obj)"
  have fits: "\<forall>(f, v) \<in> set (slot_fields ?l obj). format_fits f v"
    using assms(1) by (simp add: layout_fits tier0_encodable_def)
  have legal: "\<forall>y \<in> set ?l. format_legal (fst y)" using layout_legal by blast
  have "drop 16 (bits_of (object_bytes x major obj @ rest)) =
      field_bits format_width (slot_fields ?l obj) @
      replicate (tier0_padding major (obj_kind obj)) False @ bits_of rest"
    by (simp add: bits_of_object_bytes [OF carried] tier0_payload_def)
  then show ?thesis
    using slot_values_fields [OF legal fits] store_fields_view [OF kind_carried_small [OF carried]]
    by (simp add: wire_object_def wire_header_object_bytes [OF assms] tier0_header_def)
qed

lemma wire_padding_object_bytes:
  assumes "tier0_encodable major obj" and "x \<le> 1"
  shows "wire_padding_zero (object_bytes x major obj @ rest) (obj_kind obj)"
    and "wire_size (object_bytes x major obj @ rest) (obj_kind obj) = length (object_bytes x major obj)"
proof -
  have carried: "kind_carried major (obj_kind obj)" using assms(1) by (simp add: tier0_encodable_def)
  show sz: "wire_size (object_bytes x major obj @ rest) (obj_kind obj) = length (object_bytes x major obj)"
    by (simp add: wire_size_def wire_header_object_bytes [OF assms] length_object_bytes [OF carried])
       (simp add: tier0_header_def)
  show "wire_padding_zero (object_bytes x major obj @ rest) (obj_kind obj)"
    by (simp add: wire_padding_zero_def sz wire_header_object_bytes [OF assms]
        bits_of_object_bytes [OF carried] tier0_payload_def) (simp add: tier0_header_def)
qed

lemma decode_body_object_bytes:
  assumes "tier0_encodable major obj" and "x \<le> 1"
    and "length (object_bytes x major obj) \<le> n" and "n \<le> length (object_bytes x major obj @ rest)"
  shows "mcl_wire_tier0_decode_body (Some (object_bytes x major obj @ rest)) n (Some o0) (Some c0) =
     (MCL_WIRE_OK, Some (wire_view major obj), Some (length (object_bytes x major obj)))"
proof -
  have "kind_carried major (obj_kind obj)" using assms(1) by (simp add: tier0_encodable_def)
  then have "10 \<le> length (object_bytes x major obj)"
    by (simp add: length_object_bytes encoded_size_bounds)
  then have "2 \<le> n" using assms(3) by linarith
  then show ?thesis
    unfolding decode_body_OK_iff [OF assms(4)]
    by (intro exI [of _ "obj_kind obj"])
      (simp add: wire_kind_object_bytes [OF assms(1,2)] wire_padding_object_bytes [OF assms(1,2)]
        wire_object_object_bytes [OF assms(1,2)] assms(3))
qed

lemma wire_header_bounds:
  "hdr_priority (wire_header bs) \<le> 3" "hdr_extension_present (wire_header bs) \<le> 1"
  using header_in_range_header_of [of "bs ! 0" "bs ! 1"]
  by (simp_all add: header_in_range_def wire_header_def)

text \<open>The bytes behind the header are the payload of the object they decode to.\<close>

lemma accepted_payload:
  assumes "wire_kind bs = Some kind" and "wire_size bs kind \<le> length bs"
    and "wire_padding_zero bs kind"
    and fields: "field_bits format_width (slot_fields (tier0_layout (wire_major bs) kind) (wire_object bs kind)) =
      take (slots_width (tier0_layout (wire_major bs) kind)) (drop 16 (bits_of bs))"
  shows "tier0_payload (wire_major bs) (wire_object bs kind) = bits_of (drop 2 (take (wire_size bs kind) bs))"
proof -
  let ?l = "tier0_layout (wire_major bs) kind" and ?n = "wire_size bs kind"
  let ?p = "tier0_padding (wire_major bs) kind"
  have k: "obj_kind (wire_object bs kind) = kind" by (simp add: wire_object_def layout_frame)
  have width: "16 + slots_width ?l + ?p = 8 * ?n"
    using layout_width_encoded_size(1) [OF wire_kind_SomeD(1) [OF assms(1)]] by (simp add: wire_size_def)
  have "length (drop (16 + slots_width ?l) (bits_of (take ?n bs))) = ?p"
    using width assms(2) by (simp add: min_absorb2)
  with assms(3) have pad: "drop (16 + slots_width ?l) (bits_of (take ?n bs)) = replicate ?p False"
    by (simp only: wire_padding_zero_def list_eq_iff_nth_eq length_replicate)
       (metis (full_types) nth_mem nth_replicate)
  have "take (slots_width ?l) (drop 16 (bits_of bs)) = take (slots_width ?l) (drop 16 (bits_of (take ?n bs)))"
    using width by (simp add: bits_of_take take_drop min_absorb1)
  then show ?thesis
    by (simp add: tier0_payload_def k fields pad [symmetric] bits_of_drop add.commute)
       (metis append_take_drop_id drop_drop add.commute)
qed

text \<open>An accepted object re-encodes to the bytes it came from.\<close>

lemma accepted_object:
  assumes "wire_kind bs = Some kind" and "wire_size bs kind \<le> length bs"
    and "wire_padding_zero bs kind"
  shows "tier0_encodable (wire_major bs) (wire_object bs kind)"
    and "object_bytes (hdr_extension_present (wire_header bs)) (wire_major bs) (wire_object bs kind) =
           take (wire_size bs kind) bs"
proof -
  let ?obj = "wire_object bs kind" and ?m = "wire_major bs"
  let ?l = "tier0_layout ?m kind" and ?n = "wire_size bs kind"
  note kind = wire_kind_SomeD [OF assms(1)]
  have k: "obj_kind ?obj = kind" and p: "obj_priority ?obj = hdr_priority (wire_header bs)"
    by (simp_all add: wire_object_def layout_frame)
  have width: "16 + slots_width ?l + tier0_padding ?m kind = 8 * ?n"
    using layout_width_encoded_size(1) [OF kind(1)] by (simp add: wire_size_def)
  then have room: "slots_width ?l \<le> length (drop 16 (bits_of bs))" using assms(2) by simp
  have legal: "\<forall>x \<in> set ?l. format_legal (fst x)" using layout_legal by blast
  note fields = slot_fields_values [OF layout_independent [OF kind_carried_small [OF kind(1)]] legal room]
  show "tier0_encodable ?m ?obj"
    using wire_header_bounds(1) [of bs] kind(1) fields(2) layout_fits [of ?m ?obj]
    by (simp add: tier0_encodable_def k p) (simp add: wire_object_def)
  have hdr: "tier0_header ?m ?obj\<lparr>hdr_extension_present := hdr_extension_present (wire_header bs)\<rparr> =
      wire_header bs"
    using kind(2) by (simp add: tier0_header_def k p)
  have "field_bits format_width (slot_fields ?l ?obj) = take (slots_width ?l) (drop 16 (bits_of bs))"
    using fields(1) by (simp add: wire_object_def)
  from accepted_payload [OF assms this]
  have "tier0_payload ?m ?obj = bits_of (drop 2 (take ?n bs))" .
  moreover have "header_bytes (wire_header bs) = take 2 bs"
  proof -
    have "2 \<le> length bs" using assms(2) encoded_size_bounds [OF kind(1)] by (simp add: wire_size_def)
    then have "take 2 bs = [bs ! 0, bs ! 1]" by (cases bs; cases "tl bs") auto
    then show ?thesis by (simp add: wire_header_def header_bytes_header_of)
  qed
  moreover have "2 \<le> ?n" using encoded_size_bounds [OF kind(1)] by (simp add: wire_size_def)
  then have "take 2 bs @ drop 2 (take ?n bs) = take ?n bs"
    by (metis append_take_drop_id min.absorb1 take_take)
  ultimately show "object_bytes (hdr_extension_present (wire_header bs)) ?m ?obj = take ?n bs"
    by (simp add: object_bytes_def hdr pack_bits_of)
qed

text \<open>What a successful decoding says about the bytes, without the reader's vocabulary.\<close>

lemma decode_body_OK_bytes:
  assumes "n \<le> length bs"
    and "mcl_wire_tier0_decode_body (Some bs) n (Some o0) (Some c0) = (MCL_WIRE_OK, Some obj, Some c)"
  shows "tier0_encodable (wire_major bs) obj"
    and "take c bs = object_bytes (hdr_extension_present (wire_header bs)) (wire_major bs) obj"
    and "2 \<le> c" and "c \<le> n" and "wire_view (wire_major bs) obj = obj"
proof -
  from assms(2) obtain kind where kind: "wire_kind bs = Some kind" "wire_size bs kind \<le> n"
    "wire_padding_zero bs kind" "obj = wire_object bs kind" "c = wire_size bs kind"
    unfolding decode_body_OK_iff [OF assms(1)] by blast
  then have sz: "wire_size bs kind \<le> length bs" using assms(1) by linarith
  note acc = accepted_object [OF kind(1) sz kind(3)]
  show enc: "tier0_encodable (wire_major bs) obj" using acc(1) kind(4) by simp
  show bytes: "take c bs = object_bytes (hdr_extension_present (wire_header bs)) (wire_major bs) obj"
    using acc(2) kind(4,5) by simp
  show "2 \<le> c" using encoded_size_bounds [OF wire_kind_SomeD(1) [OF kind(1)]] kind(5)
    by (simp add: wire_size_def)
  show cn: "c \<le> n" using kind(2,5) by simp
  let ?x = "hdr_extension_present (wire_header bs)"
  have x: "?x \<le> 1" by (rule wire_header_bounds(2))
  have "object_bytes ?x (wire_major bs) obj @ drop c bs = bs" by (simp flip: bytes)
  moreover have "length (object_bytes ?x (wire_major bs) obj) \<le> n"
    using cn assms(1) by (simp flip: bytes)
  ultimately have "mcl_wire_tier0_decode_body (Some bs) n (Some o0) (Some c0) =
      (MCL_WIRE_OK, Some (wire_view (wire_major bs) obj), Some (length (object_bytes ?x (wire_major bs) obj)))"
    using decode_body_object_bytes [OF enc x, of n "drop c bs" o0 c0] assms(1) by simp
  with assms(2) show "wire_view (wire_major bs) obj = obj" by simp
qed

end
