(* ===== verification/Wire_Tier0_Ext_Facts.thy ===== *)
theory Wire_Tier0_Ext_Facts
  imports Wire_Tier0_Ext Wire_Reader_Facts Wire_Tier0_Facts
begin

text \<open>
  What encoding and decoding a Tier-0 object with extensions promises: the validation scan accepts
  exactly the well-formed blocks whose critical extensions the caller accepts, and the encoder and
  the decoder are inverse to each other on the wire form of an object with its extensions.
\<close>

unbundle bit_operations_syntax

section \<open>The scan\<close>

text \<open>The answers of the callback on the critical extensions, in order, until the first refusal.\<close>

primrec accept_all ::
    "'u mcl_wire_extension_accept_fn option \<Rightarrow> 'u \<Rightarrow> mcl_wire_extension list \<Rightarrow> bool \<times> 'u" where
  "accept_all accept user [] = (True, user)"
| "accept_all accept user (e # es) =
     (if ext_critical e \<noteq> 0 then
        (case accept of
           None \<Rightarrow> (False, user)
         | Some f \<Rightarrow>
             (case f user (ext_id e) (ext_value e) (ext_value_size e) of
                (answer, user') \<Rightarrow> if answer = 0 then (False, user') else accept_all accept user' es))
      else accept_all accept user es)"

text \<open>The extensions of a block as the callback and the caller of the reader see them.\<close>

primrec rdx_views :: "mcl_wire_extension_reader \<Rightarrow> tlv list \<Rightarrow> mcl_wire_extension list" where
  "rdx_views r [] = []"
| "rdx_views r (t # ts) = rdx_view t r # rdx_views (rdx_after t r) ts"

lemma accept_all_none:
  "accept_all None user es = (list_all (\<lambda>e. ext_critical e = 0) es, user)"
  by (induction es) auto

lemma critical_views: "list_all (\<lambda>e. ext_critical e = 0) (rdx_views r ts) \<longleftrightarrow>
    list_all (\<lambda>(i, c, v). c = 0) ts"
  by (induction ts arbitrary: r) (auto simp: rdx_view_def)

text \<open>The block before the reader, by what the next call of the reader does with it.\<close>

lemma no_block_if_refused:
  assumes "rdx_wf r" and "st \<noteq> MCL_WIRE_OK"
    and "mcl_wire_extension_reader_next (Some r) (Some e0) (Some h0) = (st, r', e', h')"
  shows "\<not> (rdx_rest r = block_wire ts \<and> block_ok (rdx_previous r) ts)"
proof
  assume ts: "rdx_rest r = block_wire ts \<and> block_ok (rdx_previous r) ts"
  show False
  proof (cases ts)
    case Nil
    with ts rdx_rest_Nil_iff [OF assms(1)] assms(2,3) show False
      by (simp add: mcl_wire_extension_reader_next_def)
  next
    case (Cons t us)
    with ts have "rdx_rest r = tlv_wire t @ block_wire us" "tlv_ok t" "tlv_above (rdx_previous r) t"
      by (simp_all add: tlv_above_def)
    from reader_next_wire [OF assms(1) this, of e0 h0] assms(2,3) show False by simp
  qed
qed

lemma block_behind_extension:
  assumes "rdx_rest r = tlv_wire t @ rest" and "tlv_ok t" and "tlv_above (rdx_previous r) t"
  shows "rdx_rest r = block_wire ts \<and> block_ok (rdx_previous r) ts \<longleftrightarrow>
     (\<exists>us. ts = t # us \<and> rest = block_wire us \<and> block_ok (Some (fst t)) us)"
proof
  assume ts: "rdx_rest r = block_wire ts \<and> block_ok (rdx_previous r) ts"
  then have eq: "tlv_wire t @ rest = block_wire ts" using assms(1) by simp
  then obtain u us where "ts = u # us" by (cases ts) auto
  with ts eq tlv_front [of t rest u "block_wire us"] assms(2)
  show "\<exists>us. ts = t # us \<and> rest = block_wire us \<and> block_ok (Some (fst t)) us" by auto
qed (use assms in \<open>auto simp: tlv_above_def\<close>)

text \<open>A round of the scan, by the outcome of that call.\<close>

lemma ext_scan_end:
  "mcl_wire_extension_reader_next (Some r) (Some e0) (Some h0) = (MCL_WIRE_OK, r', e', Some 0) \<Longrightarrow>
   ext_scan accept user r e0 h0 = (MCL_WIRE_OK, user)"
  by (subst ext_scan.simps) simp

lemma ext_scan_refused:
  "mcl_wire_extension_reader_next (Some r) (Some e0) (Some h0) = (st, r', e', h') \<Longrightarrow>
   st \<noteq> MCL_WIRE_OK \<Longrightarrow> ext_scan accept user r e0 h0 = (st, user)"
  by (subst ext_scan.simps) simp

lemma ext_scan_extension:
  "mcl_wire_extension_reader_next (Some r) (Some e0) (Some h0) =
     (MCL_WIRE_OK, Some r', Some e, Some 1) \<Longrightarrow>
   ext_scan accept user r e0 h0 =
     (if ext_critical e \<noteq> 0 then
        (case accept of
           None \<Rightarrow> (MCL_WIRE_ERR_UNSUPPORTED_SEMANTIC, user)
         | Some f \<Rightarrow>
             (case f user (ext_id e) (ext_value e) (ext_value_size e) of
                (answer, user1) \<Rightarrow>
                  if answer = 0 then (MCL_WIRE_ERR_UNSUPPORTED_SEMANTIC, user1)
                  else ext_scan accept user1 r' e 1))
      else ext_scan accept user r' e 1)"
  by (subst ext_scan.simps) (cases accept; simp add: Let_def split: prod.splits)

lemma ext_scan_OK_iff:
  assumes "rdx_wf r"
  shows "ext_scan accept user r e0 h0 = (MCL_WIRE_OK, user') \<longleftrightarrow>
     (\<exists>ts. rdx_rest r = block_wire ts \<and> block_ok (rdx_previous r) ts \<and>
        accept_all accept user (rdx_views r ts) = (True, user'))"
  using assms
proof (induction accept user r e0 h0 arbitrary: user' rule: ext_scan.induct)
  case (1 accept user r e0 h0)
  from "1.prems" show ?case
  proof (cases rule: reader_next_cases [of r e0 h0])
    case block_end
    have empty: "[] = block_wire ts \<longleftrightarrow> ts = []" for ts by (cases ts) auto
    show ?thesis by (simp only: ext_scan_end [OF block_end(2)] block_end(1) empty) (auto simp: eq_commute)
  next
    case (refused st r')
    with no_block_if_refused [OF "1.prems" refused(1,2)] show ?thesis
      using ext_scan_refused [OF refused(2,1), of accept user] refused(1) by auto
  next
    case (extension t rest)
    note after = rdx_after_wf [OF "1.prems" extension(1)]
    note call = extension(4) [symmetric]
    let ?e = "rdx_view t r" and ?r = "rdx_after t r"
    have critical: "ext_scan (Some f) user1 ?r ?e 1 = (MCL_WIRE_OK, user') \<longleftrightarrow>
        (\<exists>us. rest = block_wire us \<and> block_ok (Some (fst t)) us \<and>
           accept_all (Some f) user1 (rdx_views ?r us) = (True, user'))"
      if f: "accept = Some f" "f user (ext_id ?e) (ext_value ?e) (ext_value_size ?e) = (answer, user1)"
        "answer \<noteq> 0" and crit: "ext_critical ?e \<noteq> 0" for f answer user1
      using "1.IH"(1) [OF call refl refl _ _ refl, simplified, OF crit f(1) f(2) [symmetric] f(3) after(1)]
      by (simp add: after f(1))
    have plain: "ext_scan accept user ?r ?e 1 = (MCL_WIRE_OK, user') \<longleftrightarrow>
        (\<exists>us. rest = block_wire us \<and> block_ok (Some (fst t)) us \<and>
           accept_all accept user (rdx_views ?r us) = (True, user'))"
      if "ext_critical ?e = 0"
      using "1.IH"(2) [OF call refl refl _ _ refl, simplified, OF that after(1)] by (simp add: after)
    have views: "(\<exists>ts. rdx_rest r = block_wire ts \<and> block_ok (rdx_previous r) ts \<and>
          accept_all accept user (rdx_views r ts) = (True, user')) \<longleftrightarrow>
        (\<exists>us. rest = block_wire us \<and> block_ok (Some (fst t)) us \<and>
          accept_all accept user (?e # rdx_views ?r us) = (True, user'))"
      using block_behind_extension [OF extension(1-3)] by (metis rdx_views.simps(2))
    show ?thesis
      unfolding ext_scan_extension [OF extension(4)] views
      by (auto simp: critical plain split: option.splits prod.splits)
  qed
qed

section \<open>The wire form of an object with extensions\<close>

text \<open>
  The extension bit is set exactly when there are extensions; the block follows the body with its
  length in front.
\<close>

definition ext_bit :: "tlv list \<Rightarrow> u8" where
  "ext_bit ts = (if ts = [] then 0 else 1)"

definition ext_suffix :: "tlv list \<Rightarrow> u8 list" where
  "ext_suffix ts =
     (if ts = [] then [] else uvarint_wire (of_nat (length (block_wire ts))) @ block_wire ts)"

definition ext_wire :: "u8 \<Rightarrow> mcl_wire_tier0 \<Rightarrow> tlv list \<Rightarrow> u8 list" where
  "ext_wire major obj ts = object_bytes (ext_bit ts) major obj @ ext_suffix ts"

definition ext_encodable :: "u8 \<Rightarrow> mcl_wire_tier0 \<Rightarrow> tlv list \<Rightarrow> bool" where
  "ext_encodable major obj ts \<longleftrightarrow>
     tier0_encodable major obj \<and> block_ok None ts \<and>
     length (block_wire ts) \<le> MCL_WIRE_EXTENSION_BLOCK_MAX"

lemma ext_bit_le [simp]: "ext_bit ts \<le> 1"
  by (simp add: ext_bit_def)

lemma set_extension_bit:
  "(header_bytes h)[Suc 0 := header_bytes h ! Suc 0 OR 1] = header_bytes (h\<lparr>hdr_extension_present := 1\<rparr>)"
  if "hdr_extension_present h = 0"
proof -
  have one: "bit (1 :: 'a::len word) n \<longleftrightarrow> n = 0" for n by (auto simp: bit_1_iff)
  have "(ucast (push_bit 3 (ucast (hdr_opcode h) :: s32) OR push_bit 1 (ucast (hdr_priority h)) OR
        ucast (hdr_extension_present h)) OR 1 :: u8) =
      ucast (push_bit 3 (ucast (hdr_opcode h) :: s32) OR push_bit 1 (ucast (hdr_priority h)) OR
        ucast (1 :: u8))"
    by (rule bit_eqI, simp only: word_bits_only that one) auto
  then show ?thesis by (simp add: header_bytes_def)
qed

lemma set_bit_object_bytes:
  "(object_bytes 0 major obj @ rest)[Suc 0 := (object_bytes 0 major obj @ rest) ! Suc 0 OR 1] =
   object_bytes 1 major obj @ rest"
proof -
  let ?h = "tier0_header major obj\<lparr>hdr_extension_present := 0\<rparr>"
  have "(object_bytes 0 major obj @ rest)[Suc 0 := (object_bytes 0 major obj @ rest) ! Suc 0 OR 1] =
      (header_bytes ?h)[Suc 0 := header_bytes ?h ! Suc 0 OR 1] @ pack (tier0_payload major obj) @ rest"
    by (simp add: object_bytes_def header_bytes_def)
  then show ?thesis using set_extension_bit [of ?h] by (simp add: object_bytes_def)
qed

section \<open>Decoding\<close>

text \<open>The reader that the decoder hands to its caller.\<close>

definition block_reader :: "u8 list \<Rightarrow> nat \<Rightarrow> mcl_wire_extension_reader" where
  "block_reader data n =
     \<lparr>rdx_data = Some data, rdx_size = n, rdx_offset = 0, rdx_previous_id = 0, rdx_has_previous = 0\<rparr>"

lemma reader_init_block [simp]:
  "mcl_wire_extension_reader_init (Some r) (Some data) n = Some (block_reader data n)"
  by (simp add: mcl_wire_extension_reader_init_def block_reader_def)

lemma block_reader_simps [simp]:
  "rdx_rest (block_reader data n) = take n data"
  "rdx_previous (block_reader data n) = None"
  "rdx_wf (block_reader data n) \<longleftrightarrow> n \<le> length data"
  by (simp_all add: block_reader_def rdx_rest_def rdx_previous_def rdx_wf_def)

lemma block_wire_Nil_iff [simp]: "block_wire ts = [] \<longleftrightarrow> ts = []"
  by (cases ts) auto

definition suffix_reader :: "u8 list \<Rightarrow> tlv list \<Rightarrow> mcl_wire_extension_reader" where
  "suffix_reader rest ts =
     (if ts = [] then block_reader rest 0
      else block_reader (drop (length (uvarint_wire (of_nat (length (block_wire ts))))) rest)
             (length (block_wire ts)))"

text \<open>The stages of the decoder behind the fixed body.\<close>

lemma decode_ext_refused_body:
  assumes "mcl_wire_tier0_decode_body (Some bs) n (Some o0) (Some 0) = (st, obj, b)" and "st \<noteq> MCL_WIRE_OK"
  shows "mcl_wire_tier0_decode_ext_accept (Some bs) n (Some o0) (Some r0) accept user (Some c0) =
     (st, obj, Some r0, Some c0, user)"
  using assms decode_body_short [of n bs o0 0]
  by (auto simp: mcl_wire_tier0_decode_ext_accept_def)

lemma decode_ext_no_block:
  assumes "mcl_wire_tier0_decode_body (Some bs) n (Some o0) (Some 0) = (MCL_WIRE_OK, Some obj, Some b)"
    and "2 \<le> n" and "hdr_extension_present (wire_header bs) = 0"
  shows "mcl_wire_tier0_decode_ext_accept (Some bs) n (Some o0) (Some r0) accept user (Some c0) =
     (MCL_WIRE_OK, Some obj, Some (block_reader (drop b bs) 0), Some b, user)"
  using assms by (simp add: mcl_wire_tier0_decode_ext_accept_def wire_header_eq)

lemma decode_ext_block:
  assumes "mcl_wire_tier0_decode_body (Some bs) n (Some o0) (Some 0) = (MCL_WIRE_OK, Some obj, Some b)"
    and "2 \<le> n" and "hdr_extension_present (wire_header bs) \<noteq> 0"
    and "mcl_wire_uvarint_decode (Some (drop b bs)) (n - b) (Some 0) (Some 0) = (st, Some v, Some k)"
  shows "mcl_wire_tier0_decode_ext_accept (Some bs) n (Some o0) (Some r0) accept user (Some c0) =
     (if st \<noteq> MCL_WIRE_OK then (st, Some obj, Some r0, Some c0, user)
      else if v = 0 then (MCL_WIRE_ERR_NONCANONICAL, Some obj, Some r0, Some c0, user)
      else if unat v > MCL_WIRE_EXTENSION_BLOCK_MAX
      then (MCL_WIRE_ERR_RANGE, Some obj, Some r0, Some c0, user)
      else if unat v > n - b - k then (MCL_WIRE_ERR_TRUNCATED, Some obj, Some r0, Some c0, user)
      else case ext_scan accept user (block_reader (drop (b + k) bs) (unat v))
                  \<lparr>ext_id = 0, ext_critical = 0, ext_value = None, ext_value_size = 0\<rparr> 0 of
             (st, user) \<Rightarrow>
               if st \<noteq> MCL_WIRE_OK then (st, Some obj, Some r0, Some c0, user)
               else (MCL_WIRE_OK, Some obj, Some (block_reader (drop (b + k) bs) (unat v)),
                     Some (b + k + unat v), user))"
  using assms
  by (simp add: mcl_wire_tier0_decode_ext_accept_def wire_header_eq Let_def split: prod.split)

lemma uvarint_decode_shape:
  assumes "n \<le> length bs"
  obtains st v k where "mcl_wire_uvarint_decode (Some bs) n (Some 0) (Some 0) = (st, Some v, Some k)"
proof -
  obtain st w where w: "uvarint_result bs n = (st, w)" by (cases "uvarint_result bs n")
  show thesis
  proof (cases w)
    case None
    with w that [of st 0 0] show thesis by (simp add: uvarint_decode_result [OF assms])
  next
    case (Some vk)
    with w that [of st "fst vk" "snd vk"] show thesis
      by (cases vk) (simp add: uvarint_decode_result [OF assms])
  qed
qed

text \<open>What follows the body, when the decoder accepts it.\<close>

definition suffix_accepted ::
    "'u mcl_wire_extension_accept_fn option \<Rightarrow> 'u \<Rightarrow> u8 list \<Rightarrow> tlv list \<Rightarrow> 'u \<Rightarrow> bool" where
  "suffix_accepted accept user rest ts user' \<longleftrightarrow>
     (\<exists>zs. rest = ext_suffix ts @ zs) \<and> block_ok None ts \<and>
     length (block_wire ts) \<le> MCL_WIRE_EXTENSION_BLOCK_MAX \<and>
     accept_all accept user (rdx_views (suffix_reader rest ts) ts) = (True, user')"

lemma unat_block_length:
  "length (block_wire ts) \<le> 256 \<Longrightarrow> unat (of_nat (length (block_wire ts)) :: u32) = length (block_wire ts)"
  by (rule unat_of_length) simp

text \<open>A length field and the block behind it, as the decoder finds them.\<close>

lemma suffix_found:
  assumes "take k rest = uvarint_wire v" and "take (unat v) (drop k rest) = block_wire ts"
    and "k + unat v \<le> length rest" and "v \<noteq> 0"
  shows "ts \<noteq> []" and "length (block_wire ts) = unat v" and "length (ext_suffix ts) = k + unat v"
    and "rest = ext_suffix ts @ drop (k + unat v) rest"
    and "suffix_reader rest ts = block_reader (drop k rest) (unat v)"
proof -
  have "length (take (unat v) (drop k rest)) = unat v" using assms(3) by simp
  then show len: "length (block_wire ts) = unat v" by (simp only: assms(2))
  then show ne: "ts \<noteq> []" using assms(4) by (auto simp: unat_eq_zero)
  have "length (take k rest) = k" using assms(3) by simp
  then have klen: "length (uvarint_wire v) = k" by (simp only: assms(1))
  have suffix: "ext_suffix ts = uvarint_wire v @ block_wire ts" using ne len by (simp add: ext_suffix_def)
  then show "length (ext_suffix ts) = k + unat v" by (simp add: klen len)
  have "rest = take k rest @ take (unat v) (drop k rest) @ drop (k + unat v) rest"
    by (metis append_take_drop_id drop_drop add.commute)
  then show "rest = ext_suffix ts @ drop (k + unat v) rest"
    by (simp only: assms(1,2) suffix append_assoc)
  show "suffix_reader rest ts = block_reader (drop k rest) (unat v)"
    using ne by (simp add: suffix_reader_def len klen)
qed

lemma decode_ext_block_OK:
  assumes body: "mcl_wire_tier0_decode_body (Some bs) n (Some o0) (Some 0) = (MCL_WIRE_OK, Some obj, Some b)"
    and n: "2 \<le> n" "b \<le> n" "n \<le> length bs" and bit: "hdr_extension_present (wire_header bs) \<noteq> 0"
    and run: "mcl_wire_tier0_decode_ext_accept (Some bs) n (Some o0) (Some r0) accept user (Some c0) =
      (MCL_WIRE_OK, obj', r, c, user')"
  obtains ts where "ts \<noteq> []" "obj' = Some obj" "r = Some (suffix_reader (drop b bs) ts)"
    "c = Some (b + length (ext_suffix ts))" "b + length (ext_suffix ts) \<le> n"
    "suffix_accepted accept user (drop b bs) ts user'"
proof -
  have room: "n - b \<le> length (drop b bs)" using n by simp
  obtain st v k where uv: "mcl_wire_uvarint_decode (Some (drop b bs)) (n - b) (Some 0) (Some 0) =
      (st, Some v, Some k)"
    using uvarint_decode_shape [OF room] .
  note run' = run [unfolded decode_ext_block [OF body n(1) bit uv]]
  then have st: "st = MCL_WIRE_OK" and v: "v \<noteq> 0" "unat v \<le> 256" "unat v \<le> n - b - k"
    by (auto split: if_splits)
  let ?r = "block_reader (drop k (drop b bs)) (unat v)"
  have scan: "ext_scan accept user ?r \<lparr>ext_id = 0, ext_critical = 0, ext_value = None, ext_value_size = 0\<rparr> 0 =
      (MCL_WIRE_OK, user')"
    and res: "obj' = Some obj" "r = Some ?r" "c = Some (b + k + unat v)"
    using run' st v by (auto simp: add.commute split: prod.splits if_splits)
  have k: "k \<le> n - b" "take k (drop b bs) = uvarint_wire v"
    using uv st uvarint_decode_OK_iff [OF room, of 0 0 v k] by simp_all
  have fit: "k + unat v \<le> length (drop b bs)" using v(3) k(1) n by simp
  then have "rdx_wf ?r" using n by simp
  from scan [unfolded ext_scan_OK_iff [OF this]] obtain ts where
    ts: "take (unat v) (drop k (drop b bs)) = block_wire ts" "block_ok None ts"
      "accept_all accept user (rdx_views ?r ts) = (True, user')" by auto
  note found = suffix_found [OF k(2) ts(1) fit v(1)]
  have "suffix_accepted accept user (drop b bs) ts user'"
    using found(4) ts(2,3) v(2) unfolding suffix_accepted_def found(2,5) by blast
  then show thesis
    using that [OF found(1) res(1)] res(2,3) v(3) k(1) n by (simp add: found(3,5) add.assoc)
qed

text \<open>With a block behind the body the outcome is that of the scan.\<close>

lemma suffix_reader_simps:
  assumes "ts \<noteq> []"
  shows "rdx_wf (suffix_reader (ext_suffix ts @ zs) ts)"
    and "rdx_rest (suffix_reader (ext_suffix ts @ zs) ts) = block_wire ts"
    and "rdx_previous (suffix_reader (ext_suffix ts @ zs) ts) = None"
  using assms by (simp_all add: suffix_reader_def ext_suffix_def)

lemma decode_ext_scan:
  assumes body: "mcl_wire_tier0_decode_body (Some bs) n (Some o0) (Some 0) = (MCL_WIRE_OK, Some obj, Some b)"
    and n: "2 \<le> n" "n \<le> length bs" and bit: "hdr_extension_present (wire_header bs) = ext_bit ts"
    and ts: "ts \<noteq> []" "length (block_wire ts) \<le> MCL_WIRE_EXTENSION_BLOCK_MAX"
    and zs: "drop b bs = ext_suffix ts @ zs" and len: "b + length (ext_suffix ts) \<le> n"
  shows "mcl_wire_tier0_decode_ext_accept (Some bs) n (Some o0) (Some r0) accept user (Some c0) =
     (case ext_scan accept user (suffix_reader (drop b bs) ts)
             \<lparr>ext_id = 0, ext_critical = 0, ext_value = None, ext_value_size = 0\<rparr> 0 of
        (st, user) \<Rightarrow>
          if st \<noteq> MCL_WIRE_OK then (st, Some obj, Some r0, Some c0, user)
          else (MCL_WIRE_OK, Some obj, Some (suffix_reader (drop b bs) ts),
                Some (b + length (ext_suffix ts)), user))"
proof -
  let ?B = "length (block_wire ts)"
  let ?v = "of_nat ?B :: u32" and ?k = "length (uvarint_wire (of_nat ?B))"
  have suffix: "ext_suffix ts = uvarint_wire ?v @ block_wire ts" using ts(1) by (simp add: ext_suffix_def)
  have room: "n - b \<le> length (drop b bs)" using n by simp
  have uv: "mcl_wire_uvarint_decode (Some (drop b bs)) (n - b) (Some 0) (Some 0) =
      (MCL_WIRE_OK, Some ?v, Some ?k)"
    using len suffix zs by (subst uvarint_decode_OK_iff [OF room]) simp
  have unat: "unat ?v = ?B" using unat_block_length ts(2) by simp
  have "0 < ?B" using ts(1) by simp
  then have nz: "?v \<noteq> 0" using unat by (metis unat_0 less_irrefl)
  have reader: "suffix_reader (drop b bs) ts = block_reader (drop (b + ?k) bs) ?B"
    using ts(1) by (simp add: suffix_reader_def add.commute)
  have "hdr_extension_present (wire_header bs) \<noteq> 0" using bit ts(1) by (simp add: ext_bit_def)
  moreover have "\<not> ?B > n - b - ?k" using len suffix by simp
  ultimately show ?thesis
    using decode_ext_block [OF body n(1) _ uv, of r0 accept user c0] ts(2) nz
    by (simp add: unat reader suffix add.assoc split: prod.split)
qed

lemma decode_ext_suffix:
  assumes body: "mcl_wire_tier0_decode_body (Some bs) n (Some o0) (Some 0) = (MCL_WIRE_OK, Some obj, Some b)"
    and n: "2 \<le> n" "n \<le> length bs" and bit: "hdr_extension_present (wire_header bs) = ext_bit ts"
    and acc: "suffix_accepted accept user (drop b bs) ts user'" and len: "b + length (ext_suffix ts) \<le> n"
  shows "mcl_wire_tier0_decode_ext_accept (Some bs) n (Some o0) (Some r0) accept user (Some c0) =
      (MCL_WIRE_OK, Some obj, Some (suffix_reader (drop b bs) ts),
       Some (b + length (ext_suffix ts)), user')"
proof (cases "ts = []")
  case True
  then show ?thesis
    using decode_ext_no_block [OF body n(1)] bit acc
    by (simp add: ext_bit_def ext_suffix_def suffix_reader_def suffix_accepted_def)
next
  case False
  from acc obtain zs where zs: "drop b bs = ext_suffix ts @ zs" and ok: "block_ok None ts"
    "length (block_wire ts) \<le> 256"
    and all: "accept_all accept user (rdx_views (suffix_reader (drop b bs) ts) ts) = (True, user')"
    by (auto simp: suffix_accepted_def)
  have "ext_scan accept user (suffix_reader (drop b bs) ts)
      \<lparr>ext_id = 0, ext_critical = 0, ext_value = None, ext_value_size = 0\<rparr> 0 = (MCL_WIRE_OK, user')"
    unfolding zs ext_scan_OK_iff [OF suffix_reader_simps(1) [OF False]]
    using all ok(1) by (intro exI [of _ ts]) (simp add: suffix_reader_simps [OF False] zs)
  with decode_ext_scan [OF body n bit False ok(2) zs len, of r0 accept user c0] show ?thesis by simp
qed

text \<open>The decoder on the wire form of an object, and what it has found when it succeeds.\<close>

lemma ext_wire_body:
  assumes "ext_encodable major obj ts" and "length (ext_wire major obj ts) \<le> n"
    and "n \<le> length (ext_wire major obj ts @ rest)" and b: "b = length (object_bytes (ext_bit ts) major obj)"
  shows "mcl_wire_tier0_decode_body (Some (ext_wire major obj ts @ rest)) n (Some o0) (Some 0) =
      (MCL_WIRE_OK, Some (wire_view major obj), Some b)"
    and "2 \<le> n" and "hdr_extension_present (wire_header (ext_wire major obj ts @ rest)) = ext_bit ts"
    and "drop b (ext_wire major obj ts @ rest) = ext_suffix ts @ rest" and "b + length (ext_suffix ts) \<le> n"
    and "b + length (ext_suffix ts) = length (ext_wire major obj ts)"
proof -
  have enc: "tier0_encodable major obj" using assms(1) by (simp add: ext_encodable_def)
  have bs: "ext_wire major obj ts @ rest = object_bytes (ext_bit ts) major obj @ ext_suffix ts @ rest"
    by (simp add: ext_wire_def)
  have "kind_carried major (obj_kind obj)" using enc by (simp add: tier0_encodable_def)
  then have "10 \<le> b" by (simp add: b length_object_bytes encoded_size_bounds)
  moreover show sum: "b + length (ext_suffix ts) = length (ext_wire major obj ts)"
    by (simp add: b ext_wire_def)
  ultimately show "2 \<le> n" and len: "b + length (ext_suffix ts) \<le> n" using assms(2) by linarith+
  then have "b \<le> n" by linarith
  then show "mcl_wire_tier0_decode_body (Some (ext_wire major obj ts @ rest)) n (Some o0) (Some 0) =
      (MCL_WIRE_OK, Some (wire_view major obj), Some b)"
    using decode_body_object_bytes [OF enc ext_bit_le, of ts n "ext_suffix ts @ rest" o0 0] assms(3) b
    unfolding bs by simp
  show "hdr_extension_present (wire_header (ext_wire major obj ts @ rest)) = ext_bit ts"
    unfolding bs by (simp add: wire_header_object_bytes [OF enc ext_bit_le])
  show "drop b (ext_wire major obj ts @ rest) = ext_suffix ts @ rest" unfolding bs by (simp add: b)
qed

lemma decode_ext_wire:
  assumes "ext_encodable major obj ts" and "length (ext_wire major obj ts) \<le> n"
    and "n \<le> length (ext_wire major obj ts @ rest)"
    and "accept_all accept user (rdx_views (suffix_reader (ext_suffix ts @ rest) ts) ts) = (True, user')"
  shows "mcl_wire_tier0_decode_ext_accept (Some (ext_wire major obj ts @ rest)) n (Some o0) (Some r0)
      accept user (Some c0) =
    (MCL_WIRE_OK, Some (wire_view major obj), Some (suffix_reader (ext_suffix ts @ rest) ts),
     Some (length (ext_wire major obj ts)), user')"
proof -
  note stages = ext_wire_body [OF assms(1-3) refl]
  have "suffix_accepted accept user (ext_suffix ts @ rest) ts user'"
    using assms(1,4) by (simp add: suffix_accepted_def ext_encodable_def)
  from decode_ext_suffix [OF stages(1,2) assms(3) stages(3) this [folded stages(4)] stages(5)]
  show ?thesis unfolding stages(4,6) .
qed

text \<open>A decoder that succeeds has decoded the body.\<close>

lemma decode_ext_OK_body:
  assumes "n \<le> length bs"
    and "mcl_wire_tier0_decode_ext_accept (Some bs) n (Some o0) (Some r0) accept user (Some c0) =
      (MCL_WIRE_OK, obj, r, c, user')"
  obtains obj' b where "2 \<le> n"
    "mcl_wire_tier0_decode_body (Some bs) n (Some o0) (Some 0) = (MCL_WIRE_OK, Some obj', Some b)"
proof -
  obtain st o1 b1 where body: "mcl_wire_tier0_decode_body (Some bs) n (Some o0) (Some 0) = (st, o1, b1)"
    by (cases "mcl_wire_tier0_decode_body (Some bs) n (Some o0) (Some 0)")
  have st: "st = MCL_WIRE_OK"
    using decode_ext_refused_body [OF body, of r0 accept user c0] assms(2) by auto
  have n: "2 \<le> n" using body st decode_body_short [of n bs o0 0] by (cases "n < 2") auto
  show thesis
  proof (cases "wire_kind bs")
    case None
    then show thesis using body st decode_body_refused [OF n] by simp
  next
    case (Some kind)
    then show thesis
      using body st that n decode_body_accepted [OF Some n assms(1), of o0 0] by (auto split: if_splits)
  qed
qed

lemma wire_extension_bit: "hdr_extension_present (wire_header bs) \<noteq> 0 \<Longrightarrow>
    hdr_extension_present (wire_header bs) = 1"
  using wire_header_bounds(2) [of bs] by (simp add: word_le_nat_alt word_unat_eq_iff)

text \<open>The body and its accepted suffix are the wire form of the object with its extensions.\<close>

lemma body_with_suffix:
  assumes "n \<le> length bs"
    and body: "mcl_wire_tier0_decode_body (Some bs) n (Some o0) (Some 0) = (MCL_WIRE_OK, Some obj, Some b)"
    and bit: "ext_bit ts = hdr_extension_present (wire_header bs)"
    and acc: "suffix_accepted accept user (drop b bs) ts user'"
  obtains rest where "ext_encodable (wire_major bs) obj ts" "bs = ext_wire (wire_major bs) obj ts @ rest"
    "b + length (ext_suffix ts) = length (ext_wire (wire_major bs) obj ts)"
    "wire_view (wire_major bs) obj = obj" "drop b bs = ext_suffix ts @ rest"
    "accept_all accept user (rdx_views (suffix_reader (ext_suffix ts @ rest) ts) ts) = (True, user')"
proof -
  let ?m = "wire_major bs"
  note bytes = decode_body_OK_bytes [OF assms(1) body]
  from acc obtain zs where zs: "drop b bs = ext_suffix ts @ zs" and blk: "block_ok None ts"
    "length (block_wire ts) \<le> 256"
    and all: "accept_all accept user (rdx_views (suffix_reader (drop b bs) ts) ts) = (True, user')"
    by (auto simp: suffix_accepted_def)
  have tb: "take b bs = object_bytes (ext_bit ts) ?m obj" using bytes(2) bit by simp
  have "length (take b bs) = b" using bytes(4) assms(1) by simp
  then have len: "b + length (ext_suffix ts) = length (ext_wire ?m obj ts)"
    by (simp add: ext_wire_def tb)
  have "bs = take b bs @ drop b bs" by simp
  then have "bs = ext_wire ?m obj ts @ zs" by (simp only: tb zs ext_wire_def append_assoc)
  from that [OF _ this len _ zs all [unfolded zs]] bytes(1,5) blk show thesis
    by (simp add: ext_encodable_def)
qed

lemma decode_ext_OK_bytes:
  assumes "n \<le> length bs"
    and run: "mcl_wire_tier0_decode_ext_accept (Some bs) n (Some o0) (Some r0) accept user (Some c0) =
      (MCL_WIRE_OK, Some obj, r, Some c, user')"
  obtains ts rest where "ext_encodable (wire_major bs) obj ts" "bs = ext_wire (wire_major bs) obj ts @ rest"
    "c = length (ext_wire (wire_major bs) obj ts)" "c \<le> n" "wire_view (wire_major bs) obj = obj"
    "r = Some (suffix_reader (ext_suffix ts @ rest) ts)"
    "accept_all accept user (rdx_views (suffix_reader (ext_suffix ts @ rest) ts) ts) = (True, user')"
proof -
  note outer = that
  obtain o2 b where n: "2 \<le> n"
    and body: "mcl_wire_tier0_decode_body (Some bs) n (Some o0) (Some 0) = (MCL_WIRE_OK, Some o2, Some b)"
    using decode_ext_OK_body [OF assms] .
  have bn: "b \<le> n" using decode_body_OK_bytes(4) [OF assms(1) body] .
  obtain ts where ts: "ext_bit ts = hdr_extension_present (wire_header bs)" "obj = o2"
    "r = Some (suffix_reader (drop b bs) ts)" "c = b + length (ext_suffix ts)"
    "b + length (ext_suffix ts) \<le> n" "suffix_accepted accept user (drop b bs) ts user'"
  proof (cases "hdr_extension_present (wire_header bs) = 0")
    case True
    from run decode_ext_no_block [OF body n True, of r0 accept user c0] bn True show thesis
      by (intro that [of "[]"])
        (auto simp: ext_bit_def suffix_reader_def ext_suffix_def suffix_accepted_def)
  next
    case False
    from decode_ext_block_OK [OF body n bn assms(1) False run] wire_extension_bit [OF False] show thesis
      by (metis that ext_bit_def option.inject)
  qed
  from body_with_suffix [OF assms(1) body ts(1,6)] outer ts(2-5) show thesis by metis
qed

section \<open>Encoding\<close>

text \<open>The experimental major is the one the extension encoder writes.\<close>

lemma encode_success_major_0:
  assumes "tier0_encodable 0 obj" and "length (tier0_wire 0 obj) \<le> cap" and "cap \<le> length bs"
  shows "mcl_wire_tier0_encode (Some obj) (Some bs) cap (Some w) =
     (MCL_WIRE_OK, Some (tier0_wire 0 obj @ drop (length (tier0_wire 0 obj)) bs),
      Some (length (tier0_wire 0 obj)))"
proof -
  have "kind_carried 0 (obj_kind obj)" using assms(1) by (simp add: tier0_encodable_def)
  from length_tier0_wire [OF this] assms show ?thesis
    by (simp add: mcl_wire_tier0_encode_def encode_success)
qed

lemma block_status_valid:
  assumes "list_all ext_ok es" and "block_ok p (map tlv_of es)"
  shows "block_status err room p es = (if length (block_bytes es) \<le> room then MCL_WIRE_OK else err)"
  using assms
proof (induction es arbitrary: room p)
  case (Cons e es)
  have order: "(case p of None \<Rightarrow> False | Some q \<Rightarrow> ext_id e \<le> q) \<longleftrightarrow>
      \<not> (\<forall>q. p = Some q \<longrightarrow> q < fst (tlv_of e))"
    by (auto simp: tlv_of_def not_less split: option.splits)
  have fst: "fst (tlv_of e) = ext_id e" by (simp add: tlv_of_def)
  from Cons show ?case by (simp add: order) (auto simp: fst)
qed simp

lemma block_bytes_wire: "block_bytes es = block_wire (map tlv_of es)"
  by (simp add: block_bytes_def)

lemma extensions_encode_valid:
  assumes "list_all ext_ok es" and "block_ok None (map tlv_of es)" and "es = take count xs"
    and "count \<le> length xs" and "\<forall>e \<in> set xs. readable e" and "cap \<le> length out"
  shows "\<exists>ws. mcl_wire_extensions_encode (Some xs) count (Some out) cap (Some w) =
      (if length (block_wire (map tlv_of es)) \<le> cap then MCL_WIRE_OK else MCL_WIRE_ERR_BUFFER_TOO_SMALL,
       Some (ws @ drop (length ws) out),
       if length (block_wire (map tlv_of es)) \<le> cap then Some (length ws) else Some w) \<and>
    (length (block_wire (map tlv_of es)) \<le> cap \<longrightarrow> ws = block_wire (map tlv_of es))"
  using extensions_encode_result [of count xs cap out w] assms(3-6)
    block_status_valid [OF assms(1,2), of MCL_WIRE_ERR_BUFFER_TOO_SMALL cap]
  by (auto simp: block_bytes_wire)

text \<open>
  The calls of \<open>mcl_wire_tier0_encode_ext\<close> once the size is known and the object is written: the
  length field, the extensions, then the extension bit.
\<close>

lemma encode_ext_calls:
  assumes "count \<noteq> 0" and "cap \<le> length bs"
    and size: "mcl_wire_extensions_encoded_size (Some xs) count (Some 0) = (MCL_WIRE_OK, Some B)"
    and body: "mcl_wire_tier0_encode (Some obj) (Some bs) cap (Some 0) =
      (MCL_WIRE_OK, Some (tw @ drop (length tw) bs), Some (length tw))"
    and uv: "uv = uvarint_wire (of_nat B)"
    and block: "mcl_wire_extensions_encode (Some xs) count (Some (drop (length tw + length uv) bs))
        (cap - (length tw + length uv)) (Some 0) = (st, Some tail, Some m)"
  shows "mcl_wire_tier0_encode_ext (Some obj) (Some xs) count (Some bs) cap (Some w) =
     (if cap - length tw < length uv
      then (MCL_WIRE_ERR_BUFFER_TOO_SMALL, Some (tw @ drop (length tw) bs), Some w)
      else if st \<noteq> MCL_WIRE_OK then (st, Some (tw @ uv @ tail), Some w)
      else if m \<noteq> B then (MCL_WIRE_ERR_RANGE, Some (tw @ uv @ tail), Some w)
      else (MCL_WIRE_OK, Some ((tw @ uv @ tail)[1 := (tw @ uv @ tail) ! 1 OR 1]),
            Some (length tw + length uv + B)))"
proof -
  have "mcl_wire_uvarint_encode (of_nat B) (Some (drop (length tw) bs)) (cap - length tw) (Some 0) =
      (if cap - length tw < length uv
       then (MCL_WIRE_ERR_BUFFER_TOO_SMALL, Some (drop (length tw) bs), Some 0)
       else (MCL_WIRE_OK, Some (uv @ drop (length tw + length uv) bs), Some (length uv)))"
    using uvarint_encode_result [of "cap - length tw" "drop (length tw) bs" "of_nat B" 0] assms(2)
    by (simp add: uv mcl_uvarint_size_len length_uvarint_wire add.commute)
  then show ?thesis
    using assms(1) block
    by (simp add: mcl_wire_tier0_encode_ext_def size body Let_def add.commute)
qed

lemma encode_ext_tail:
  assumes "list_all ext_ok es" and "\<forall>e \<in> set xs. readable e"
    and "ext_encodable 0 obj (map tlv_of es)" and "es \<noteq> []" and "cap \<le> length bs"
    and "length (tier0_wire 0 obj) \<le> cap" and "es = take count xs" and "count \<le> length xs"
  shows "\<exists>bs' w'. mcl_wire_tier0_encode_ext (Some obj) (Some xs) count (Some bs) cap (Some w) =
     (if length (ext_wire 0 obj (map tlv_of es)) \<le> cap
      then (MCL_WIRE_OK, Some (ext_wire 0 obj (map tlv_of es) @
              drop (length (ext_wire 0 obj (map tlv_of es))) bs),
            Some (length (ext_wire 0 obj (map tlv_of es))))
      else (MCL_WIRE_ERR_BUFFER_TOO_SMALL, Some bs', Some w))"
proof -
  let ?ts = "map tlv_of es" and ?tw = "tier0_wire 0 obj"
  let ?B = "length (block_wire ?ts)"
  let ?uv = "uvarint_wire (of_nat ?B)"
  let ?at = "length ?tw + length ?uv"
  have enc: "tier0_encodable 0 obj" and ok: "block_ok None ?ts" and B: "?B \<le> 256"
    using assms(3) by (simp_all add: ext_encodable_def)
  have count: "count \<noteq> 0" using assms(4,7) by auto
  have size: "mcl_wire_extensions_encoded_size (Some xs) count (Some 0) = (MCL_WIRE_OK, Some ?B)"
    using extensions_size_result [OF assms(8,2), of 0] B block_status_valid [OF assms(1) ok]
    by (simp add: block_bytes_wire assms(7) [symmetric])
  note body = encode_success_major_0 [OF enc assms(6,5), of 0]
  have total: "length (ext_wire 0 obj ?ts) = ?at + ?B"
    using assms(4)
    by (simp add: ext_wire_def ext_suffix_def tier0_wire_object_bytes object_bytes_def)
  have "cap - ?at \<le> length (drop ?at bs)" using assms(5) by simp
  from extensions_encode_valid [OF assms(1) ok assms(7,8,2) this, of 0] obtain ws where
    ws: "mcl_wire_extensions_encode (Some xs) count (Some (drop ?at bs)) (cap - ?at) (Some 0) =
      (if ?B \<le> cap - ?at then MCL_WIRE_OK else MCL_WIRE_ERR_BUFFER_TOO_SMALL,
       Some (ws @ drop (length ws) (drop ?at bs)), Some (if ?B \<le> cap - ?at then length ws else 0))"
    "?B \<le> cap - ?at \<longrightarrow> ws = block_wire ?ts"
    by (elim exE conjE) (simp only: if_distrib [of Some])
  note calls = encode_ext_calls [OF count assms(5) size body refl ws(1), of w]
  show ?thesis
  proof (cases "length (ext_wire 0 obj ?ts) \<le> cap")
    case False
    then have "cap - length ?tw < length ?uv \<or> \<not> ?B \<le> cap - ?at" using total assms(6) by linarith
    with False show ?thesis unfolding calls by auto
  next
    case True
    then have fits: "\<not> cap - length ?tw < length ?uv" "?B \<le> cap - ?at" using total by linarith+
    then have block: "ws = block_wire ?ts" using ws(2) by simp
    have "(?tw @ ?uv @ ws @ drop (length ws) (drop ?at bs))
        [Suc 0 := (?tw @ ?uv @ ws @ drop (length ws) (drop ?at bs)) ! Suc 0 OR 1] =
        ext_wire 0 obj ?ts @ drop (length (ext_wire 0 obj ?ts)) bs"
      using assms(4)
      by (simp only: tier0_wire_object_bytes set_bit_object_bytes)
         (simp add: ext_wire_def ext_suffix_def ext_bit_def block object_bytes_def ac_simps)
    with True fits show ?thesis unfolding calls by (simp add: block total)
  qed
qed

text \<open>The status of a call with extensions, in the order of the checks.\<close>

lemma encode_ext_status:
  assumes "es = take count xs" and "es \<noteq> []" and "count \<le> length xs" and "\<forall>e \<in> set xs. readable e"
    and "cap \<le> length bs"
  shows "fst (mcl_wire_tier0_encode_ext (Some obj) (Some xs) count (Some bs) cap (Some w)) =
     (let size_status = block_status MCL_WIRE_ERR_RANGE MCL_WIRE_EXTENSION_BLOCK_MAX None es;
          body_status = fst (mcl_wire_tier0_encode (Some obj) (Some bs) cap (Some w))
      in if size_status \<noteq> MCL_WIRE_OK then size_status
         else if body_status \<noteq> MCL_WIRE_OK then body_status
         else if cap < length (ext_wire 0 obj (map tlv_of es)) then MCL_WIRE_ERR_BUFFER_TOO_SMALL
         else MCL_WIRE_OK)"
proof -
  let ?size = "block_status MCL_WIRE_ERR_RANGE MCL_WIRE_EXTENSION_BLOCK_MAX None es"
  have count: "count \<noteq> 0" using assms(1,2) by auto
  have size: "mcl_wire_extensions_encoded_size (Some xs) count (Some 0) =
      (?size, if ?size = MCL_WIRE_OK then Some (length (block_bytes es)) else Some 0)"
    using extensions_size_result [OF assms(3,4), of 0] by (simp add: assms(1))
  have body: "fst (mcl_wire_tier0_encode (Some obj) (Some bs) cap (Some v)) =
      (if \<not> kind_carried 0 (obj_kind obj) then MCL_WIRE_ERR_UNSUPPORTED_SEMANTIC
       else if cap < mcl_wire_tier0_encoded_size_at_major 0 (obj_kind obj)
       then MCL_WIRE_ERR_BUFFER_TOO_SMALL
       else if tier0_encodable 0 obj then MCL_WIRE_OK else MCL_WIRE_ERR_RANGE)" for v
    using encode_status [OF assms(5)] by (simp add: mcl_wire_tier0_encode_def)
  show ?thesis
  proof (cases "?size = MCL_WIRE_OK \<and> fst (mcl_wire_tier0_encode (Some obj) (Some bs) cap (Some w)) = MCL_WIRE_OK")
    case True
    then have enc: "tier0_encodable 0 obj" "length (tier0_wire 0 obj) \<le> cap"
      by (auto simp: body length_tier0_wire split: if_splits)
    have sub: "\<forall>e \<in> set es. readable e" using assms(1,4) by (auto dest: in_set_takeD)
    have "list_all ext_ok es" "ext_encodable 0 obj (map tlv_of es)"
      using True block_status_OK_iff [OF _ sub, of MCL_WIRE_ERR_RANGE 256 None] enc(1)
      by (simp_all add: ext_encodable_def block_bytes_wire)
    from encode_ext_tail [OF this(1) assms(4) this(2) assms(2,5) enc(2) assms(1,3), of w] True
    show ?thesis by (auto simp: Let_def)
  next
    case False
    obtain st out w' where run: "mcl_wire_tier0_encode (Some obj) (Some bs) cap (Some 0) = (st, out, w')"
      by (cases "mcl_wire_tier0_encode (Some obj) (Some bs) cap (Some 0)")
    then have "st = fst (mcl_wire_tier0_encode (Some obj) (Some bs) cap (Some w))"
      using body [of 0] body [of w] by simp
    with False count show ?thesis
      by (auto simp: mcl_wire_tier0_encode_ext_def size run Let_def)
  qed
qed

lemma encode_ext_empty:
  "mcl_wire_tier0_encode_ext (Some obj) es 0 (Some bs) cap (Some w) =
     mcl_wire_tier0_encode (Some obj) (Some bs) cap (Some w)"
  by (simp add: mcl_wire_tier0_encode_ext_def)

text \<open>A call that succeeds has written the wire form.\<close>

lemma encode_ext_OK:
  assumes "count \<le> length xs" and "\<forall>e \<in> set xs. readable e" and "cap \<le> length bs"
    and run: "mcl_wire_tier0_encode_ext (Some obj) (Some xs) count (Some bs) cap (Some w) =
      (MCL_WIRE_OK, Some out, Some n)"
  defines "ts \<equiv> map tlv_of (take count xs)"
  shows "ext_encodable 0 obj ts" and "out = ext_wire 0 obj ts @ drop n bs"
    and "n = length (ext_wire 0 obj ts)" and "n \<le> cap" and "list_all ext_ok (take count xs)"
proof -
  have "ext_encodable 0 obj ts \<and> out = ext_wire 0 obj ts @ drop n bs \<and> n = length (ext_wire 0 obj ts) \<and>
      n \<le> cap \<and> list_all ext_ok (take count xs)"
  proof (cases "take count xs = []")
    case True
    then have "count = 0" using assms(1) by auto
    with run have enc: "mcl_wire_tier0_encode (Some obj) (Some bs) cap (Some w) = (MCL_WIRE_OK, Some out, Some n)"
      by (simp add: encode_ext_empty)
    then have "tier0_encodable 0 obj" "length (tier0_wire 0 obj) \<le> cap"
      using encode_status [OF assms(3), of 0 obj w]
      by (auto simp: mcl_wire_tier0_encode_def length_tier0_wire split: if_splits)
    with encode_success_major_0 [OF this assms(3), of w] enc show ?thesis
      unfolding ts_def True
      by (simp add: ext_encodable_def ext_wire_def ext_suffix_def ext_bit_def
          tier0_wire_object_bytes)
  next
    case False
    let ?es = "take count xs"
    note st = encode_ext_status [OF refl False assms(1-3), of obj w, unfolded run Let_def]
    then have ok: "block_status MCL_WIRE_ERR_RANGE 256 None ?es = MCL_WIRE_OK"
      "fst (mcl_wire_tier0_encode (Some obj) (Some bs) cap (Some w)) = MCL_WIRE_OK"
      "length (ext_wire 0 obj ts) \<le> cap"
      by (auto simp: ts_def split: if_splits)
    have sub: "\<forall>e \<in> set ?es. readable e" using assms(2) by (auto dest: in_set_takeD)
    have enc: "tier0_encodable 0 obj" "length (tier0_wire 0 obj) \<le> cap"
      using ok(2) encode_status [OF assms(3), of 0 obj w]
      by (auto simp: mcl_wire_tier0_encode_def length_tier0_wire split: if_splits)
    have valid: "list_all ext_ok ?es" "ext_encodable 0 obj ts"
      using ok(1) block_status_OK_iff [OF _ sub, of MCL_WIRE_ERR_RANGE 256 None] enc(1)
      by (simp_all add: ext_encodable_def block_bytes_wire ts_def)
    from encode_ext_tail [OF valid(1) assms(2) valid(2) [unfolded ts_def] False assms(3) enc(2) refl assms(1), of w]
      run ok(3) valid show ?thesis
      by (auto simp: ts_def)
  qed
  then show "ext_encodable 0 obj ts" and "out = ext_wire 0 obj ts @ drop n bs"
    and "n = length (ext_wire 0 obj ts)" and "n \<le> cap" and "list_all ext_ok (take count xs)"
    by blast+
qed

end
