(* ===== verification/Wire_Drain.thy ===== *)
theory Wire_Drain
  imports Wire_Tier0_Ext_Facts
begin

text \<open>
  The caller's side of the extension reader: the loop that \<open>include/mcl/extension.h\<close> tells a caller to
  write around \<open>mcl_wire_extension_reader_next\<close>, and what it collects.
\<close>

unbundle bit_operations_syntax

definition no_extension :: mcl_wire_extension where
  "no_extension = \<lparr>ext_id = 0, ext_critical = 0, ext_value = None, ext_value_size = 0\<rparr>"

text \<open>Call until the end of the block is reported or a call fails; it ends since each call moves on.\<close>

function drain_reader ::
    "mcl_wire_extension_reader \<Rightarrow> mcl_wire_status \<times> mcl_wire_extension list" where
  "drain_reader r =
     (case mcl_wire_extension_reader_next (Some r) (Some no_extension) (Some 0) of
        (st, r', e, h) \<Rightarrow>
          if st \<noteq> MCL_WIRE_OK then (st, [])
          else if the h = 0 then (MCL_WIRE_OK, [])
          else case drain_reader (the r') of (st, es) \<Rightarrow> (st, the e # es))"
  by pat_completeness auto
termination
  by (relation "measure (\<lambda>r. rdx_size r - rdx_offset r)")
     (auto dest: reader_next_progress [OF sym])

declare drain_reader.simps [simp del]

lemma drain_block:
  assumes "rdx_wf r" and "rdx_rest r = block_wire ts" and "block_ok (rdx_previous r) ts"
  shows "drain_reader r = (MCL_WIRE_OK, rdx_views r ts)"
  using assms
proof (induction ts arbitrary: r)
  case Nil
  then have "rdx_offset r = rdx_size r" using rdx_rest_Nil_iff by simp
  then show ?case by (subst drain_reader.simps) (simp add: mcl_wire_extension_reader_next_def)
next
  case (Cons t ts)
  from Cons.prems have t: "rdx_rest r = tlv_wire t @ block_wire ts" "tlv_ok t"
    "tlv_above (rdx_previous r) t" by (simp_all add: tlv_above_def)
  note after = rdx_after_wf [OF Cons.prems(1) t(1)]
  have "block_ok (rdx_previous (rdx_after t r)) ts" using Cons.prems(3) after(3) by simp
  from Cons.IH [OF after(1,2) this] show ?case
    by (subst drain_reader.simps) (simp add: reader_next_wire [OF Cons.prems(1) t])
qed

lemma drain_OK_block:
  assumes "rdx_wf r" and "drain_reader r = (MCL_WIRE_OK, es)"
  obtains ts where "rdx_rest r = block_wire ts" "block_ok (rdx_previous r) ts" "es = rdx_views r ts"
proof -
  have "\<exists>ts. rdx_rest r = block_wire ts \<and> block_ok (rdx_previous r) ts \<and> es = rdx_views r ts"
    using assms
  proof (induction r arbitrary: es rule: drain_reader.induct)
    case (1 r)
    from "1.prems"(1) show ?case
    proof (cases rule: reader_next_cases [of r no_extension 0])
      case block_end
      then have "es = []" using "1.prems"(2) by (subst (asm) drain_reader.simps) simp
      with block_end(1) show ?thesis by (intro exI [of _ "[]"]) simp
    next
      case (refused st r')
      with "1.prems"(2) show ?thesis by (subst (asm) drain_reader.simps) simp
    next
      case (extension t rest)
      note after = rdx_after_wf [OF "1.prems"(1) extension(1)]
      obtain st us where rec: "drain_reader (rdx_after t r) = (st, us)"
        by (cases "drain_reader (rdx_after t r)")
      with "1.prems"(2) have es: "st = MCL_WIRE_OK" "es = rdx_view t r # us"
        by (subst (asm) drain_reader.simps; simp add: extension(4))+
      have "\<exists>ts. rdx_rest (rdx_after t r) = block_wire ts \<and>
          block_ok (rdx_previous (rdx_after t r)) ts \<and> us = rdx_views (rdx_after t r) ts"
        using "1.IH" [OF extension(4) [symmetric] refl refl, simplified, OF after(1)] rec es(1) by simp
      then obtain ts where "rest = block_wire ts" "block_ok (Some (fst t)) ts"
        "us = rdx_views (rdx_after t r) ts"
        by (auto simp: after)
      with extension(1-3) es(2) show ?thesis
        by (intro exI [of _ "t # ts"]) (simp add: tlv_above_def)
    qed
  qed
  with that show thesis by blast
qed

text \<open>What the views show is the block, and each of them may be given back to the encoder.\<close>

lemma views_block:
  assumes "rdx_wf r" and "rdx_rest r = block_wire ts @ zs" and "block_ok (rdx_previous r) ts"
  shows "map tlv_of (rdx_views r ts) = ts" and "\<forall>e \<in> set (rdx_views r ts). readable e"
    and "list_all ext_ok (rdx_views r ts)"
proof -
  have "map tlv_of (rdx_views r ts) = ts \<and> (\<forall>e \<in> set (rdx_views r ts). readable e) \<and>
      list_all ext_ok (rdx_views r ts)"
    using assms
  proof (induction ts arbitrary: r)
    case (Cons t ts)
    from Cons.prems have t: "rdx_rest r = tlv_wire t @ block_wire ts @ zs" "tlv_ok t" by simp_all
    note after = rdx_after_wf [OF Cons.prems(1) t(1)]
    from Cons.IH [OF after(1,2)] Cons.prems(3) show ?case
      using tlv_of_view [OF Cons.prems(1) t(1)] ext_ok_view [OF t(2) Cons.prems(1)]
      by (simp add: after(3))
  qed simp
  then show "map tlv_of (rdx_views r ts) = ts" and "\<forall>e \<in> set (rdx_views r ts). readable e"
    and "list_all ext_ok (rdx_views r ts)" by blast+
qed

lemma length_rdx_views [simp]: "length (rdx_views r ts) = length ts"
  by (induction ts arbitrary: r) auto

text \<open>The reader a successful decoder hands out shows the extensions of the object.\<close>

lemma suffix_reader_block:
  assumes "rest = ext_suffix ts @ zs"
  shows "rdx_wf (suffix_reader rest ts)" and "rdx_rest (suffix_reader rest ts) = block_wire ts"
    and "rdx_previous (suffix_reader rest ts) = None"
  using assms by (auto simp: suffix_reader_def ext_suffix_def)

lemma drain_suffix:
  assumes "rest = ext_suffix ts @ zs" and "block_ok None ts"
  defines "r \<equiv> suffix_reader rest ts"
  shows "drain_reader r = (MCL_WIRE_OK, rdx_views r ts)" and "map tlv_of (rdx_views r ts) = ts"
    and "\<forall>e \<in> set (rdx_views r ts). readable e" and "list_all ext_ok (rdx_views r ts)"
  using drain_block [of r ts] views_block [of r ts "[]"] suffix_reader_block [OF assms(1)] assms(2)
  by (simp_all add: r_def)

text \<open>A callback that looks at the id only.\<close>

definition accept_known :: "(u32 \<Rightarrow> bool) \<Rightarrow> 'u mcl_wire_extension_accept_fn" where
  "accept_known known = (\<lambda>user i v n. (if known i then 1 else 0, user))"

lemma accept_all_known:
  "accept_all (Some (accept_known known)) user es =
     (list_all (\<lambda>e. ext_critical e \<noteq> 0 \<longrightarrow> known (ext_id e)) es, user)"
  by (induction es) (auto simp: accept_known_def)

lemma known_views:
  "list_all (\<lambda>e. ext_critical e \<noteq> 0 \<longrightarrow> known (ext_id e)) (rdx_views r ts) \<longleftrightarrow>
   list_all (\<lambda>(i, c, v). c \<noteq> 0 \<longrightarrow> known i) ts"
  by (induction ts arbitrary: r) (auto simp: rdx_view_def)

end
