(* ===== verification/Wire_Extension_Spec.thy ===== *)
theory Wire_Extension_Spec
  imports Wire_Drain
begin

text \<open>
  The promises of the extension block layer of \<open>src/extension.c\<close>: what the block encoder and the size
  function answer and that the two agree, and that the reader gives back exactly what was encoded,
  accepts nothing else, and ends.
\<close>

unbundle bit_operations_syntax

section \<open>Blocks\<close>

text \<open>
  C20: The outcome of \<open>mcl_wire_extensions_encode\<close>: the extensions are checked one after the other (value
  ranges and pointers, then the order of the ids, then the room for the bytes) and the first complaint
  is the result; nothing behind the capacity is written, \<open>*written\<close> is set on success only, and a
  successful call has written the keys, the lengths and the values in order.
\<close>

theorem extensions_encode_outcome:
  assumes "count \<le> length es" and "\<forall>e \<in> set es. readable e" and "cap \<le> length out"
    and "st = block_status MCL_WIRE_ERR_BUFFER_TOO_SMALL cap None (take count es)"
  shows "\<exists>ws. length ws \<le> cap \<and>
     mcl_wire_extensions_encode (Some es) count (Some out) cap (Some w) =
       (st, Some (ws @ drop (length ws) out), Some (if st = MCL_WIRE_OK then length ws else w)) \<and>
     (st = MCL_WIRE_OK \<longrightarrow> ws = concat (map (\<lambda>e.
        uvarint_wire (push_bit 1 (ext_id e) OR ucast (ext_critical e)) @
        uvarint_wire (of_nat (length (ext_bytes e))) @ ext_bytes e) (take count es)))"
proof -
  have "block_bytes xs = concat (map (\<lambda>e.
        uvarint_wire (push_bit 1 (ext_id e) OR ucast (ext_critical e)) @
        uvarint_wire (of_nat (length (ext_bytes e))) @ ext_bytes e) xs)" for xs
    by (induction xs) (simp_all add: tlv_wire_def tlv_of_def tlv_key_def del: push_bit_of_1)
  with extensions_encode_result [OF assms(1-3), of w] show ?thesis
    unfolding assms(4) [symmetric] by (auto split: if_splits)
qed

text \<open>The status of either function, once the list itself is in order.\<close>

lemma take_readable: "\<forall>e \<in> set es. readable e \<Longrightarrow> \<forall>e \<in> set (take count es). readable e"
  by (auto dest: in_set_takeD)



section \<open>The reader\<close>

text \<open>
  C21: A block that was encoded reads back: a reader over exactly those bytes, wherever they lie in
  memory, delivers the same ids, criticalities and values in the same order, and then reports the end.
\<close>

theorem extensions_round_trip:
  assumes "count \<le> length es" and "\<forall>e \<in> set es. readable e" and "cap \<le> length out"
    and "mcl_wire_extensions_encode (Some es) count (Some out) cap (Some w) = (MCL_WIRE_OK, Some out', Some n)"
  shows "\<exists>es'. drain_reader (the (mcl_wire_extension_reader_init (Some r0) (Some (take n out' @ rest)) n)) =
       (MCL_WIRE_OK, es') \<and>
     map (\<lambda>e. (ext_id e, ext_critical e, ext_bytes e)) es' =
       map (\<lambda>e. (ext_id e, ext_critical e, ext_bytes e)) (take count es)"
proof -
  let ?es = "take count es"
  let ?ts = "map tlv_of ?es"
  from extensions_encode_result [OF assms(1-3), of w] assms(4)
  have "block_status MCL_WIRE_ERR_BUFFER_TOO_SMALL cap None ?es = MCL_WIRE_OK"
    and block: "take n out' = block_wire ?ts" and n: "n = length (block_wire ?ts)"
    by (auto simp: block_bytes_wire)
  then have ok: "block_ok None ?ts"
    using block_status_OK_iff [OF _ take_readable [OF assms(2)], of MCL_WIRE_ERR_BUFFER_TOO_SMALL cap None count]
    by simp
  let ?r = "block_reader (take n out' @ rest) n"
  have r: "rdx_wf ?r" "rdx_rest ?r = block_wire ?ts" "block_ok (rdx_previous ?r) ?ts"
    using block n ok by (simp_all add: rdx_wf_def block_reader_def rdx_rest_def rdx_previous_def)
  have tuple: "(\<lambda>e. (ext_id e, ext_critical e, ext_bytes e)) = tlv_of" by (rule ext) (simp add: tlv_of_def)
  from drain_block [OF r] views_block(1) [of ?r ?ts "[]"] r show ?thesis
    by (auto simp: tuple)
qed

text \<open>
  C22: The reader accepts nothing but the encoder's output. A caller that reached the end of a block of
  \<open>n\<close> bytes holds extensions whose encoding is those \<open>n\<close> bytes, byte for byte.
\<close>

theorem reader_canonical:
  assumes "n \<le> length block" and "n \<le> cap" and "cap \<le> length out"
    and "drain_reader (the (mcl_wire_extension_reader_init (Some r0) (Some block) n)) = (MCL_WIRE_OK, es)"
  shows "mcl_wire_extensions_encode (Some es) (length es) (Some out) cap (Some w) =
     (MCL_WIRE_OK, Some (take n block @ drop n out), Some n)"
proof -
  let ?r = "block_reader block n"
  have wf: "rdx_wf ?r" using assms(1) by simp
  obtain ts where ts: "rdx_rest ?r = block_wire ts" "block_ok (rdx_previous ?r) ts" "es = rdx_views ?r ts"
    using drain_OK_block [OF wf] assms(4) by auto
  have "rdx_rest ?r = block_wire ts @ []" using ts(1) by simp
  note views = views_block [OF wf this ts(2), folded ts(3)]
  have ok: "block_ok None (map tlv_of es)" using ts(2) views(1) by simp
  have block: "block_wire (map tlv_of es) = take n block" using ts(1) views(1) by simp
  from extensions_encode_valid [OF views(3) ok _ _ views(2) assms(3), of "length es" w] block assms(1,2)
  show ?thesis by auto
qed

lemma ids_above_sorted:
  "ids_above p ts \<Longrightarrow> sorted_wrt (<) (map fst ts) \<and> (\<forall>t \<in> set ts. \<forall>q. p = Some q \<longrightarrow> q < fst t)"
  by (induction ts arbitrary: p) force+

lemma length_block_wire_ge: "2 * length ts + sum_list (map (\<lambda>(i, c, v). length v) ts) \<le> length (block_wire ts)"
proof (induction ts)
  case (Cons t ts)
  obtain i c v where t: "t = (i, c, v)" by (cases t)
  have "1 \<le> length (uvarint_wire w)" for w
    using uvarint_len_pos [of "unat w"] by (simp add: length_uvarint_wire Suc_le_eq)
  from this [of "tlv_key i c"] this [of "of_nat (length v)"] Cons show ?case
    by (simp add: t tlv_wire_def)
qed simp

text \<open>
  C23: Whatever the bytes, a caller stepping a reader never leaves the block: after any number of
  successful calls the reader still lies within it, the ids delivered so far are nonzero and strictly
  increasing, each value lies within the bytes consumed, and every call has consumed at least two bytes,
  so a block of \<open>n\<close> bytes yields at most \<open>n div 2\<close> extensions.
\<close>

theorem reader_stays_inside:
  assumes "n \<le> length block"
    and "reader_run (the (mcl_wire_extension_reader_init (Some r0) (Some block) n)) es r"
  shows "rdx_data r = Some block \<and> rdx_size r = n \<and>
     2 * length es + sum_list (map ext_value_size es) \<le> rdx_offset r \<and> rdx_offset r \<le> n \<and>
     sorted_wrt (<) (map ext_id es) \<and> (\<forall>e \<in> set es. ext_id e \<noteq> 0 \<and> readable e)"
proof -
  let ?r = "block_reader block n"
  have wf: "rdx_wf ?r" and run: "reader_run ?r es r" using assms by simp_all
  note used = reader_run_consumed [OF run wf]
  let ?ts = "map tlv_of es"
  have ok: "\<forall>e \<in> set es. ext_ok e \<and> readable e" using used by (auto simp: list_all_iff)
  have offset: "length (block_wire ?ts) = rdx_offset r"
  proof -
    have "n = length (block_wire ?ts) + (rdx_size r - rdx_offset r)"
      using used length_rdx_rest [of r] length_rdx_rest [OF wf] by (simp add: block_reader_def)
    moreover have "rdx_offset r \<le> rdx_size r" "rdx_size r = n"
      using used by (auto simp: rdx_wf_def block_reader_def)
    ultimately show ?thesis by simp
  qed
  have sizes: "map (\<lambda>(i, c, v). length v) ?ts = map ext_value_size es"
    using ok length_ext_bytes by (simp add: tlv_of_def)
  have ids: "map fst ?ts = map ext_id es" by (simp add: tlv_of_def)
  have "ids_above None ?ts" using used by (simp add: block_ok_def)
  then have "sorted_wrt (<) (map ext_id es)" using ids_above_sorted [of None ?ts] unfolding ids by simp
  moreover have "2 * length es + sum_list (map ext_value_size es) \<le> rdx_offset r"
    using length_block_wire_ge [of ?ts] by (simp only: sizes offset length_map)
  moreover have "rdx_offset r \<le> n" "rdx_size r = n" "rdx_data r = Some block"
    using used by (auto simp: rdx_wf_def block_reader_def)
  ultimately show ?thesis using ok by (auto simp: ext_ok_def)
qed

section \<open>The statements at a concrete block\<close>

definition sample_extensions :: "mcl_wire_extension list" where
  "sample_extensions =
     [\<lparr>ext_id = 3, ext_critical = 1, ext_value = Some [0xAA, 0xBB, 0xCC], ext_value_size = 2\<rparr>,
      \<lparr>ext_id = 300, ext_critical = 0, ext_value = None, ext_value_size = 0\<rparr>]"

definition sample_block :: "u8 list" where
  "sample_block = [7, 2, 0xAA, 0xBB, 0x84, 0x58, 0]"

lemma sample_readable: "\<forall>e \<in> set sample_extensions. readable e"
  by (simp add: sample_extensions_def readable_def)

lemma sample_ok:
  "list_all ext_ok sample_extensions" "block_ok None (map tlv_of sample_extensions)"
  by (simp_all add: sample_extensions_def ext_ok_def tlv_ok_def tlv_of_def ext_bytes_def)

lemma sample_count: "take 2 sample_extensions = sample_extensions" "2 \<le> length sample_extensions"
  by (simp_all add: sample_extensions_def)

lemma sample_block_wire: "block_wire (map tlv_of sample_extensions) = sample_block"
  by code_simp

lemma sample_block_encoding:
  "mcl_wire_extensions_encode (Some sample_extensions) 2 (Some (replicate 9 0xFF)) 8 (Some 0) =
     (MCL_WIRE_OK, Some (sample_block @ [0xFF, 0xFF]), Some 7)"
  using extensions_encode_valid [OF sample_ok sample_count(1) [symmetric] sample_count(2) sample_readable,
      of 8 "replicate 9 0xFF" 0]
  by (auto simp: sample_block_wire) (simp_all add: sample_block_def numeral_2_eq_2)


theorem extensions_encode_outcome_witness:
  "\<exists>ws. length ws \<le> 6 \<and>
     mcl_wire_extensions_encode (Some sample_extensions) 2 (Some (replicate 9 0xFF)) 6 (Some 0) =
       (MCL_WIRE_ERR_BUFFER_TOO_SMALL, Some (ws @ drop (length ws) (replicate 9 0xFF)), Some 0)"
proof -
  have st: "MCL_WIRE_ERR_BUFFER_TOO_SMALL =
      block_status MCL_WIRE_ERR_BUFFER_TOO_SMALL 6 None (take 2 sample_extensions)"
    using block_status_valid [OF sample_ok, of MCL_WIRE_ERR_BUFFER_TOO_SMALL 6]
    by (simp add: sample_count(1) block_bytes_wire sample_block_wire) (simp add: sample_block_def)
  from extensions_encode_outcome [OF sample_count(2) sample_readable _ st, of "replicate 9 0xFF" 0]
  show ?thesis by auto
qed


theorem extensions_round_trip_witness:
  "\<exists>es'. drain_reader (the (mcl_wire_extension_reader_init (Some (block_reader [] 0))
        (Some (sample_block @ [1, 2])) 7)) = (MCL_WIRE_OK, es') \<and>
     map (\<lambda>e. (ext_id e, ext_critical e, ext_bytes e)) es' = [(3, 1, [0xAA, 0xBB]), (300, 0, [])]"
  using extensions_round_trip [OF sample_count(2) sample_readable _ sample_block_encoding,
      of "block_reader [] 0" "[1, 2]"]
  by (simp add: sample_block_def sample_extensions_def ext_bytes_def)

theorem reader_canonical_witness:
  "\<exists>es. mcl_wire_extensions_encode (Some es) (length es) (Some (replicate 7 0)) 7 (Some 0) =
     (MCL_WIRE_OK, Some sample_block, Some 7)"
proof -
  have "fst (drain_reader (the (mcl_wire_extension_reader_init (Some (block_reader [] 0)) (Some sample_block) 7))) =
      MCL_WIRE_OK"
    by code_simp
  then obtain es where "drain_reader (the (mcl_wire_extension_reader_init (Some (block_reader [] 0))
      (Some sample_block) 7)) = (MCL_WIRE_OK, es)"
    by (cases "drain_reader (the (mcl_wire_extension_reader_init (Some (block_reader [] 0)) (Some sample_block) 7))")
       simp
  from reader_canonical [OF _ _ _ this, of 7 "replicate 7 0" 0] show ?thesis
    by (intro exI [of _ es]) (simp add: sample_block_def)
qed

theorem reader_stays_inside_witness:
  "\<exists>e r. reader_run (block_reader sample_block 7) [e] r \<and> 4 \<le> rdx_offset r \<and> rdx_offset r \<le> 7"
proof -
  let ?e = "\<lparr>ext_id = 3, ext_critical = 1, ext_value = Some [0xAA, 0xBB, 0x84, 0x58, 0], ext_value_size = 2\<rparr>"
  let ?r = "\<lparr>rdx_data = Some sample_block, rdx_size = 7, rdx_offset = 4, rdx_previous_id = 3, rdx_has_previous = 1\<rparr>"
  have "mcl_wire_extension_reader_next (Some (block_reader sample_block 7)) (Some no_extension) (Some 0) =
      (MCL_WIRE_OK, Some ?r, Some ?e, Some 1)" by code_simp
  then have run: "reader_run (block_reader sample_block 7) [?e] ?r"
    using run_next run_start by blast
  with reader_stays_inside [of 7 sample_block "block_reader [] 0" "[?e]" ?r] show ?thesis
    by (intro exI [of _ ?e] exI [of _ ?r]) (simp add: sample_block_def)
qed

end
