(* ===== verification/Wire_Tier0_Spec.thy ===== *)
theory Wire_Tier0_Spec
  imports Wire_Tier0_Facts Wire_Codec
begin

text \<open>
  The promises of the Tier-0 codec to its callers, stated over the functions of the library: the
  ranges of the fields, the outcome of every call, round trips, canonical form, truncation, and the
  rule which objects a wire major carries.
\<close>

unbundle bit_operations_syntax

section \<open>The ranges of the fields\<close>

definition fields_in_range :: "mcl_wire_tier0 \<Rightarrow> bool" where
  "fields_in_range obj \<longleftrightarrow>
     (let b = obj_body obj; k = obj_kind obj; within = (\<lambda>n (v::s16). - (2 ^ n) \<le> sint v \<and> sint v < 2 ^ n) in
      if k = MCL_WIRE_KIND_PRESENCE then presence_capability_tag (body_presence b) < 2 ^ 24
      else if k = MCL_WIRE_KIND_HAZARD then
        hazard_severity (body_hazard b) < 8 \<and> hazard_confidence (body_hazard b) < 128 \<and>
        within 11 (hazard_x (body_hazard b)) \<and> within 11 (hazard_y (body_hazard b)) \<and>
        within 9 (hazard_z (body_hazard b)) \<and> hazard_radius (body_hazard b) < 1024
      else if k = MCL_WIRE_KIND_REQUEST then
        within 11 (request_x (body_request b)) \<and> within 11 (request_y (body_request b)) \<and>
        request_radius (body_request b) < 1024
      else if k = MCL_WIRE_KIND_AUTHORITY_CLAIM then
        authority_claim_authority_class (body_authority_claim b) < 64 \<and>
        authority_claim_jurisdiction (body_authority_claim b) < 4096
      else if k = MCL_WIRE_KIND_DEGRADED_STATE then
        degraded_state_health (body_degraded_state b) < 128 \<and>
        degraded_state_severity (body_degraded_state b) < 8
      else True)"

lemma fits_u_less: "n < 32 \<Longrightarrow> fits_u n v \<longleftrightarrow> v < 2 ^ n"
  by (simp add: fits_u_def less_exp_iff_take_bit)

lemma unat_ucast_u32: "unat (ucast (v :: u8) :: u32) = unat v" "unat (ucast (w :: u16) :: u32) = unat w"
proof -
  have "unat v < 2 ^ 32" "unat w < 2 ^ 32"
    using unat_u8_less [of v] unat_u16_less [of w] by simp_all
  then show "unat (ucast v :: u32) = unat v" "unat (ucast w :: u32) = unat w"
    by (simp_all add: unsigned_ucast_eq take_bit_nat_eq_self_iff)
qed

lemma fits_u_32 [simp]: "fits_u 32 v"
  by (simp add: fits_u_def take_bit_word_eq_self)

lemma fits_s_scast: "fits_s n (scast (v :: s16)) \<longleftrightarrow> - (2 ^ (n - 1)) \<le> sint v \<and> sint v < 2 ^ (n - 1)"
proof -
  have "sint (scast v :: s32) = sint v"
    using sint_greater_eq [of v] sint_less [of v]
    by (simp add: signed_scast_eq signed_take_bit_int_eq_self_iff)
  then show ?thesis by (simp add: fits_s_def)
qed

lemma fields_fit_in_range:
  assumes "obj_kind obj \<in> {0, 1, 2, 3, 4, 5, 6}"
  shows "fields_fit major obj \<longleftrightarrow> fields_in_range obj"
  using assms
proof (cases rule: kind_cases)
qed (simp_all add: fields_fit_def fields_in_range_def tier0_slots_def fits_s_scast fits_u_less
     word_less_nat_alt unat_ucast_u32 Let_def unat_u8_less)

text \<open>The objects the encoder accepts at a major, in terms of their members.\<close>

lemma tier0_encodable_iff:
  "tier0_encodable major obj \<longleftrightarrow>
     kind_carried major (obj_kind obj) \<and> obj_priority obj \<le> 3 \<and> fields_in_range obj"
  using fields_fit_in_range kind_carried_small by (auto simp: tier0_encodable_def)

section \<open>The contract\<close>

definition tier0_enc :: "u8 \<times> mcl_wire_tier0 \<Rightarrow> u8 list option" where
  "tier0_enc = (\<lambda>(major, obj).
     if wire_view major obj = obj
     then encoding (mcl_wire_tier0_encode_at_major major (Some obj) (Some (replicate 17 0)) 17 (Some 0))
     else None)"

definition tier0_dec :: "u8 list \<Rightarrow> ((u8 \<times> mcl_wire_tier0) \<times> nat) option" where
  "tier0_dec bs = map_option (\<lambda>(obj, n). ((drop_bit 4 (bs ! 0), obj), n))
     (decoding (mcl_wire_tier0_decode (Some bs) (length bs) (Some zero_object) (Some 0)))"

lemma wire_major_byte: "wire_major bs = drop_bit 4 (bs ! 0)"
  by (simp add: wire_header_def header_of_def)

lemma tier0_enc_iff:
  "tier0_enc (major, obj) = Some bs \<longleftrightarrow>
     tier0_encodable major obj \<and> wire_view major obj = obj \<and> bs = tier0_wire major obj"
proof (cases "tier0_encodable major obj")
  case True
  then have "kind_carried major (obj_kind obj)" by (simp add: tier0_encodable_def)
  then have "length (tier0_wire major obj) \<le> 17"
    "mcl_wire_tier0_encoded_size_at_major major (obj_kind obj) = length (tier0_wire major obj)"
    by (simp_all add: length_tier0_wire encoded_size_bounds)
  with encode_success [OF True refl, of 17 "replicate 17 0" 0] True show ?thesis
    by (auto simp: tier0_enc_def encoding_def)
next
  case False
  then have "fst (mcl_wire_tier0_encode_at_major major (Some obj) (Some (replicate 17 0)) 17 (Some 0))
      \<noteq> MCL_WIRE_OK"
    by (simp add: encode_status)
  with False show ?thesis by (auto simp: tier0_enc_def encoding_def split: prod.splits)
qed

lemma decode_OK_bytes:
  assumes "n \<le> length bs"
    and "mcl_wire_tier0_decode (Some bs) n (Some o0) (Some c0) = (MCL_WIRE_OK, Some obj, Some c)"
  shows "tier0_encodable (wire_major bs) obj" and "take c bs = tier0_wire (wire_major bs) obj"
    and "c \<le> n" and "wire_view (wire_major bs) obj = obj"
proof -
  have bit: "2 \<le> n \<longrightarrow> hdr_extension_present (wire_header bs) = 0"
    and body: "mcl_wire_tier0_decode_body (Some bs) n (Some o0) (Some c0) = (MCL_WIRE_OK, Some obj, Some c)"
    using assms(2) by (auto simp: decode_clear_bit [OF assms(1)] split: if_splits)
  note bytes = decode_body_OK_bytes [OF assms(1) body]
  have "2 \<le> n" using bytes(3,4) by linarith
  then show "tier0_encodable (wire_major bs) obj" and "take c bs = tier0_wire (wire_major bs) obj"
    and "c \<le> n" and "wire_view (wire_major bs) obj = obj"
    using bytes bit by (simp_all add: tier0_wire_object_bytes)
qed

lemma decode_tier0_wire:
  assumes "tier0_encodable major obj" and "length (tier0_wire major obj) \<le> n"
    and "n \<le> length (tier0_wire major obj @ rest)"
  shows "mcl_wire_tier0_decode (Some (tier0_wire major obj @ rest)) n (Some o0) (Some c0) =
     (MCL_WIRE_OK, Some (wire_view major obj), Some (length (tier0_wire major obj)))"
proof -
  have "hdr_extension_present (wire_header (tier0_wire major obj @ rest)) = 0"
    using wire_header_object_bytes [OF assms(1), of 0 rest] by (simp add: tier0_wire_object_bytes)
  then show ?thesis
    using decode_body_object_bytes [OF assms(1), of 0 n rest o0 c0] assms(2,3)
    unfolding decode_clear_bit [OF assms(3)] by (simp add: tier0_wire_object_bytes)
qed

lemma decode_shape:
  assumes "n \<le> length bs"
  obtains st obj c where
    "mcl_wire_tier0_decode (Some bs) n (Some o0) (Some c0) = (st, Some obj, Some c)"
proof -
  have "\<exists>st obj c. mcl_wire_tier0_decode_body (Some bs) n (Some o0) (Some c0) = (st, Some obj, Some c)"
  proof (cases "n < 2 \<or> wire_kind bs = None")
    case True
    then show ?thesis
      using decode_body_short [of n bs o0 c0] decode_body_refused [of n bs o0 c0] by (cases "n < 2") auto
  next
    case False
    then obtain kind where "wire_kind bs = Some kind" "2 \<le> n" by auto
    then show ?thesis using decode_body_accepted [of bs kind n o0 c0] assms by simp
  qed
  with that show thesis unfolding decode_clear_bit [OF assms] by (metis (full_types))
qed

interpretation td: bounded_codec tier0_enc tier0_dec 17
proof unfold_locales
  fix x bs rest
  assume enc: "tier0_enc x = Some bs"
  obtain major obj where x: "x = (major, obj)" by (cases x)
  with enc have obj: "tier0_encodable major obj" "wire_view major obj = obj" "bs = tier0_wire major obj"
    by (simp_all add: tier0_enc_iff)
  have "wire_major (bs @ rest) = major"
    using wire_header_object_bytes [OF obj(1), of 0 rest]
    by (simp add: obj(3) tier0_wire_object_bytes tier0_header_def)
  then show "tier0_dec (bs @ rest) = Some (x, length bs)"
    using decode_tier0_wire [OF obj(1), of "length (bs @ rest)" rest zero_object 0] obj(2,3)
    by (simp add: tier0_dec_def decoding_def x wire_major_byte)
next
  fix bs x n
  assume dec: "tier0_dec bs = Some (x, n)"
  obtain st obj c where run: "mcl_wire_tier0_decode (Some bs) (length bs) (Some zero_object) (Some 0) =
      (st, Some obj, Some c)"
    using decode_shape [of "length bs" bs zero_object 0] by blast
  with dec have st: "st = MCL_WIRE_OK" and x: "x = (wire_major bs, obj)" "c = n"
    by (auto simp: tier0_dec_def decoding_def wire_major_byte split: if_splits)
  from decode_OK_bytes [OF order_refl run [unfolded st]] x
  show "n \<le> length bs \<and> tier0_enc x = Some (take n bs)" by (simp add: tier0_enc_iff)
next
  fix x bs
  assume enc: "tier0_enc x = Some bs"
  obtain major obj where x: "x = (major, obj)" by (cases x)
  with enc have obj: "tier0_encodable major obj" "bs = tier0_wire major obj"
    by (simp_all add: tier0_enc_iff)
  then have "10 \<le> length bs \<and> length bs \<le> 17"
    by (simp add: length_tier0_wire encoded_size_bounds tier0_encodable_def)
  then show "bs \<noteq> []" and "length bs \<le> 17" by auto
qed

section \<open>Encoding\<close>

text \<open>What the encoder answers, given the size of the encoding (0 for a kind the major does not carry).\<close>

definition encode_verdict :: "nat \<Rightarrow> nat \<Rightarrow> mcl_wire_tier0 \<Rightarrow> mcl_wire_status" where
  "encode_verdict sz cap obj =
     (if sz = 0 then MCL_WIRE_ERR_UNSUPPORTED_SEMANTIC
      else if cap < sz then MCL_WIRE_ERR_BUFFER_TOO_SMALL
      else if obj_priority obj \<le> 3 \<and> fields_in_range obj then MCL_WIRE_OK
      else MCL_WIRE_ERR_RANGE)"

text \<open>
  C6: The outcome of \<open>mcl_wire_tier0_encode_at_major\<close> for every object, buffer and capacity. The
  checks come in a fixed order (does the major carry the kind, is there room, are the values in
  range), the first two refuse before a byte is written, no byte behind the encoded size is ever
  written, and \<open>*written\<close> is set on success only. On success the buffer starts with the bytes of the
  layout, \<open>tier0_wire\<close>: the two header bytes and the fields bit by bit, padded with zeros. What a
  refusal on range leaves within the encoded size is not specified.
\<close>

theorem tier0_encode_outcome:
  assumes "cap \<le> length bs" and "sz = mcl_wire_tier0_encoded_size_at_major major (obj_kind obj)"
  shows "\<exists>out. mcl_wire_tier0_encode_at_major major (Some obj) (Some bs) cap (Some w) =
       (encode_verdict sz cap obj, Some out,
        Some (if encode_verdict sz cap obj = MCL_WIRE_OK then sz else w)) \<and>
     length out = length bs \<and> drop sz out = drop sz bs \<and> (sz = 0 \<or> cap < sz \<longrightarrow> out = bs) \<and>
     (encode_verdict sz cap obj = MCL_WIRE_OK \<longrightarrow> take sz out = tier0_wire major obj)"
proof -
  have carried: "kind_carried major (obj_kind obj) \<longleftrightarrow> sz \<noteq> 0"
    using encoded_size_at_major_pos [of major "obj_kind obj"] by (simp add: assms(2))
  consider "sz = 0" | "sz \<noteq> 0" "cap < sz" | "sz \<noteq> 0" "sz \<le> cap" by linarith
  then show ?thesis
  proof cases
    case 3
    then have room: "sz \<le> length bs" and kind: "kind_carried major (obj_kind obj)"
      using assms(1) carried by auto
    note len = length_tier0_wire [OF kind, folded assms(2)]
    show ?thesis
    proof (cases "tier0_encodable major obj")
      case True
      with encode_success [OF True _ 3(2) room, of w] len room show ?thesis
        using 3 carried by (auto simp: assms(2) encode_verdict_def tier0_encodable_iff)
    next
      case False
      with encode_out_of_range [OF kind False _ 3(2) room, of w] room show ?thesis
        using 3 carried by (auto simp: assms(2) encode_verdict_def tier0_encodable_iff)
    qed
  qed (simp_all add: assms(2) encode_verdict_def mcl_wire_tier0_encode_at_major_def Let_def)
qed

text \<open>
  What a receiver has of an object: the common members, and of the union the member that the kind
  selects. The Stable major does not carry the machine class of a PRESENCE; it reads back as 0.
\<close>

definition same_message :: "u8 \<Rightarrow> mcl_wire_tier0 \<Rightarrow> mcl_wire_tier0 \<Rightarrow> bool" where
  "same_message major obj obj' \<longleftrightarrow>
     obj_kind obj' = obj_kind obj \<and> obj_priority obj' = obj_priority obj \<and>
     obj_source_ref obj' = obj_source_ref obj \<and>
     (let k = obj_kind obj; b = obj_body obj; b' = obj_body obj' in
      if k = MCL_WIRE_KIND_PRESENCE
      then body_presence b' = (if major = MCL_WIRE_STABLE_MAJOR
                               then (body_presence b)\<lparr>presence_machine_class := 0\<rparr> else body_presence b)
      else if k = MCL_WIRE_KIND_HAZARD then body_hazard b' = body_hazard b
      else if k = MCL_WIRE_KIND_REQUEST then body_request b' = body_request b
      else if k = MCL_WIRE_KIND_AUTHORITY_CLAIM then body_authority_claim b' = body_authority_claim b
      else if k = MCL_WIRE_KIND_DEGRADED_STATE then body_degraded_state b' = body_degraded_state b
      else if k = MCL_WIRE_KIND_TRANSPORT_OFFER then body_transport_offer b' = body_transport_offer b
      else if k = MCL_WIRE_KIND_TRANSPORT_ACCEPT then body_transport_accept b' = body_transport_accept b
      else True)"

lemma same_message_view: "same_message major obj (wire_view major obj)"
  by (simp add: same_message_def wire_view_def Let_def)

text \<open>
  C1: Encoding and decoding are inverse: what a successful call wrote, wherever it sits at the front
  of a larger buffer, decodes to the same kind, priority, source and members of the kind's body, and
  to the same number of bytes. The one exception is the machine class of a PRESENCE at the Stable
  major, which is not on the wire and decodes as 0 whatever the caller passed in.
\<close>

theorem tier0_round_trip:
  assumes "cap \<le> length bs"
    and "mcl_wire_tier0_encode_at_major major (Some obj) (Some bs) cap (Some w) =
       (MCL_WIRE_OK, Some out, Some n)"
    and "n \<le> size_in" and "size_in \<le> length (take n out @ rest)"
  shows "\<exists>obj'. mcl_wire_tier0_decode (Some (take n out @ rest)) size_in (Some o0) (Some c0) =
       (MCL_WIRE_OK, Some obj', Some n) \<and> same_message major obj obj'"
proof -
  have ok: "kind_carried major (obj_kind obj)" "tier0_encodable major obj"
    "mcl_wire_tier0_encoded_size_at_major major (obj_kind obj) \<le> cap"
    using encode_status [OF assms(1), of major obj w] assms(2) by (auto split: if_splits)
  note len = length_tier0_wire [OF ok(1)]
  have "out = tier0_wire major obj @ drop n bs" "n = length (tier0_wire major obj)"
    using encode_success [OF ok(2) refl ok(3), of bs w] assms(1,2) ok(3) len by auto
  then have "take n out = tier0_wire major obj" "n = length (tier0_wire major obj)" by simp_all
  with decode_tier0_wire [OF ok(2), of size_in rest o0 c0] assms(3,4) same_message_view
  show ?thesis by simp
qed

section \<open>Decoding\<close>

text \<open>What the decoder answers, in the order of its checks.\<close>

definition decode_verdict :: "u8 list \<Rightarrow> nat \<Rightarrow> mcl_wire_status" where
  "decode_verdict bs n =
     (if n < 2 then MCL_WIRE_ERR_TRUNCATED
      else if hdr_extension_present (wire_header bs) \<noteq> 0 then MCL_WIRE_ERR_UNSUPPORTED_SEMANTIC
      else case wire_kind bs of
             None \<Rightarrow> MCL_WIRE_ERR_UNSUPPORTED_SEMANTIC
           | Some kind \<Rightarrow>
               if n < wire_size bs kind then MCL_WIRE_ERR_TRUNCATED
               else if wire_padding_zero bs kind then MCL_WIRE_OK
               else MCL_WIRE_ERR_NONCANONICAL)"

text \<open>
  C7: The outcome of \<open>mcl_wire_tier0_decode\<close> for every byte string. A refusal leaves \<open>*consumed\<close>
  alone, and every refusal except the one for padding bits leaves \<open>*object\<close> alone too; a decoder that
  finds padding bits set has already stored the fields.
\<close>

theorem tier0_decode_outcome:
  assumes "n \<le> length bs"
  shows "\<exists>obj. mcl_wire_tier0_decode (Some bs) n (Some o0) (Some c0) =
       (decode_verdict bs n, Some obj,
        Some (if decode_verdict bs n = MCL_WIRE_OK then wire_size bs (the (wire_kind bs)) else c0)) \<and>
     (decode_verdict bs n \<in> {MCL_WIRE_OK, MCL_WIRE_ERR_NONCANONICAL} \<longrightarrow>
        obj = wire_object bs (the (wire_kind bs))) \<and>
     (decode_verdict bs n \<notin> {MCL_WIRE_OK, MCL_WIRE_ERR_NONCANONICAL} \<longrightarrow> obj = o0)"
proof (cases "n < 2 \<or> hdr_extension_present (wire_header bs) \<noteq> 0")
  case True
  then show ?thesis
    by (auto simp: decode_clear_bit [OF assms] decode_verdict_def decode_body_short not_less)
next
  case False
  then have n: "2 \<le> n" by simp
  show ?thesis
  proof (cases "wire_kind bs")
    case None
    then show ?thesis
      using False by (simp add: decode_clear_bit [OF assms] decode_verdict_def decode_body_refused [OF n])
  next
    case (Some kind)
    then show ?thesis
      using False
      by (simp add: decode_clear_bit [OF assms] decode_verdict_def decode_body_accepted [OF Some n assms])
  qed
qed

lemma decode_reencodes:
  assumes "n \<le> length bs"
    and "mcl_wire_tier0_decode (Some bs) n (Some o0) (Some c0) = (MCL_WIRE_OK, Some obj, Some c)"
    and "c \<le> cap" and "cap \<le> length out"
  shows "c \<le> n \<and>
     mcl_wire_tier0_encode_at_major (drop_bit 4 (bs ! 0)) (Some obj) (Some out) cap (Some w) =
       (MCL_WIRE_OK, Some (take c bs @ drop c out), Some c)"
proof -
  note bytes = decode_OK_bytes [OF assms(1,2)]
  have "length (take c bs) = c" using bytes(3) assms(1) by simp
  then have len: "length (tier0_wire (wire_major bs) obj) = c" by (simp add: bytes(2))
  have "kind_carried (wire_major bs) (obj_kind obj)" using bytes(1) by (simp add: tier0_encodable_def)
  from length_tier0_wire [OF this] len
  have "mcl_wire_tier0_encoded_size_at_major (wire_major bs) (obj_kind obj) = c" by simp
  from encode_success [OF bytes(1) this assms(3), of out w] assms(3,4) bytes(3)
  show ?thesis unfolding wire_major_byte [symmetric] bytes(2) by simp
qed

text \<open>
  C2: The wire form is canonical: an object that decodes re-encodes, at the major it came with, to the
  very bytes that were consumed. Two different byte strings therefore never decode to the same object,
  and padding, unused code points and unused majors carry no hidden information.
\<close>

theorem tier0_canonical:
  assumes "n \<le> length bs"
    and "mcl_wire_tier0_decode (Some bs) n (Some o0) (Some c0) = (MCL_WIRE_OK, Some obj, Some c)"
    and "c \<le> cap" and "cap \<le> length out"
  shows "c \<le> n \<and>
     mcl_wire_tier0_encode_at_major (drop_bit 4 (bs ! 0)) (Some obj) (Some out) cap (Some w) =
       (MCL_WIRE_OK, Some (take c bs @ drop c out), Some c)"
  using assms by (rule decode_reencodes)

text \<open>
  The decoder finds the end of an object by itself. With fewer bytes than it consumed it reports
  \<open>MCL_WIRE_ERR_TRUNCATED\<close> and touches nothing; the bytes behind the object, whatever they are and
  however many, change nothing.
\<close>

theorem tier0_decode_boundary:
  assumes "n \<le> length bs"
    and "mcl_wire_tier0_decode (Some bs) n (Some o0) (Some c0) = (MCL_WIRE_OK, Some obj, Some c)"
  shows "(\<forall>m o1 c1. m < c \<longrightarrow> mcl_wire_tier0_decode (Some bs) m (Some o1) (Some c1) =
            (MCL_WIRE_ERR_TRUNCATED, Some o1, Some c1)) \<and>
     (\<forall>rest m o1 c1. c \<le> m \<and> m \<le> c + length rest \<longrightarrow>
        mcl_wire_tier0_decode (Some (take c bs @ rest)) m (Some o1) (Some c1) =
          (MCL_WIRE_OK, Some obj, Some c))"
proof -
  note bytes = decode_OK_bytes [OF assms]
  have len: "length (tier0_wire (wire_major bs) obj) = c"
    using bytes(3) assms(1) by (simp flip: bytes(2))
  have ok: "2 \<le> n" "hdr_extension_present (wire_header bs) = 0"
    and body: "mcl_wire_tier0_decode_body (Some bs) n (Some o0) (Some c0) = (MCL_WIRE_OK, Some obj, Some c)"
    using assms(2) decode_body_short [of n bs o0 c0]
    by (cases "n < 2", auto simp: decode_clear_bit [OF assms(1)] split: if_splits)+
  obtain kind where kind: "wire_kind bs = Some kind" "c = wire_size bs kind"
    using body unfolding decode_body_OK_iff [OF assms(1)] by blast
  have "mcl_wire_tier0_decode (Some bs) m (Some o1) (Some c1) = (MCL_WIRE_ERR_TRUNCATED, Some o1, Some c1)"
    if m: "m < c" for m o1 c1
  proof -
    have mb: "m \<le> length bs" using m bytes(3) assms(1) by linarith
    show ?thesis
      using m ok(2) kind decode_body_accepted [OF kind(1) _ mb, of o1 c1] decode_body_short [of m bs o1 c1]
      by (cases "m < 2") (simp_all add: decode_clear_bit [OF mb])
  qed
  moreover have "mcl_wire_tier0_decode (Some (take c bs @ rest)) m (Some o1) (Some c1) =
      (MCL_WIRE_OK, Some obj, Some c)" if "c \<le> m" "m \<le> c + length rest" for rest m o1 c1
    using decode_tier0_wire [OF bytes(1), of m rest o1 c1] that by (simp add: len bytes(2,4))
  ultimately show ?thesis by blast
qed

section \<open>Streams and majors\<close>

text \<open>
  C15: A stream of Tier-0 objects, written one directly behind the other without any framing, has one
  reading: no byte string is the concatenation of two different sequences of encodings, and each
  object costs between 1 and 17 bytes.
\<close>

theorem tier0_stream_unique:
  assumes "list_all2 (\<lambda>x bs. tier0_enc x = Some bs) xs bss"
    and "list_all2 (\<lambda>y cs. tier0_enc y = Some cs) ys css"
    and "concat bss = concat css"
  shows "xs = ys \<and> length xs \<le> length (concat bss) \<and> length (concat bss) \<le> 17 * length xs"
  using td.stream_unique [OF assms] td.stream_length [OF assms(1)] by simp

text \<open>
  Which objects a wire major carries is one rule, kept by both sides: the Experimental major
  carries the seven kinds, the Stable major PRESENCE, TRANSPORT OFFER and TRANSPORT ACCEPT, and no
  other major carries anything.
\<close>

theorem tier0_kind_assignment:
  assumes "cap \<le> length out" and "n \<le> length bs"
  shows "(fst (mcl_wire_tier0_encode_at_major major (Some obj) (Some out) cap (Some w)) =
            MCL_WIRE_ERR_UNSUPPORTED_SEMANTIC \<longleftrightarrow>
          \<not> (major = 0 \<and> obj_kind obj \<le> 6 \<or> major = 1 \<and> obj_kind obj \<in> {0, 5, 6})) \<and>
     (mcl_wire_tier0_decode (Some bs) n (Some o0) (Some c0) = (MCL_WIRE_OK, Some obj', Some c) \<longrightarrow>
        drop_bit 4 (bs ! 0) = 0 \<and> obj_kind obj' \<le> 6 \<or>
        drop_bit 4 (bs ! 0) = 1 \<and> obj_kind obj' \<in> {0, 5, 6})"
proof
  show "fst (mcl_wire_tier0_encode_at_major major (Some obj) (Some out) cap (Some w)) =
            MCL_WIRE_ERR_UNSUPPORTED_SEMANTIC \<longleftrightarrow>
          \<not> (major = 0 \<and> obj_kind obj \<le> 6 \<or> major = 1 \<and> obj_kind obj \<in> {0, 5, 6})"
    unfolding encode_status [OF assms(1)] by (auto simp: kind_carried_cases kind_le_six)
  show "mcl_wire_tier0_decode (Some bs) n (Some o0) (Some c0) = (MCL_WIRE_OK, Some obj', Some c) \<longrightarrow>
        drop_bit 4 (bs ! 0) = 0 \<and> obj_kind obj' \<le> 6 \<or>
        drop_bit 4 (bs ! 0) = 1 \<and> obj_kind obj' \<in> {0, 5, 6}"
    using decode_OK_bytes(1) [OF assms(2), of o0 c0 obj' c]
    by (auto simp: tier0_encodable_def kind_carried_cases kind_le_six wire_major_byte)
qed

section \<open>The statements at a concrete object\<close>

text \<open>An urgent hazard with every field at an edge of its range, and its 15 bytes.\<close>

definition sample_hazard :: mcl_wire_tier0 where
  "sample_hazard = zero_object\<lparr>obj_kind := 1, obj_priority := 3, obj_source_ref := 0xDEADBEEF,
     obj_body := zero_body\<lparr>body_hazard := \<lparr>hazard_hazard_class = 7, hazard_severity = 5,
       hazard_confidence = 100, hazard_x = -3, hazard_y = 2047, hazard_z = -512, hazard_radius = 1023,
       hazard_ttl = 60\<rparr>\<rparr>\<rparr>"

definition sample_bytes :: "u8 list" where
  "sample_bytes = [3, 14, 222, 173, 190, 239, 7, 185, 63, 245, 255, 224, 15, 252, 240]"

lemma sample_encoding:
  "mcl_wire_tier0_encode_at_major 0 (Some sample_hazard) (Some (replicate 17 255)) 17 (Some 99) =
     (MCL_WIRE_OK, Some (sample_bytes @ [255, 255]), Some 15)"
  by code_simp

lemma sample_decoding:
  "mcl_wire_tier0_decode (Some (sample_bytes @ [1, 2, 3])) 18 (Some zero_object) (Some 99) =
     (MCL_WIRE_OK, Some sample_hazard, Some 15)"
  by code_simp

theorem tier0_encode_outcome_witness:
  "(\<exists>out. mcl_wire_tier0_encode_at_major 0 (Some sample_hazard) (Some (replicate 17 255)) 14 (Some 99) =
       (MCL_WIRE_ERR_BUFFER_TOO_SMALL, Some out, Some 99) \<and> out = replicate 17 255) \<and>
   tier0_wire 0 sample_hazard = sample_bytes"
proof -
  have "encode_verdict 15 14 sample_hazard = MCL_WIRE_ERR_BUFFER_TOO_SMALL"
    "encode_verdict 15 17 sample_hazard = MCL_WIRE_OK"
    "15 = mcl_wire_tier0_encoded_size_at_major 0 (obj_kind sample_hazard)" by code_simp+
  with tier0_encode_outcome [of 14 "replicate 17 255" 15 0 sample_hazard 99]
    tier0_encode_outcome [of 17 "replicate 17 255" 15 0 sample_hazard 99] sample_encoding
  show ?thesis by (auto simp: sample_bytes_def)
qed

text \<open>The second half is a PRESENCE of machine class 9 at the Stable major.\<close>

definition sample_presence :: mcl_wire_tier0 where
  "sample_presence = zero_object\<lparr>obj_priority := 1, obj_source_ref := 0xCAFE,
     obj_body := zero_body\<lparr>body_presence := \<lparr>presence_machine_class = 9,
       presence_capability_tag = 0xABCDEF, presence_ttl = 60\<rparr>\<rparr>\<rparr>"

lemma sample_presence_encoding:
  "mcl_wire_tier0_encode_at_major 1 (Some sample_presence) (Some (replicate 10 0)) 10 (Some 99) =
     (MCL_WIRE_OK, Some [16, 2, 0, 0, 202, 254, 171, 205, 239, 60], Some 10)"
  by code_simp

theorem tier0_round_trip_witness:
  "(\<exists>obj. mcl_wire_tier0_decode (Some (sample_bytes @ [9])) 16 (Some zero_object) (Some 0) =
       (MCL_WIRE_OK, Some obj, Some 15) \<and> same_message 0 sample_hazard obj) \<and>
   (\<exists>obj. mcl_wire_tier0_decode (Some [16, 2, 0, 0, 202, 254, 171, 205, 239, 60]) 10 (Some zero_object) (Some 0) =
       (MCL_WIRE_OK, Some obj, Some 10) \<and> presence_machine_class (body_presence (obj_body obj)) = 0)"
  using tier0_round_trip [OF _ sample_encoding, of 16 "[9]" zero_object 0]
    tier0_round_trip [OF _ sample_presence_encoding, of 10 "[]" zero_object 0]
  by (auto simp: sample_bytes_def same_message_def sample_presence_def zero_object_def Let_def)

theorem tier0_decode_outcome_witness:
  "\<exists>obj. mcl_wire_tier0_decode (Some (sample_bytes @ [1, 2, 3])) 12 (Some zero_object) (Some 99) =
     (MCL_WIRE_ERR_TRUNCATED, Some obj, Some 99) \<and> obj = zero_object"
proof -
  have "decode_verdict (sample_bytes @ [1, 2, 3]) 12 = MCL_WIRE_ERR_TRUNCATED" by code_simp
  with tier0_decode_outcome [of 12 "sample_bytes @ [1, 2, 3]" zero_object 99] show ?thesis
    by (auto simp: sample_bytes_def)
qed

theorem tier0_canonical_witness:
  "mcl_wire_tier0_encode_at_major 0 (Some sample_hazard) (Some (replicate 15 0)) 15 (Some 0) =
     (MCL_WIRE_OK, Some sample_bytes, Some 15)"
  using tier0_canonical [OF _ sample_decoding, of 15 "replicate 15 0" 0]
  by (simp add: sample_bytes_def)

theorem tier0_decode_boundary_witness:
  "mcl_wire_tier0_decode (Some (sample_bytes @ [1, 2, 3])) 14 (Some zero_object) (Some 0) =
     (MCL_WIRE_ERR_TRUNCATED, Some zero_object, Some 0)"
  using tier0_decode_boundary [OF _ sample_decoding] by (simp add: sample_bytes_def)

theorem tier0_stream_unique_witness:
  "length (concat [sample_bytes, sample_bytes]) \<le> 17 * length [(0 :: u8, sample_hazard), (0, sample_hazard)]"
proof -
  have "tier0_enc (0, sample_hazard) = Some sample_bytes" by code_simp
  then have "list_all2 (\<lambda>x bs. tier0_enc x = Some bs) [(0, sample_hazard), (0, sample_hazard)]
      [sample_bytes, sample_bytes]" by simp
  from tier0_stream_unique [OF this this refl] show ?thesis by (simp add: sample_bytes_def)
qed

theorem tier0_kind_assignment_witness:
  "fst (mcl_wire_tier0_encode_at_major 1 (Some sample_hazard) (Some (replicate 17 0)) 17 (Some 0)) =
     MCL_WIRE_ERR_UNSUPPORTED_SEMANTIC"
proof -
  have "\<not> (1 = (0 :: u8) \<and> obj_kind sample_hazard \<le> 6 \<or> 1 = (1 :: u8) \<and> obj_kind sample_hazard \<in> {0, 5, 6})"
    by code_simp
  then show ?thesis
    using tier0_kind_assignment [of 17 "replicate 17 0" 0 "[]" 1 sample_hazard 0 zero_object 0 zero_object 0]
    by simp
qed

end
