(* ===== verification/Wire_Tier0_Ext_Spec.thy ===== *)
theory Wire_Tier0_Ext_Spec
  imports Wire_Extension_Spec Wire_Tier0_Spec
begin

text \<open>
  The promises of \<open>mcl_wire_tier0_encode_ext\<close>, \<open>mcl_wire_tier0_decode_ext\<close> and
  \<open>mcl_wire_tier0_decode_ext_accept\<close>: the outcome of every call, round trips, canonical form, the
  criticality rule, and that objects with extensions are self-delimiting and at most
  \<open>MCL_WIRE_TIER0_EXT_MAX_SIZE\<close> bytes long.
\<close>

unbundle bit_operations_syntax

section \<open>Definitions of the contract\<close>

abbreviation (input) MCL_WIRE_TIER0_EXT_MAX_SIZE :: nat where "MCL_WIRE_TIER0_EXT_MAX_SIZE \<equiv> 275"


definition mk_ext :: "tlv \<Rightarrow> mcl_wire_extension" where
  "mk_ext = (\<lambda>(i, c, v). \<lparr>ext_id = i, ext_critical = c, ext_value = Some v, ext_value_size = length v\<rparr>)"

definition ext_enc :: "mcl_wire_tier0 \<times> tlv list \<Rightarrow> u8 list option" where
  "ext_enc = (\<lambda>(obj, ts).
     if wire_view 0 obj = obj
     then encoding (mcl_wire_tier0_encode_ext (Some obj) (Some (map mk_ext ts)) (length ts)
            (Some (replicate 275 0)) 275 (Some 0))
     else None)"

text \<open>A receiver that knows every extension, and takes objects of the Experimental major only.\<close>

definition ext_dec :: "u8 list \<Rightarrow> ((mcl_wire_tier0 \<times> tlv list) \<times> nat) option" where
  "ext_dec bs =
     (case mcl_wire_tier0_decode_ext_accept (Some bs) (length bs) (Some zero_object)
             (Some (block_reader [] 0)) (Some (accept_known (\<lambda>_. True))) () (Some 0) of
        (st, obj, r, c, _) \<Rightarrow>
          if st = MCL_WIRE_OK \<and> drop_bit 4 (bs ! 0) = 0
          then Some ((the obj, map tlv_of (snd (drain_reader (the r)))), the c) else None)"

section \<open>Facts\<close>





lemma encode_OK_shape:
  assumes "mcl_wire_tier0_encode_at_major major (Some obj) (Some bs) cap (Some w) = (MCL_WIRE_OK, out, w')"
    and "cap \<le> length bs"
  obtains out' n where "out = Some out'" "w' = Some n"
proof -
  have "tier0_encodable major obj" "mcl_wire_tier0_encoded_size_at_major major (obj_kind obj) \<le> cap"
    using encode_status [OF assms(2), of major obj w] assms(1) by (auto split: if_splits)
  from encode_success [OF this(1) refl this(2), of bs w] assms this(2) that show thesis by auto
qed

lemma encode_ext_OK_shape:
  assumes "mcl_wire_tier0_encode_ext (Some obj) (Some xs) count (Some bs) cap (Some w) = (MCL_WIRE_OK, out, w')"
    and "cap \<le> length bs"
  obtains out' n where "out = Some out'" "w' = Some n"
proof (cases "count = 0")
  case True
  with assms encode_OK_shape [of 0 obj bs cap w out w'] that show thesis
    by (auto simp: mcl_wire_tier0_encode_ext_def mcl_wire_tier0_encode_def)
next
  case False
  with assms(1) that show thesis
    by (auto simp: mcl_wire_tier0_encode_ext_def Let_def split: if_splits prod.splits)
qed

text \<open>The scan of a well-formed block, whatever the callback answers.\<close>

lemma ext_scan_block:
  assumes "rdx_wf r" and "rdx_rest r = block_wire ts" and "block_ok (rdx_previous r) ts"
  shows "ext_scan accept user r e0 h0 =
     (if fst (accept_all accept user (rdx_views r ts)) then MCL_WIRE_OK else MCL_WIRE_ERR_UNSUPPORTED_SEMANTIC,
      snd (accept_all accept user (rdx_views r ts)))"
  using assms
proof (induction ts arbitrary: accept r user e0 h0)
  case Nil
  then have "rdx_offset r = rdx_size r" using rdx_rest_Nil_iff by simp
  then show ?case by (subst ext_scan.simps) (simp add: mcl_wire_extension_reader_next_def)
next
  case (Cons t ts)
  from Cons.prems have t: "rdx_rest r = tlv_wire t @ block_wire ts" "tlv_ok t"
    "tlv_above (rdx_previous r) t" by (simp_all add: tlv_above_def)
  note after = rdx_after_wf [OF Cons.prems(1) t(1)]
  have "block_ok (rdx_previous (rdx_after t r)) ts" using Cons.prems(3) after(3) by simp
  note IH = Cons.IH [OF after(1,2) this]
  show ?case
    by (subst ext_scan.simps)
       (simp add: reader_next_wire [OF Cons.prems(1) t] IH Let_def split: option.splits prod.splits)
qed

lemma decode_ext_wire_refused:
  assumes "ext_encodable major obj ts" and "length (ext_wire major obj ts) \<le> n"
    and "n \<le> length (ext_wire major obj ts @ rest)"
    and "accept_all accept user (rdx_views (suffix_reader (ext_suffix ts @ rest) ts) ts) = (False, user')"
  shows "mcl_wire_tier0_decode_ext_accept (Some (ext_wire major obj ts @ rest)) n (Some o0) (Some r0)
      accept user (Some c0) =
    (MCL_WIRE_ERR_UNSUPPORTED_SEMANTIC, Some (wire_view major obj), Some r0, Some c0, user')"
proof -
  have ts: "ts \<noteq> []" using assms(4) by auto
  have blk: "block_ok None ts" "length (block_wire ts) \<le> MCL_WIRE_EXTENSION_BLOCK_MAX"
    using assms(1) by (simp_all add: ext_encodable_def)
  note stages = ext_wire_body [OF assms(1-3) refl]
  let ?r = "suffix_reader (ext_suffix ts @ rest) ts"
  have "block_ok (rdx_previous ?r) ts" using blk(1) by (simp add: suffix_reader_simps(3) [OF ts])
  from ext_scan_block [OF suffix_reader_simps(1,2) [OF ts] this, of accept user] assms(4)
  have scan: "ext_scan accept user ?r e0 h0 = (MCL_WIRE_ERR_UNSUPPORTED_SEMANTIC, user')" for e0 h0 by simp
  from decode_ext_scan [OF stages(1,2) assms(3) stages(3) ts blk(2) stages(4,5), of o0 r0 accept user c0]
  show ?thesis unfolding stages(4) scan by simp
qed

lemma tlv_of_mk_ext [simp]: "tlv_of (mk_ext t) = t" "readable (mk_ext t)"
  by (auto simp: tlv_of_def mk_ext_def ext_bytes_def readable_def split: prod.splits)

lemma map_tlv_of_mk_ext [simp]: "map tlv_of (map mk_ext ts) = ts"
  by (simp add: comp_def)

lemma ext_ok_mk_ext: "ext_ok (mk_ext t) \<longleftrightarrow> tlv_ok t"
  by (auto simp: ext_ok_def mk_ext_def tlv_ok_def split: prod.splits)

text \<open>The encoder succeeds on everything the wire form covers.\<close>

lemma encode_ext_success:
  assumes "ext_encodable 0 obj (map tlv_of (take count xs))" and "list_all ext_ok (take count xs)"
    and "count \<le> length xs" and "\<forall>e \<in> set xs. readable e" and "cap \<le> length bs"
    and "length (ext_wire 0 obj (map tlv_of (take count xs))) \<le> cap"
  defines "ws \<equiv> ext_wire 0 obj (map tlv_of (take count xs))"
  shows "mcl_wire_tier0_encode_ext (Some obj) (Some xs) count (Some bs) cap (Some w) =
     (MCL_WIRE_OK, Some (ws @ drop (length ws) bs), Some (length ws))"
proof (cases "take count xs = []")
  case True
  then have count: "count = 0" using assms(3) by auto
  have "tier0_encodable 0 obj" using assms(1) by (simp add: ext_encodable_def)
  from encode_success_major_0 [OF this _ assms(5), of w] assms(6)
  show ?thesis
    by (simp add: ws_def count encode_ext_empty ext_wire_def ext_suffix_def ext_bit_def tier0_wire_object_bytes)
next
  case False
  have "length (tier0_wire 0 obj) \<le> cap"
    using assms(6) by (simp add: ext_wire_def tier0_wire_object_bytes object_bytes_def)
  from encode_ext_tail [OF assms(2,4,1) False assms(5) this refl assms(3), of w] assms(6)
  show ?thesis by (auto simp: ws_def)
qed

lemma length_ext_wire_le:
  assumes "ext_encodable major obj ts"
  shows "length (ext_wire major obj ts) \<le> MCL_WIRE_TIER0_EXT_MAX_SIZE" and "ext_wire major obj ts \<noteq> []"
proof -
  have enc: "kind_carried major (obj_kind obj)" and B: "length (block_wire ts) \<le> 256"
    using assms by (simp_all add: ext_encodable_def tier0_encodable_def)
  have body: "10 \<le> length (object_bytes (ext_bit ts) major obj)" "length (object_bytes (ext_bit ts) major obj) \<le> 17"
    using enc by (simp_all add: length_object_bytes encoded_size_bounds)
  have "uvarint_len (length (block_wire ts)) \<le> 2"
    using B by (subst uvarint_len.simps, subst uvarint_len.simps) auto
  then have "length (ext_suffix ts) \<le> 258"
    using B unat_block_length [OF B] by (simp add: ext_suffix_def length_uvarint_wire)
  with body show "length (ext_wire major obj ts) \<le> MCL_WIRE_TIER0_EXT_MAX_SIZE" and "ext_wire major obj ts \<noteq> []"
    by (auto simp: ext_wire_def)
qed

lemma ext_enc_iff:
  "ext_enc (obj, ts) = Some bs \<longleftrightarrow> ext_encodable 0 obj ts \<and> wire_view 0 obj = obj \<and> bs = ext_wire 0 obj ts"
proof -
  let ?xs = "map mk_ext ts"
  let ?run = "mcl_wire_tier0_encode_ext (Some obj) (Some ?xs) (length ts) (Some (replicate 275 0)) 275 (Some 0)"
  have xs: "take (length ts) ?xs = ?xs" "length ts \<le> length ?xs" "\<forall>e \<in> set ?xs. readable e" by auto
  show ?thesis
  proof (cases "ext_encodable 0 obj ts")
    case True
    then have ok: "list_all ext_ok ?xs"
      by (auto simp: ext_encodable_def block_ok_def list_all_iff ext_ok_mk_ext)
    have "?run = (MCL_WIRE_OK, Some (ext_wire 0 obj ts @ drop (length (ext_wire 0 obj ts)) (replicate 275 0)),
        Some (length (ext_wire 0 obj ts)))"
      using encode_ext_success [of obj "length ts" ?xs 275 "replicate 275 0" 0] True ok xs
        length_ext_wire_le(1) [OF True] by (simp del: map_map)
    with True show ?thesis by (auto simp: ext_enc_def encoding_def)
  next
    case False
    obtain st out w where run: "?run = (st, out, w)" by (cases ?run)
    have "st \<noteq> MCL_WIRE_OK"
    proof
      assume st: "st = MCL_WIRE_OK"
      obtain out' n where "out = Some out'" "w = Some n"
        using encode_ext_OK_shape [OF run [unfolded st]] by auto
      with encode_ext_OK(1) [OF xs(2,3) _ run [unfolded st this]] False xs(1)
      show False by (simp del: map_map)
    qed
    with run False show ?thesis by (auto simp: ext_enc_def encoding_def)
  qed
qed

lemma drain_ext_wire:
  fixes rest :: "u8 list"
  assumes "ext_encodable major obj ts"
  defines "r \<equiv> suffix_reader (ext_suffix ts @ rest) ts"
  shows "drain_reader r = (MCL_WIRE_OK, rdx_views r ts)" and "map tlv_of (rdx_views r ts) = ts"
    and "\<forall>e \<in> set (rdx_views r ts). readable e" and "list_all ext_ok (rdx_views r ts)"
  using drain_suffix [OF refl, of ts rest] assms(1) by (simp_all add: r_def ext_encodable_def)

lemma wire_major_ext_wire:
  assumes "ext_encodable major obj ts"
  shows "drop_bit 4 ((ext_wire major obj ts @ rest) ! 0) = major"
proof -
  have enc: "tier0_encodable major obj" using assms by (simp add: ext_encodable_def)
  have "ext_wire major obj ts @ rest = object_bytes (ext_bit ts) major obj @ ext_suffix ts @ rest"
    by (simp add: ext_wire_def)
  with wire_header_object_bytes [OF enc ext_bit_le, of ts "ext_suffix ts @ rest"] show ?thesis
    by (simp add: wire_major_byte [symmetric] tier0_header_def)
qed

lemma decode_ext_shape:
  assumes "n \<le> length bs"
    and "mcl_wire_tier0_decode_ext_accept (Some bs) n (Some o0) (Some r0) accept user (Some c0) =
      (MCL_WIRE_OK, obj, r, c, user')"
  obtains obj' c' where "obj = Some obj'" "c = Some c'"
proof -
  obtain st o1 b1 where body: "mcl_wire_tier0_decode_body (Some bs) n (Some o0) (Some 0) = (st, o1, b1)"
    by (cases "mcl_wire_tier0_decode_body (Some bs) n (Some o0) (Some 0)")
  have st: "st = MCL_WIRE_OK"
    using decode_ext_refused_body [OF body, of r0 accept user c0] assms(2) by auto
  have n: "2 \<le> n" using body st decode_body_short [of n bs o0 0] by (cases "n < 2") auto
  obtain o2 b where ob: "o1 = Some o2"
  proof (cases "wire_kind bs")
    case None
    then show thesis using body st decode_body_refused [OF n] by simp
  next
    case (Some kind)
    then show thesis
      using body st that decode_body_accepted [OF Some n assms(1), of o0 0] by (auto split: if_splits)
  qed
  show thesis
    using assms(2) that body ob
    by (auto simp: mcl_wire_tier0_decode_ext_accept_def Let_def split: if_splits prod.splits)
qed

lemma ext_dec_wire:
  assumes "ext_encodable 0 obj ts" and "wire_view 0 obj = obj"
  shows "ext_dec (ext_wire 0 obj ts @ rest) = Some ((obj, ts), length (ext_wire 0 obj ts))"
proof -
  let ?r = "suffix_reader (ext_suffix ts @ rest) ts"
  have "accept_all (Some (accept_known (\<lambda>_. True))) () (rdx_views ?r ts) = (True, ())"
    by (simp add: accept_all_known list_all_iff)
  from decode_ext_wire [OF assms(1) _ order_refl this] drain_ext_wire [OF assms(1), of rest]
    wire_major_ext_wire [OF assms(1), of rest] assms(2)
  show ?thesis by (simp add: ext_dec_def)
qed

lemma ext_dec_bytes:
  assumes "ext_dec bs = Some ((obj, ts), n)"
  shows "ext_encodable 0 obj ts" and "wire_view 0 obj = obj" and "n \<le> length bs"
    and "take n bs = ext_wire 0 obj ts"
proof -
  let ?f = "Some (accept_known (\<lambda>_. True))"
  obtain o1 r c user' where run0: "mcl_wire_tier0_decode_ext_accept (Some bs) (length bs) (Some zero_object)
      (Some (block_reader [] 0)) ?f () (Some 0) = (MCL_WIRE_OK, o1, r, c, user')"
    and major: "drop_bit 4 (bs ! 0) = 0"
    and res: "obj = the o1" "ts = map tlv_of (snd (drain_reader (the r)))" "n = the c"
    using assms by (auto simp: ext_dec_def split: prod.splits if_splits)
  obtain obj' c' where some: "o1 = Some obj'" "c = Some c'" using decode_ext_shape [OF order_refl run0] .
  obtain us rest where dec: "ext_encodable (wire_major bs) obj' us" "bs = ext_wire (wire_major bs) obj' us @ rest"
    "c' = length (ext_wire (wire_major bs) obj' us)" "c' \<le> length bs" "wire_view (wire_major bs) obj' = obj'"
    "r = Some (suffix_reader (ext_suffix us @ rest) us)"
    using decode_ext_OK_bytes [OF order_refl run0 [unfolded some]] by blast
  have "wire_major bs = 0" using major by (simp add: wire_major_byte)
  note dec = dec [unfolded this]
  have "ts = us" using res(2) drain_ext_wire(1,2) [OF dec(1), of rest] by (simp add: dec(6))
  moreover have "take c' bs = ext_wire 0 obj' us"
    by (subst dec(2)) (simp add: dec(3))
  ultimately show "ext_encodable 0 obj ts" and "wire_view 0 obj = obj" and "n \<le> length bs"
    and "take n bs = ext_wire 0 obj ts"
    using dec(1,4,5) res some by simp_all
qed

interpretation xd: bounded_codec ext_enc ext_dec MCL_WIRE_TIER0_EXT_MAX_SIZE
proof unfold_locales
  fix x bs rest
  assume "ext_enc x = Some bs"
  moreover obtain obj ts where "x = (obj, ts)" by (cases x)
  ultimately show "ext_dec (bs @ rest) = Some (x, length bs)"
    by (auto simp: ext_enc_iff ext_dec_wire)
next
  fix bs x n
  assume "ext_dec bs = Some (x, n)"
  moreover obtain obj ts where "x = (obj, ts)" by (cases x)
  ultimately show "n \<le> length bs \<and> ext_enc x = Some (take n bs)"
    using ext_dec_bytes [of bs obj ts n] by (auto simp: ext_enc_iff)
next
  fix x bs
  assume "ext_enc x = Some bs"
  moreover obtain obj ts where "x = (obj, ts)" by (cases x)
  ultimately show "bs \<noteq> []" and "length bs \<le> MCL_WIRE_TIER0_EXT_MAX_SIZE"
    using length_ext_wire_le [of 0 obj ts] by (auto simp: ext_enc_iff)
qed

section \<open>Encoding\<close>


text \<open>
  C4: Encoding and decoding an object with extensions. What a successful call wrote, at the front of
  any buffer, decodes with a receiver that knows some set of extension ids: if it knows every id marked
  critical, it gets the object, the size, and a reader that delivers the same extensions; if it does not,
  it gets \<open>MCL_WIRE_ERR_UNSUPPORTED_SEMANTIC\<close> and neither a reader nor a size.
\<close>

theorem ext_round_trip:
  assumes "count \<le> length xs" and "\<forall>e \<in> set xs. readable e" and "cap \<le> length bs"
    and "mcl_wire_tier0_encode_ext (Some obj) (Some xs) count (Some bs) cap (Some w) = (MCL_WIRE_OK, Some out, Some n)"
    and "n \<le> size_in" and "size_in \<le> length (take n out @ rest)"
  shows "if \<forall>e \<in> set (take count xs). ext_critical e \<noteq> 0 \<longrightarrow> known (ext_id e)
     then \<exists>r es. mcl_wire_tier0_decode_ext_accept (Some (take n out @ rest)) size_in (Some o0) (Some r0)
              (Some (accept_known known)) user (Some c0) =
            (MCL_WIRE_OK, Some (wire_view 0 obj), Some r, Some n, user) \<and>
          drain_reader r = (MCL_WIRE_OK, es) \<and>
          map (\<lambda>e. (ext_id e, ext_critical e, ext_bytes e)) es =
            map (\<lambda>e. (ext_id e, ext_critical e, ext_bytes e)) (take count xs)
     else mcl_wire_tier0_decode_ext_accept (Some (take n out @ rest)) size_in (Some o0) (Some r0)
              (Some (accept_known known)) user (Some c0) =
            (MCL_WIRE_ERR_UNSUPPORTED_SEMANTIC, Some (wire_view 0 obj), Some r0, Some c0, user)"
proof -
  let ?ts = "map tlv_of (take count xs)"
  note ok = encode_ext_OK [OF assms(1-4)]
  have out: "take n out = ext_wire 0 obj ?ts" using ok(2,3) by simp
  let ?r = "suffix_reader (ext_suffix ?ts @ rest) ?ts"
  let ?known = "\<forall>e \<in> set (take count xs). ext_critical e \<noteq> 0 \<longrightarrow> known (ext_id e)"
  have acc: "accept_all (Some (accept_known known)) user (rdx_views ?r ?ts) = (?known, user)"
    by (simp add: accept_all_known known_views) (auto simp: list_all_iff tlv_of_def)
  have tuple: "(\<lambda>e. (ext_id e, ext_critical e, ext_bytes e)) = tlv_of" by (rule ext) (simp add: tlv_of_def)
  have len: "length (ext_wire 0 obj ?ts) \<le> size_in" "size_in \<le> length (ext_wire 0 obj ?ts @ rest)"
    using assms(5,6) ok(3) by (simp_all add: out)
  show ?thesis
  proof (cases ?known)
    case True
    then have acc': "accept_all (Some (accept_known known)) user (rdx_views ?r ?ts) = (True, user)"
      using acc by simp
    from decode_ext_wire [OF ok(1) len acc'] drain_ext_wire(1,2) [OF ok(1), of rest] True
    show ?thesis unfolding out tuple by (auto simp: ok(3))
  next
    case False
    then have acc': "accept_all (Some (accept_known known)) user (rdx_views ?r ?ts) = (False, user)"
      using acc by simp
    from decode_ext_wire_refused [OF ok(1) len acc'] False show ?thesis unfolding out by (simp only: if_False)
  qed
qed

section \<open>Decoding\<close>

text \<open>
  C3: No critical extension goes unnoticed. Whatever the bytes and the callback, a decoder that returns
  \<open>MCL_WIRE_OK\<close> has asked the callback about every critical extension the caller can read from the
  returned reader, in order, and each was accepted; the reader is good to its end. Without a callback,
  as in \<open>mcl_wire_tier0_decode_ext\<close>, there is no critical extension.
\<close>

theorem critical_extensions_accepted:
  assumes "n \<le> length bs"
    and "mcl_wire_tier0_decode_ext_accept (Some bs) n (Some o0) (Some r0) accept user (Some c0) =
      (MCL_WIRE_OK, obj, r, c, user')"
  shows "\<exists>es. drain_reader (the r) = (MCL_WIRE_OK, es) \<and> accept_all accept user es = (True, user') \<and>
     (accept = None \<longrightarrow> (\<forall>e \<in> set es. ext_critical e = 0))"
proof -
  obtain obj' c' where some: "obj = Some obj'" "c = Some c'" using decode_ext_shape [OF assms] .
  obtain ts rest where dec: "ext_encodable (wire_major bs) obj' ts"
    "r = Some (suffix_reader (ext_suffix ts @ rest) ts)"
    "accept_all accept user (rdx_views (suffix_reader (ext_suffix ts @ rest) ts) ts) = (True, user')"
    using decode_ext_OK_bytes [OF assms(1) assms(2) [unfolded some]] by blast
  from drain_ext_wire(1) [OF dec(1), of rest] dec(2,3) show ?thesis
    by (auto simp: accept_all_none list_all_iff)
qed

text \<open>
  C5: Objects with extensions are canonical too. For an object that decodes, at either major and with
  whatever callback, the bytes consumed are the one encoding (\<open>ext_wire\<close>) of the object, at the major of
  its first byte, with the extensions its reader delivers. At the Experimental major they are what
  \<open>mcl_wire_tier0_encode_ext\<close> writes for them; the encoder with extensions knows no other major.
\<close>

theorem ext_canonical:
  assumes "n \<le> length bs"
    and "mcl_wire_tier0_decode_ext_accept (Some bs) n (Some o0) (Some r0) accept user (Some c0) =
      (MCL_WIRE_OK, Some obj, Some r, Some c, user')"
    and "drain_reader r = (st, es)"
  shows "c \<le> n \<and> take c bs = ext_wire (drop_bit 4 (bs ! 0)) obj (map tlv_of es) \<and>
    (drop_bit 4 (bs ! 0) = 0 \<and> c \<le> cap \<and> cap \<le> length out \<longrightarrow>
       mcl_wire_tier0_encode_ext (Some obj) (Some es) (length es) (Some out) cap (Some w) =
         (MCL_WIRE_OK, Some (take c bs @ drop c out), Some c))"
proof -
  let ?m = "drop_bit 4 (bs ! 0)"
  from decode_ext_OK_bytes [OF assms(1,2)] obtain ts rest where
    dec: "ext_encodable ?m obj ts" "bs = ext_wire ?m obj ts @ rest" "c = length (ext_wire ?m obj ts)"
      "c \<le> n" "r = suffix_reader (ext_suffix ts @ rest) ts"
    unfolding wire_major_byte by blast
  note drain = drain_ext_wire [OF dec(1), of rest, folded dec(5)]
  have es: "es = rdx_views r ts" using drain(1) assms(3) by simp
  note views = drain(2-4) [folded es]
  have bytes: "take c bs = ext_wire ?m obj (map tlv_of es)"
    unfolding views(1) by (subst dec(2)) (simp add: dec(3))
  have "mcl_wire_tier0_encode_ext (Some obj) (Some es) (length es) (Some out) cap (Some w) =
      (MCL_WIRE_OK, Some (take c bs @ drop c out), Some c)"
    if "?m = 0" "c \<le> cap" "cap \<le> length out"
    using encode_ext_success [of obj "length es" es cap out w] dec(1,3) that views bytes by simp
  with bytes dec(4) show ?thesis by blast
qed

text \<open>
  C17: A refused object leaves nothing to read: unless the decoder returns \<open>MCL_WIRE_OK\<close>, the caller's
  reader and \<open>*consumed\<close> are what they were.
\<close>

theorem decode_ext_failure_frame:
  assumes "mcl_wire_tier0_decode_ext_accept data n obj reader accept user consumed =
      (st, obj', reader', consumed', user')"
    and "st \<noteq> MCL_WIRE_OK"
  shows "reader' = reader \<and> consumed' = consumed"
  using assms
  by (auto simp: mcl_wire_tier0_decode_ext_accept_def Let_def split: if_splits prod.splits)

text \<open>
  C18: The two decoders agree on objects without extensions: with the extension bit clear,
  \<open>mcl_wire_tier0_decode_ext\<close> returns the status, the object and the size of \<open>mcl_wire_tier0_decode\<close>, and
  a reader that is at its end at once.
\<close>

theorem decode_ext_agrees:
  assumes "n \<le> length bs" and "bs ! 1 AND 1 = 0"
    and "mcl_wire_tier0_decode (Some bs) n (Some o0) (Some c0) = (st, obj, c)"
  shows "\<exists>r. mcl_wire_tier0_decode_ext (Some bs) n (Some o0) (Some r0) (Some c0) = (st, obj, Some r, c) \<and>
     (if st = MCL_WIRE_OK then drain_reader r = (MCL_WIRE_OK, []) else r = r0)"
proof -
  have bit: "hdr_extension_present (wire_header bs) = 0"
    using assms(2) by (simp add: wire_header_def header_of_def)
  have any: "mcl_wire_tier0_decode_body (Some bs) n (Some o0) (Some c0) = (st, obj, c)"
    using assms(3) bit by (simp add: decode_clear_bit [OF assms(1)])
  show ?thesis
  proof (cases "st = MCL_WIRE_OK")
    case True
    have n: "2 \<le> n" using any True decode_body_short [of n bs o0 c0] by (cases "n < 2") auto
    obtain kind where kind: "wire_kind bs = Some kind"
      using any True decode_body_refused [OF n, of bs o0 c0] by (cases "wire_kind bs") auto
    have some: "obj = Some (wire_object bs kind)" "c = Some (wire_size bs kind)"
      "mcl_wire_tier0_decode_body (Some bs) n (Some o0) (Some 0) =
         (MCL_WIRE_OK, Some (wire_object bs kind), Some (wire_size bs kind))"
      using any True decode_body_accepted [OF kind n assms(1), of o0] by (auto split: if_splits)
    have "drain_reader (block_reader rest 0) = (MCL_WIRE_OK, [])" for rest
      using drain_block [of "block_reader rest 0" "[]"] by simp
    with decode_ext_no_block [OF some(3) n bit, of r0 None "()" c0] True some(1,2) show ?thesis
      by (simp add: mcl_wire_tier0_decode_ext_def)
  next
    case False
    have "\<exists>b. mcl_wire_tier0_decode_body (Some bs) n (Some o0) (Some 0) = (st, obj, b) \<and> c = Some c0"
    proof (cases "n < 2 \<or> wire_kind bs = None")
      case True
      then show ?thesis
        using any decode_body_short [of n bs o0] decode_body_refused [of n bs o0]
        by (cases "n < 2") (auto simp: not_less)
    next
      case False
      then obtain kind where "wire_kind bs = Some kind" "2 \<le> n" by auto
      with any \<open>st \<noteq> MCL_WIRE_OK\<close> show ?thesis
        using decode_body_accepted [of bs kind n o0] assms(1) by (auto split: if_splits)
    qed
    then obtain b where "mcl_wire_tier0_decode_body (Some bs) n (Some o0) (Some 0) = (st, obj, b)" "c = Some c0"
      by blast
    with decode_ext_refused_body [OF this(1) False, of r0 None "()" c0] False show ?thesis
      by (simp add: mcl_wire_tier0_decode_ext_def)
  qed
qed

text \<open>
  C16: Objects with extensions need no framing. In a stream of them each one tells where it ends: a
  receiver reads the same object whatever follows, never mistakes a truncated object for a shorter one,
  the stream has one reading, and no object takes more than \<open>MCL_WIRE_TIER0_EXT_MAX_SIZE\<close> bytes.
\<close>

theorem ext_stream_unique:
  assumes "list_all2 (\<lambda>x bs. ext_enc x = Some bs) xs bss"
    and "list_all2 (\<lambda>y cs. ext_enc y = Some cs) ys css"
    and "concat bss = concat css"
    and "ext_dec bs = Some (x, n)" and "m < n"
  shows "xs = ys \<and> length (concat bss) \<le> 275 * length xs \<and>
     ext_dec (take n bs @ rest) = Some (x, n) \<and> ext_dec (take m bs) = None"
  using xd.stream_unique [OF assms(1-3)] xd.stream_length [OF assms(1)]
    xd.dec_local [OF assms(4)] xd.dec_truncated [OF assms(4,5)] by simp

section \<open>The statements at a concrete object\<close>

definition sample_ext_bytes :: "u8 list" where
  "sample_ext_bytes = [3, 15] @ drop 2 sample_bytes @ [7] @ sample_block"

lemma sample_ext_wire: "ext_wire 0 sample_hazard (map tlv_of sample_extensions) = sample_ext_bytes"
  by code_simp

lemma sample_ext_encodable: "ext_encodable 0 sample_hazard (map tlv_of sample_extensions)"
proof -
  have "tier0_encodable 0 sample_hazard" unfolding tier0_encodable_iff by code_simp
  then show ?thesis
    using sample_ok(2) by (simp add: ext_encodable_def sample_block_wire) (simp add: sample_block_def)
qed

lemma sample_ext_encoding:
  "mcl_wire_tier0_encode_ext (Some sample_hazard) (Some sample_extensions) 2 (Some (replicate 25 0xEE)) 24 (Some 99) =
     (MCL_WIRE_OK, Some (sample_ext_bytes @ [0xEE, 0xEE]), Some 23)"
proof -
  have len: "length sample_ext_bytes = 23" by (simp add: sample_ext_bytes_def sample_bytes_def sample_block_def)
  moreover have "replicate 2 (0xEE :: u8) = [0xEE, 0xEE]" by (simp add: numeral_2_eq_2)
  ultimately show ?thesis
    using encode_ext_success [of sample_hazard 2 sample_extensions 24 "replicate 25 0xEE" 99]
      sample_ext_encodable sample_ok(1) sample_readable sample_count
    by (simp add: sample_ext_wire)
qed


theorem ext_round_trip_witness:
  "mcl_wire_tier0_decode_ext_accept (Some (sample_ext_bytes @ [1])) 24 (Some zero_object)
     (Some (block_reader [] 0)) (Some (accept_known (\<lambda>i. i = 300))) () (Some 99) =
   (MCL_WIRE_ERR_UNSUPPORTED_SEMANTIC, Some (wire_view 0 sample_hazard), Some (block_reader [] 0), Some 99, ())"
proof -
  have unknown: "\<not> (\<forall>e \<in> set (take 2 sample_extensions). ext_critical e \<noteq> 0 \<longrightarrow> ext_id e = 300)"
    by (simp add: sample_extensions_def)
  have bytes: "take 23 (sample_ext_bytes @ [0xEE, 0xEE]) = sample_ext_bytes"
    by (simp add: sample_ext_bytes_def sample_bytes_def sample_block_def)
  have room: "24 \<le> length (replicate 25 (0xEE :: u8))" "(23 :: nat) \<le> 24"
    "24 \<le> length (take 23 (sample_ext_bytes @ [0xEE, 0xEE]) @ [1])"
    by (simp_all add: sample_ext_bytes_def sample_bytes_def sample_block_def)
  from ext_round_trip [OF sample_count(2) sample_readable room(1) sample_ext_encoding room(2,3), of
      "\<lambda>i. i = 300" zero_object "block_reader [] 0" "()" 99]
  show ?thesis by (simp only: unknown bytes if_False)
qed

lemma sample_ext_decoding:
  "mcl_wire_tier0_decode_ext_accept (Some sample_ext_bytes) 23 (Some zero_object)
     (Some (block_reader [] 0)) (Some (accept_known (\<lambda>i. i = 3))) () (Some 99) =
   (MCL_WIRE_OK, Some sample_hazard, Some (block_reader sample_block 7), Some 23, ())"
proof -
  let ?ts = "map tlv_of sample_extensions"
  let ?r = "suffix_reader (ext_suffix ?ts @ []) ?ts"
  have r: "?r = block_reader sample_block 7" by code_simp
  have acc: "accept_all (Some (accept_known (\<lambda>i. i = 3))) () (rdx_views ?r ?ts) = (True, ())"
    unfolding accept_all_known known_views [of "\<lambda>i. i = 3"] by (simp add: sample_extensions_def tlv_of_def)
  have len: "length sample_ext_bytes = 23" by (simp add: sample_ext_bytes_def sample_bytes_def sample_block_def)
  have "wire_view 0 sample_hazard = sample_hazard" by code_simp
  with decode_ext_wire [OF sample_ext_encodable _ _ acc, of 23 zero_object "block_reader [] 0" 99] len
  show ?thesis unfolding r by (simp add: sample_ext_wire)
qed

theorem critical_extensions_accepted_witness:
  "\<exists>es. drain_reader (block_reader sample_block 7) = (MCL_WIRE_OK, es) \<and>
     accept_all (Some (accept_known (\<lambda>i. i = 3))) () es = (True, ())"
  using critical_extensions_accepted [OF _ sample_ext_decoding]
  by (auto simp: sample_ext_bytes_def sample_bytes_def sample_block_def)

theorem ext_canonical_witness:
  "\<exists>es. drain_reader (block_reader sample_block 7) = (MCL_WIRE_OK, es) \<and>
     sample_ext_bytes = ext_wire 0 sample_hazard (map tlv_of es) \<and>
     mcl_wire_tier0_encode_ext (Some sample_hazard) (Some es) (length es) (Some (replicate 23 0)) 23 (Some 0) =
       (MCL_WIRE_OK, Some sample_ext_bytes, Some 23)"
proof -
  have len: "23 \<le> length sample_ext_bytes" by (simp add: sample_ext_bytes_def sample_bytes_def sample_block_def)
  have "fst (drain_reader (block_reader sample_block 7)) = MCL_WIRE_OK" by code_simp
  then obtain es where "drain_reader (block_reader sample_block 7) = (MCL_WIRE_OK, es)"
    by (cases "drain_reader (block_reader sample_block 7)") simp
  with ext_canonical [OF len sample_ext_decoding this, of 23 "replicate 23 0" 0]
  show ?thesis by (intro exI [of _ es]) (simp add: sample_ext_bytes_def sample_bytes_def sample_block_def)
qed

theorem decode_ext_failure_frame_witness:
  "\<exists>st obj. mcl_wire_tier0_decode_ext_accept (Some [3]) 1 (Some zero_object) (Some (block_reader [] 0))
       None () (Some 99) = (st, obj, Some (block_reader [] 0), Some 99, ())"
proof -
  have run: "mcl_wire_tier0_decode_ext_accept (Some [3]) 1 (Some zero_object) (Some (block_reader [] 0))
      None () (Some 99) = (MCL_WIRE_ERR_TRUNCATED, Some zero_object, Some (block_reader [] 0), Some 99, ())"
    by (simp add: mcl_wire_tier0_decode_ext_accept_def)
  from decode_ext_failure_frame [OF run] run show ?thesis by blast
qed

theorem decode_ext_agrees_witness:
  "\<exists>r. mcl_wire_tier0_decode_ext (Some (sample_bytes @ [1, 2, 3])) 18 (Some zero_object)
       (Some (block_reader [] 0)) (Some 99) = (MCL_WIRE_OK, Some sample_hazard, Some r, Some 15) \<and>
     drain_reader r = (MCL_WIRE_OK, [])"
  using decode_ext_agrees [OF _ _ sample_decoding, of "block_reader [] 0"]
  by (simp add: sample_bytes_def)

theorem ext_stream_unique_witness:
  "ext_dec (take 10 sample_ext_bytes) = None"
proof -
  have view: "wire_view 0 sample_hazard = sample_hazard" by code_simp
  have "length sample_ext_bytes = 23" by (simp add: sample_ext_bytes_def sample_bytes_def sample_block_def)
  then have dec: "ext_dec sample_ext_bytes = Some ((sample_hazard, map tlv_of sample_extensions), 23)"
    using ext_dec_wire [OF sample_ext_encodable view, of "[]"] by (simp add: sample_ext_wire)
  have "list_all2 (\<lambda>x bs. ext_enc x = Some bs) [(sample_hazard, map tlv_of sample_extensions)] [sample_ext_bytes]"
    using sample_ext_encodable view by (simp add: ext_enc_iff sample_ext_wire)
  from ext_stream_unique [OF this this refl dec, of 10] show ?thesis by simp
qed

end
