(* ===== verification/Wire_Layout.thy ===== *)
theory Wire_Layout
  imports Wire_Tier0_Spec
begin

text \<open>
  The layout validator \<open>tools/validate_tier0_layout.c\<close>: the table of \<open>spec/tier0-layout-v0.2.md\<close> as
  the tool transcribes it, the document's own model of reading bits, the access to a field by its name,
  and the checks the tool runs. Where the tool probes each field with one or two values, the theorems
  show the table right for every object; that the tool reports no failure is then a consequence.
\<close>

unbundle bit_operations_syntax

section \<open>The table\<close>

record field_row =
  row_field :: string
  row_offset :: nat
  row_width :: nat
  row_is_signed :: bool

record kind_row =
  krow_name :: string
  krow_kind :: mcl_wire_kind
  krow_category :: u8
  krow_opcode :: u8
  krow_bytes :: nat
  krow_pad_bits :: nat
  krow_fields :: "field_row list"

abbreviation (input) row :: "string \<Rightarrow> nat \<Rightarrow> nat \<Rightarrow> bool \<Rightarrow> field_row" where
  "row name offset width is_signed \<equiv>
     \<lparr>row_field = name, row_offset = offset, row_width = width, row_is_signed = is_signed\<rparr>"

definition presence_fields :: "field_row list" where
  "presence_fields =
     [row ''machine_class'' 48 8 False,
      row ''capability_tag'' 56 24 False,
      row ''ttl'' 80 8 False]"

definition hazard_fields :: "field_row list" where
  "hazard_fields =
     [row ''hazard_class'' 48 8 False,
      row ''severity'' 56 3 False,
      row ''confidence'' 59 7 False,
      row ''x'' 66 12 True,
      row ''y'' 78 12 True,
      row ''z'' 90 10 True,
      row ''radius'' 100 10 False,
      row ''ttl'' 110 8 False]"

definition request_fields :: "field_row list" where
  "request_fields =
     [row ''request_class'' 48 8 False,
      row ''target_ref'' 56 32 False,
      row ''x'' 88 12 True,
      row ''y'' 100 12 True,
      row ''radius'' 112 10 False,
      row ''ttl'' 122 8 False]"

definition authority_fields :: "field_row list" where
  "authority_fields =
     [row ''authority_class'' 48 6 False,
      row ''jurisdiction'' 54 12 False,
      row ''credential_ref'' 66 32 False,
      row ''validity'' 98 8 False]"

definition degraded_fields :: "field_row list" where
  "degraded_fields =
     [row ''affected_capability'' 48 8 False,
      row ''health'' 56 7 False,
      row ''severity'' 63 3 False,
      row ''ttl'' 66 8 False]"

definition offer_fields :: "field_row list" where
  "offer_fields =
     [row ''migration_ref'' 48 32 False,
      row ''transport_id'' 80 8 False,
      row ''profile_id'' 88 8 False,
      row ''endpoint_token'' 96 32 False,
      row ''validity'' 128 8 False]"

definition accept_fields :: "field_row list" where
  "accept_fields =
     [row ''migration_ref'' 48 32 False,
      row ''transport_id'' 80 8 False,
      row ''profile_id'' 88 8 False,
      row ''session_ref'' 96 32 False]"

abbreviation (input) krow ::
    "string \<Rightarrow> mcl_wire_kind \<Rightarrow> u8 \<Rightarrow> u8 \<Rightarrow> nat \<Rightarrow> nat \<Rightarrow> field_row list \<Rightarrow> kind_row" where
  "krow name kind category opcode bytes pad rows \<equiv>
     \<lparr>krow_name = name, krow_kind = kind, krow_category = category, krow_opcode = opcode,
      krow_bytes = bytes, krow_pad_bits = pad, krow_fields = rows\<rparr>"

definition k_table :: "kind_row list" where
  "k_table =
     [krow ''PRESENCE'' MCL_WIRE_KIND_PRESENCE 0 0 11 0 presence_fields,
      krow ''HAZARD'' MCL_WIRE_KIND_HAZARD 3 1 15 2 hazard_fields,
      krow ''REQUEST'' MCL_WIRE_KIND_REQUEST 5 1 17 6 request_fields,
      krow ''AUTHORITY_CLAIM'' MCL_WIRE_KIND_AUTHORITY_CLAIM 1 1 14 6 authority_fields,
      krow ''DEGRADED_STATE'' MCL_WIRE_KIND_DEGRADED_STATE 6 1 10 6 degraded_fields,
      krow ''TRANSPORT_OFFER'' MCL_WIRE_KIND_TRANSPORT_OFFER 8 0 17 0 offer_fields,
      krow ''TRANSPORT_ACCEPT'' MCL_WIRE_KIND_TRANSPORT_ACCEPT 8 1 16 0 accept_fields]"

section \<open>The document's model of bits\<close>

definition read_bits :: "u8 list \<Rightarrow> nat \<Rightarrow> nat \<Rightarrow> u32" where
  "read_bits data offset width =
     fold (\<lambda>i value.
       let b = offset + i;
           byte = data ! (drop_bit 3 b);
           shift = 7 - (b AND 7)
       in push_bit 1 value OR ucast (drop_bit shift byte AND 1)) [0..<width] 0"

definition write_bits :: "u8 list \<Rightarrow> nat \<Rightarrow> nat \<Rightarrow> u32 \<Rightarrow> u8 list" where
  "write_bits data offset width value =
     fold (\<lambda>i data.
       let b = offset + i;
           shift_in = width - 1 - i;
           shift_out = 7 - (b AND 7);
           v = (ucast (drop_bit shift_in value AND 1) :: u8)
       in data[drop_bit 3 b := ucast (((ucast (data ! (drop_bit 3 b)) :: u32) AND NOT (push_bit shift_out 1))
                                      OR push_bit shift_out (ucast v :: u32))]) [0..<width] data"

section \<open>Fields by name\<close>

definition set_field :: "mcl_wire_tier0 \<Rightarrow> string \<Rightarrow> s32 \<Rightarrow> int \<times> mcl_wire_tier0" where
  "set_field object field value =
     (let body = obj_body object in
      if obj_kind object = MCL_WIRE_KIND_PRESENCE then
        (if field = ''machine_class'' then 
           (1, object\<lparr>obj_body := body\<lparr>body_presence := (body_presence body)\<lparr>presence_machine_class := ucast value\<rparr>\<rparr>\<rparr>)
         else if field = ''capability_tag'' then 
           (1, object\<lparr>obj_body := body\<lparr>body_presence := (body_presence body)\<lparr>presence_capability_tag := value\<rparr>\<rparr>\<rparr>)
         else if field = ''ttl'' then 
           (1, object\<lparr>obj_body := body\<lparr>body_presence := (body_presence body)\<lparr>presence_ttl := ucast value\<rparr>\<rparr>\<rparr>)
         else (0, object))
      else if obj_kind object = MCL_WIRE_KIND_HAZARD then
        (if field = ''hazard_class'' then 
           (1, object\<lparr>obj_body := body\<lparr>body_hazard := (body_hazard body)\<lparr>hazard_hazard_class := ucast value\<rparr>\<rparr>\<rparr>)
         else if field = ''severity'' then 
           (1, object\<lparr>obj_body := body\<lparr>body_hazard := (body_hazard body)\<lparr>hazard_severity := ucast value\<rparr>\<rparr>\<rparr>)
         else if field = ''confidence'' then 
           (1, object\<lparr>obj_body := body\<lparr>body_hazard := (body_hazard body)\<lparr>hazard_confidence := ucast value\<rparr>\<rparr>\<rparr>)
         else if field = ''x'' then 
           (1, object\<lparr>obj_body := body\<lparr>body_hazard := (body_hazard body)\<lparr>hazard_x := ucast value\<rparr>\<rparr>\<rparr>)
         else if field = ''y'' then 
           (1, object\<lparr>obj_body := body\<lparr>body_hazard := (body_hazard body)\<lparr>hazard_y := ucast value\<rparr>\<rparr>\<rparr>)
         else if field = ''z'' then 
           (1, object\<lparr>obj_body := body\<lparr>body_hazard := (body_hazard body)\<lparr>hazard_z := ucast value\<rparr>\<rparr>\<rparr>)
         else if field = ''radius'' then 
           (1, object\<lparr>obj_body := body\<lparr>body_hazard := (body_hazard body)\<lparr>hazard_radius := ucast value\<rparr>\<rparr>\<rparr>)
         else if field = ''ttl'' then 
           (1, object\<lparr>obj_body := body\<lparr>body_hazard := (body_hazard body)\<lparr>hazard_ttl := ucast value\<rparr>\<rparr>\<rparr>)
         else (0, object))
      else if obj_kind object = MCL_WIRE_KIND_REQUEST then
        (if field = ''request_class'' then 
           (1, object\<lparr>obj_body := body\<lparr>body_request := (body_request body)\<lparr>request_request_class := ucast value\<rparr>\<rparr>\<rparr>)
         else if field = ''target_ref'' then 
           (1, object\<lparr>obj_body := body\<lparr>body_request := (body_request body)\<lparr>request_target_ref := value\<rparr>\<rparr>\<rparr>)
         else if field = ''x'' then 
           (1, object\<lparr>obj_body := body\<lparr>body_request := (body_request body)\<lparr>request_x := ucast value\<rparr>\<rparr>\<rparr>)
         else if field = ''y'' then 
           (1, object\<lparr>obj_body := body\<lparr>body_request := (body_request body)\<lparr>request_y := ucast value\<rparr>\<rparr>\<rparr>)
         else if field = ''radius'' then 
           (1, object\<lparr>obj_body := body\<lparr>body_request := (body_request body)\<lparr>request_radius := ucast value\<rparr>\<rparr>\<rparr>)
         else if field = ''ttl'' then 
           (1, object\<lparr>obj_body := body\<lparr>body_request := (body_request body)\<lparr>request_ttl := ucast value\<rparr>\<rparr>\<rparr>)
         else (0, object))
      else if obj_kind object = MCL_WIRE_KIND_AUTHORITY_CLAIM then
        (if field = ''authority_class'' then 
           (1, object\<lparr>obj_body := body\<lparr>body_authority_claim := (body_authority_claim body)\<lparr>authority_claim_authority_class := ucast value\<rparr>\<rparr>\<rparr>)
         else if field = ''jurisdiction'' then 
           (1, object\<lparr>obj_body := body\<lparr>body_authority_claim := (body_authority_claim body)\<lparr>authority_claim_jurisdiction := ucast value\<rparr>\<rparr>\<rparr>)
         else if field = ''credential_ref'' then 
           (1, object\<lparr>obj_body := body\<lparr>body_authority_claim := (body_authority_claim body)\<lparr>authority_claim_credential_ref := value\<rparr>\<rparr>\<rparr>)
         else if field = ''validity'' then 
           (1, object\<lparr>obj_body := body\<lparr>body_authority_claim := (body_authority_claim body)\<lparr>authority_claim_validity := ucast value\<rparr>\<rparr>\<rparr>)
         else (0, object))
      else if obj_kind object = MCL_WIRE_KIND_DEGRADED_STATE then
        (if field = ''affected_capability'' then 
           (1, object\<lparr>obj_body := body\<lparr>body_degraded_state := (body_degraded_state body)\<lparr>degraded_state_affected_capability := ucast value\<rparr>\<rparr>\<rparr>)
         else if field = ''health'' then 
           (1, object\<lparr>obj_body := body\<lparr>body_degraded_state := (body_degraded_state body)\<lparr>degraded_state_health := ucast value\<rparr>\<rparr>\<rparr>)
         else if field = ''severity'' then 
           (1, object\<lparr>obj_body := body\<lparr>body_degraded_state := (body_degraded_state body)\<lparr>degraded_state_severity := ucast value\<rparr>\<rparr>\<rparr>)
         else if field = ''ttl'' then 
           (1, object\<lparr>obj_body := body\<lparr>body_degraded_state := (body_degraded_state body)\<lparr>degraded_state_ttl := ucast value\<rparr>\<rparr>\<rparr>)
         else (0, object))
      else if obj_kind object = MCL_WIRE_KIND_TRANSPORT_OFFER then
        (if field = ''migration_ref'' then 
           (1, object\<lparr>obj_body := body\<lparr>body_transport_offer := (body_transport_offer body)\<lparr>transport_offer_migration_ref := value\<rparr>\<rparr>\<rparr>)
         else if field = ''transport_id'' then 
           (1, object\<lparr>obj_body := body\<lparr>body_transport_offer := (body_transport_offer body)\<lparr>transport_offer_transport_id := ucast value\<rparr>\<rparr>\<rparr>)
         else if field = ''profile_id'' then 
           (1, object\<lparr>obj_body := body\<lparr>body_transport_offer := (body_transport_offer body)\<lparr>transport_offer_profile_id := ucast value\<rparr>\<rparr>\<rparr>)
         else if field = ''endpoint_token'' then 
           (1, object\<lparr>obj_body := body\<lparr>body_transport_offer := (body_transport_offer body)\<lparr>transport_offer_endpoint_token := value\<rparr>\<rparr>\<rparr>)
         else if field = ''validity'' then 
           (1, object\<lparr>obj_body := body\<lparr>body_transport_offer := (body_transport_offer body)\<lparr>transport_offer_validity := ucast value\<rparr>\<rparr>\<rparr>)
         else (0, object))
      else if obj_kind object = MCL_WIRE_KIND_TRANSPORT_ACCEPT then
        (if field = ''migration_ref'' then 
           (1, object\<lparr>obj_body := body\<lparr>body_transport_accept := (body_transport_accept body)\<lparr>transport_accept_migration_ref := value\<rparr>\<rparr>\<rparr>)
         else if field = ''transport_id'' then 
           (1, object\<lparr>obj_body := body\<lparr>body_transport_accept := (body_transport_accept body)\<lparr>transport_accept_transport_id := ucast value\<rparr>\<rparr>\<rparr>)
         else if field = ''profile_id'' then 
           (1, object\<lparr>obj_body := body\<lparr>body_transport_accept := (body_transport_accept body)\<lparr>transport_accept_profile_id := ucast value\<rparr>\<rparr>\<rparr>)
         else if field = ''session_ref'' then 
           (1, object\<lparr>obj_body := body\<lparr>body_transport_accept := (body_transport_accept body)\<lparr>transport_accept_session_ref := value\<rparr>\<rparr>\<rparr>)
         else (0, object))
      else (0, object))"

definition get_field :: "mcl_wire_tier0 \<Rightarrow> string \<Rightarrow> s32 \<times> int" where
  "get_field object field =
     (let body = obj_body object in
      if obj_kind object = MCL_WIRE_KIND_PRESENCE then
        (if field = ''machine_class'' then (ucast (presence_machine_class (body_presence body)), 1)
         else if field = ''capability_tag'' then (presence_capability_tag (body_presence body), 1)
         else if field = ''ttl'' then (ucast (presence_ttl (body_presence body)), 1)
         else (0, 0))
      else if obj_kind object = MCL_WIRE_KIND_HAZARD then
        (if field = ''hazard_class'' then (ucast (hazard_hazard_class (body_hazard body)), 1)
         else if field = ''severity'' then (ucast (hazard_severity (body_hazard body)), 1)
         else if field = ''confidence'' then (ucast (hazard_confidence (body_hazard body)), 1)
         else if field = ''x'' then (scast (hazard_x (body_hazard body)), 1)
         else if field = ''y'' then (scast (hazard_y (body_hazard body)), 1)
         else if field = ''z'' then (scast (hazard_z (body_hazard body)), 1)
         else if field = ''radius'' then (ucast (hazard_radius (body_hazard body)), 1)
         else if field = ''ttl'' then (ucast (hazard_ttl (body_hazard body)), 1)
         else (0, 0))
      else if obj_kind object = MCL_WIRE_KIND_REQUEST then
        (if field = ''request_class'' then (ucast (request_request_class (body_request body)), 1)
         else if field = ''target_ref'' then (request_target_ref (body_request body), 1)
         else if field = ''x'' then (scast (request_x (body_request body)), 1)
         else if field = ''y'' then (scast (request_y (body_request body)), 1)
         else if field = ''radius'' then (ucast (request_radius (body_request body)), 1)
         else if field = ''ttl'' then (ucast (request_ttl (body_request body)), 1)
         else (0, 0))
      else if obj_kind object = MCL_WIRE_KIND_AUTHORITY_CLAIM then
        (if field = ''authority_class'' then (ucast (authority_claim_authority_class (body_authority_claim body)), 1)
         else if field = ''jurisdiction'' then (ucast (authority_claim_jurisdiction (body_authority_claim body)), 1)
         else if field = ''credential_ref'' then (authority_claim_credential_ref (body_authority_claim body), 1)
         else if field = ''validity'' then (ucast (authority_claim_validity (body_authority_claim body)), 1)
         else (0, 0))
      else if obj_kind object = MCL_WIRE_KIND_DEGRADED_STATE then
        (if field = ''affected_capability'' then (ucast (degraded_state_affected_capability (body_degraded_state body)), 1)
         else if field = ''health'' then (ucast (degraded_state_health (body_degraded_state body)), 1)
         else if field = ''severity'' then (ucast (degraded_state_severity (body_degraded_state body)), 1)
         else if field = ''ttl'' then (ucast (degraded_state_ttl (body_degraded_state body)), 1)
         else (0, 0))
      else if obj_kind object = MCL_WIRE_KIND_TRANSPORT_OFFER then
        (if field = ''migration_ref'' then (transport_offer_migration_ref (body_transport_offer body), 1)
         else if field = ''transport_id'' then (ucast (transport_offer_transport_id (body_transport_offer body)), 1)
         else if field = ''profile_id'' then (ucast (transport_offer_profile_id (body_transport_offer body)), 1)
         else if field = ''endpoint_token'' then (transport_offer_endpoint_token (body_transport_offer body), 1)
         else if field = ''validity'' then (ucast (transport_offer_validity (body_transport_offer body)), 1)
         else (0, 0))
      else if obj_kind object = MCL_WIRE_KIND_TRANSPORT_ACCEPT then
        (if field = ''migration_ref'' then (transport_accept_migration_ref (body_transport_accept body), 1)
         else if field = ''transport_id'' then (ucast (transport_accept_transport_id (body_transport_accept body)), 1)
         else if field = ''profile_id'' then (ucast (transport_accept_profile_id (body_transport_accept body)), 1)
         else if field = ''session_ref'' then (transport_accept_session_ref (body_transport_accept body), 1)
         else (0, 0))
      else (0, 0))"

section \<open>The checks\<close>

definition probe_value :: "field_row \<Rightarrow> bool \<Rightarrow> s32" where
  "probe_value f use_min =
     (if row_is_signed f then
        (let magnitude = push_bit (row_width f - 1) 1 in if use_min then - magnitude else magnitude - 1)
      else if row_width f \<ge> 32 then 0xFEDCBA98
      else push_bit (row_width f) 1 - 1)"

text \<open>
  The state of the tool: the count \<open>failures\<close>, the buffer all encodings go to, and \<open>written\<close>.
\<close>

record checker =
  failures :: nat
  chk_buffer :: "u8 list"
  chk_written :: nat

definition check :: "bool \<Rightarrow> checker \<Rightarrow> checker" where
  "check cond s = (if cond then s else s\<lparr>failures := failures s + 1\<rparr>)"

text \<open>\<open>memset\<close>, the kind, and the members that the two transport kinds get in every object of the tool.\<close>

definition checked_object :: "kind_row \<Rightarrow> u32 \<Rightarrow> mcl_wire_tier0" where
  "checked_object k source_ref =
     (let object = zero_object\<lparr>obj_kind := krow_kind k, obj_source_ref := source_ref\<rparr>;
          object = (if krow_kind k = MCL_WIRE_KIND_TRANSPORT_OFFER \<or> krow_kind k = MCL_WIRE_KIND_TRANSPORT_ACCEPT
                    then snd (set_field (snd (set_field object ''migration_ref'' 1)) ''transport_id'' 1)
                    else object)
      in if krow_kind k = MCL_WIRE_KIND_TRANSPORT_ACCEPT
         then snd (set_field object ''session_ref'' 1) else object)"

definition check_encode :: "mcl_wire_tier0 \<Rightarrow> checker \<Rightarrow> mcl_wire_status \<times> checker" where
  "check_encode object s =
     (case mcl_wire_tier0_encode (Some object) (Some (chk_buffer s)) (length (chk_buffer s))
             (Some (chk_written s)) of
        (st, out, written) \<Rightarrow> (st, s\<lparr>chk_buffer := the out, chk_written := the written\<rparr>))"

definition check_size_and_codes :: "kind_row \<Rightarrow> checker \<Rightarrow> checker" where
  "check_size_and_codes k s =
     (case check_encode (checked_object k 0) s of
        (st, s) \<Rightarrow>
          check (drop_bit 3 (chk_buffer s ! 1) = krow_opcode k)
          (check (chk_buffer s ! 0 AND 0x0F = krow_category k)
          (check (mcl_wire_tier0_encoded_size (krow_kind k) = krow_bytes k)
          (check (chk_written s = krow_bytes k)
          (check (st = MCL_WIRE_OK) s)))))"

definition check_source_ref :: "kind_row \<Rightarrow> checker \<Rightarrow> checker" where
  "check_source_ref k s =
     (case check_encode (checked_object k 0x89ABCDEF) s of
        (st, s) \<Rightarrow>
          if st = MCL_WIRE_OK then check (read_bits (chk_buffer s) 16 32 = 0x89ABCDEF) s else s)"

text \<open>\<open>decoded\<close> is a local variable of the loop body; \<open>decoded0\<close> is what it happens to hold.\<close>

definition check_field :: "kind_row \<Rightarrow> mcl_wire_tier0 \<Rightarrow> field_row \<Rightarrow> bool \<Rightarrow> checker \<Rightarrow> checker" where
  "check_field k decoded0 f pass1 s =
     (if \<not> row_is_signed f \<and> pass1 then s
      else
        let value = probe_value f pass1 in
        case set_field (checked_object k 0) (row_field f) value of
          (is_set, object) \<Rightarrow>
            if is_set = 0 then s\<lparr>failures := failures s + 1\<rparr>
            else case check_encode object s of
              (st, s) \<Rightarrow>
                if st \<noteq> MCL_WIRE_OK then s\<lparr>failures := failures s + 1\<rparr>
                else
                  let expected = (if row_width f \<ge> 32 then value
                                  else value AND (push_bit (row_width f) 1 - 1));
                      s = check (read_bits (chk_buffer s) (row_offset f) (row_width f) = expected) s
                  in case mcl_wire_tier0_decode (Some (chk_buffer s)) (chk_written s) (Some decoded0) (Some 0) of
                       (st, decoded, consumed) \<Rightarrow>
                         if st = MCL_WIRE_OK then
                           (case get_field (the decoded) (row_field f) of
                              (got, found) \<Rightarrow>
                                check (the consumed = krow_bytes k) (check (got = value) (check (found = 1) s)))
                         else s\<lparr>failures := failures s + 1\<rparr>)"

definition check_padding :: "kind_row \<Rightarrow> mcl_wire_tier0 \<Rightarrow> checker \<Rightarrow> checker" where
  "check_padding k decoded0 s =
     (case check_encode (checked_object k 0) s of
        (st, s) \<Rightarrow>
          if st = MCL_WIRE_OK \<and> krow_pad_bits k > 0 then
            let pad_offset = krow_bytes k * 8 - krow_pad_bits k;
                s = check (read_bits (chk_buffer s) pad_offset (krow_pad_bits k) = 0) s;
                s = s\<lparr>chk_buffer := write_bits (chk_buffer s) (pad_offset + krow_pad_bits k - 1) 1 1\<rparr>
            in check (fst (mcl_wire_tier0_decode (Some (chk_buffer s)) (chk_written s) (Some decoded0) (Some 0)) =
                 MCL_WIRE_ERR_NONCANONICAL) s
          else s)"

definition check_kind :: "mcl_wire_tier0 \<Rightarrow> kind_row \<Rightarrow> checker \<Rightarrow> checker" where
  "check_kind decoded0 k s =
     (let s = s\<lparr>chk_written := 0\<rparr>;
          s = check_size_and_codes k s;
          s = check_source_ref k s;
          s = fold (\<lambda>f s. fold (\<lambda>pass1 s. check_field k decoded0 f pass1 s) [False, True] s) (krow_fields k) s
      in check_padding k decoded0 s)"

text \<open>
  \<open>main\<close> for a buffer that holds \<open>buffer\<close> before each kind is checked: the exit code.
\<close>

definition validate_main :: "mcl_wire_tier0 \<Rightarrow> u8 list \<Rightarrow> int" where
  "validate_main decoded0 buffer =
     (let s = fold (\<lambda>k s. check_kind decoded0 k (s\<lparr>chk_buffer := buffer\<rparr>)) k_table
                \<lparr>failures = 0, chk_buffer = buffer, chk_written = 0\<rparr>
      in if failures s \<noteq> 0 then 1 else 0)"

end
