(* ===== verification/Wire_Layout_Spec.thy ===== *)
theory Wire_Layout_Spec
  imports Wire_Layout Wire_Tier0_Ext_Facts
begin

text \<open>
  The layout table against the codec, for every object: the bits at the documented position are the
  field, in both directions, and the checks of \<open>tools/validate_tier0_layout.c\<close> all pass.
\<close>

unbundle bit_operations_syntax

section \<open>Reading bits\<close>

lemma read_bits_eq:
  assumes "offset + width \<le> 8 * length data"
  shows "read_bits data offset width = of_bits (take width (drop offset (bits_of data)))"
  using assms
proof (induction width)
  case 0
  then show ?case by (simp add: read_bits_def)
next
  case (Suc n)
  have bit: "bits_of data ! (offset + n) = bit (data ! ((offset + n) div 8)) (7 - (offset + n) mod 8)"
    using Suc.prems by (intro nth_bits_of) simp
  have "read_bits data offset (Suc n) =
      push_bit 1 (read_bits data offset n) OR of_bool (bits_of data ! (offset + n))"
    by (simp add: read_bits_def Let_def byte_index_bit_index low_bit_eq bit)
  also have "\<dots> = of_bits (take n (drop offset (bits_of data)) @ [bits_of data ! (offset + n)])"
    using Suc by (simp only: of_bits_snoc)
  also have "take n (drop offset (bits_of data)) @ [bits_of data ! (offset + n)] =
      take (Suc n) (drop offset (bits_of data))"
    using Suc.prems by (simp add: take_Suc_conv_app_nth)
  finally show ?case .
qed

section \<open>The table describes the slots\<close>

primrec rows_match :: "mcl_wire_tier0 \<Rightarrow> nat \<Rightarrow> field_row list \<Rightarrow> slot list \<Rightarrow> bool" where
  "rows_match obj offset [] slots \<longleftrightarrow> slots = []"
| "rows_match obj offset (r # rs) slots \<longleftrightarrow>
     (case slots of
        [] \<Rightarrow> False
      | (f, g, s) # xs \<Rightarrow>
          row_offset r = offset \<and> f = (if row_is_signed r then Signed (row_width r) else Unsigned (row_width r)) \<and>
          get_field obj (row_field r) = (g obj, 1) \<and>
          rows_match obj (offset + row_width r) rs xs)"

lemma table_matches:
  assumes "k \<in> set k_table" and "obj_kind obj = krow_kind k"
  shows "rows_match obj 48 (krow_fields k) (tier0_slots 0 (krow_kind k))"
proof -
  have "\<forall>k \<in> set k_table. obj_kind obj = krow_kind k \<longrightarrow>
      rows_match obj 48 (krow_fields k) (tier0_slots 0 (krow_kind k))"
    unfolding k_table_def list.set ball_simps
    by (simp add: tier0_slots_def get_field_def Let_def presence_fields_def hazard_fields_def
        request_fields_def authority_fields_def degraded_fields_def offer_fields_def accept_fields_def)
  with assms show ?thesis by blast
qed

lemma rows_match_bits:
  assumes "rows_match obj offset rs slots" and "r \<in> set rs"
  shows "take (row_width r) (drop (row_offset r - offset) (field_bits format_width (slot_fields slots obj) @ rest)) =
           to_bits (row_width r) (fst (get_field obj (row_field r)))"
    and "snd (get_field obj (row_field r)) = 1" and "offset \<le> row_offset r"
    and "row_offset r + row_width r \<le> offset + slots_width slots"
    and "\<exists>f \<in> set slots. fst f = (if row_is_signed r then Signed (row_width r) else Unsigned (row_width r)) \<and>
           fst (snd f) obj = fst (get_field obj (row_field r))"
proof -
  have "take (row_width r) (drop (row_offset r - offset) (field_bits format_width (slot_fields slots obj) @ rest)) =
           to_bits (row_width r) (fst (get_field obj (row_field r))) \<and>
        snd (get_field obj (row_field r)) = 1 \<and> offset \<le> row_offset r \<and>
        row_offset r + row_width r \<le> offset + slots_width slots \<and>
        (\<exists>f \<in> set slots. fst f = (if row_is_signed r then Signed (row_width r) else Unsigned (row_width r)) \<and>
           fst (snd f) obj = fst (get_field obj (row_field r)))"
    using assms
  proof (induction rs arbitrary: offset slots)
    case (Cons q rs)
    then obtain f g s xs where slots: "slots = (f, g, s) # xs" by (auto split: list.splits)
    let ?w = "row_width q"
    have q: "row_offset q = offset" "format_width f = ?w"
      "f = (if row_is_signed q then Signed ?w else Unsigned ?w)"
      "get_field obj (row_field q) = (g obj, 1)" and rest: "rows_match obj (offset + ?w) rs xs"
      using Cons.prems(1) by (auto simp: slots)
    show ?case
    proof (cases "r = q")
      case True
      then show ?thesis using q by (auto simp: slots)
    next
      case False
      then have "r \<in> set rs" using Cons.prems(2) by simp
      note IH = Cons.IH [OF rest this]
      then have "row_offset r - offset = ?w + (row_offset r - (offset + ?w))" by linarith
      with IH show ?thesis by (auto simp: slots q)
    qed
  qed simp
  then show "take (row_width r) (drop (row_offset r - offset) (field_bits format_width (slot_fields slots obj) @ rest)) =
           to_bits (row_width r) (fst (get_field obj (row_field r)))"
    and "snd (get_field obj (row_field r)) = 1" and "offset \<le> row_offset r"
    and "row_offset r + row_width r \<le> offset + slots_width slots"
    and "\<exists>f \<in> set slots. fst f = (if row_is_signed r then Signed (row_width r) else Unsigned (row_width r)) \<and>
           fst (snd f) obj = fst (get_field obj (row_field r))"
    by blast+
qed

text \<open>The bits of an object behind its header, with the source reference in front of the body.\<close>

lemma table_kind:
  assumes "k \<in> set k_table"
  shows "kind_carried 0 (krow_kind k)"
    and "mcl_wire_tier0_encoded_size_at_major 0 (krow_kind k) = krow_bytes k"
    and "mcl_kind_to_code (krow_kind k) = (krow_category k, krow_opcode k)"
    and "tier0_padding 0 (krow_kind k) = krow_pad_bits k"
    and "mcl_wire_tier0_encoded_size (krow_kind k) = krow_bytes k"
proof -
  have "\<forall>k \<in> set k_table. kind_carried 0 (krow_kind k) \<and>
      mcl_wire_tier0_encoded_size_at_major 0 (krow_kind k) = krow_bytes k \<and>
      mcl_kind_to_code (krow_kind k) = (krow_category k, krow_opcode k) \<and>
      tier0_padding 0 (krow_kind k) = krow_pad_bits k \<and>
      mcl_wire_tier0_encoded_size (krow_kind k) = krow_bytes k"
    by code_simp
  with assms show "kind_carried 0 (krow_kind k)"
    and "mcl_wire_tier0_encoded_size_at_major 0 (krow_kind k) = krow_bytes k"
    and "mcl_kind_to_code (krow_kind k) = (krow_category k, krow_opcode k)"
    and "tier0_padding 0 (krow_kind k) = krow_pad_bits k"
    and "mcl_wire_tier0_encoded_size (krow_kind k) = krow_bytes k" by blast+
qed

lemma wire_at_row:
  assumes "k \<in> set k_table" and "obj_kind obj = krow_kind k" and "r \<in> set (krow_fields k)"
  shows "read_bits (tier0_wire 0 obj @ rest) (row_offset r) (row_width r) =
           take_bit (row_width r) (fst (get_field obj (row_field r)))"
    and "snd (get_field obj (row_field r)) = 1"
proof -
  let ?w = "row_width r"
  note row = rows_match_bits [OF table_matches [OF assms(1,2)] assms(3)]
  have kind: "kind_carried 0 (obj_kind obj)" using table_kind(1) [OF assms(1)] assms(2) by simp
  let ?fs = "field_bits format_width (slot_fields (tier0_slots 0 (krow_kind k)) obj)"
  have bits: "bits_of (tier0_wire 0 obj @ rest) =
      bits_of (header_bytes (tier0_header 0 obj)) @ to_bits 32 (obj_source_ref obj) @ ?fs @
      replicate (tier0_padding 0 (krow_kind k)) False @ bits_of rest"
    by (simp add: bits_of_tier0_wire [OF kind] tier0_payload_def tier0_layout_def assms(2))
  have split: "drop (row_offset r) (bits_of (tier0_wire 0 obj @ rest)) =
      drop (row_offset r - 48) (?fs @ replicate (tier0_padding 0 (krow_kind k)) False @ bits_of rest)"
    unfolding bits using row(3) by simp
  have "length (bits_of (tier0_wire 0 obj @ rest)) \<ge> 48 + slots_width (tier0_slots 0 (krow_kind k))"
    unfolding bits by simp
  then have room: "row_offset r + ?w \<le> 8 * length (tier0_wire 0 obj @ rest)"
    using row(4) by (simp only: length_bits_of)
  have "?w \<le> 32" using row(5) slots_legal by (fastforce split: if_splits)
  then show "read_bits (tier0_wire 0 obj @ rest) (row_offset r) ?w = take_bit ?w (fst (get_field obj (row_field r)))"
    unfolding read_bits_eq [OF room] split row(1) by (rule of_bits_to_bits)
  show "snd (get_field obj (row_field r)) = 1" by (rule row(2))
qed

lemma wire_at_ends:
  assumes "k \<in> set k_table" and "obj_kind obj = krow_kind k"
  shows "read_bits (tier0_wire 0 obj @ rest) 16 32 = obj_source_ref obj"
    and "read_bits (tier0_wire 0 obj @ rest) (krow_bytes k * 8 - krow_pad_bits k) (krow_pad_bits k) = 0"
proof -
  note kind = table_kind [OF assms(1)]
  have carried: "kind_carried 0 (obj_kind obj)" using kind(1) assms(2) by simp
  let ?fs = "field_bits format_width (slot_fields (tier0_slots 0 (krow_kind k)) obj)"
  let ?n = "slots_width (tier0_slots 0 (krow_kind k))"
  have bits: "bits_of (tier0_wire 0 obj @ rest) =
      bits_of (header_bytes (tier0_header 0 obj)) @ to_bits 32 (obj_source_ref obj) @ ?fs @
      replicate (krow_pad_bits k) False @ bits_of rest"
    by (simp add: bits_of_tier0_wire [OF carried] tier0_payload_def tier0_layout_def assms(2) kind(4))
  have len: "8 * length (tier0_wire 0 obj @ rest) = 48 + ?n + krow_pad_bits k + 8 * length rest"
    unfolding length_bits_of [symmetric] bits by simp
  have size: "krow_bytes k * 8 - krow_pad_bits k = 48 + ?n"
    using layout_width_encoded_size(1) [OF kind(1)] kind(2,4) by (simp add: tier0_layout_def)
  have "16 + 32 \<le> 8 * length (tier0_wire 0 obj @ rest)" unfolding len by simp
  then show "read_bits (tier0_wire 0 obj @ rest) 16 32 = obj_source_ref obj"
    by (simp only: read_bits_eq bits) (simp add: of_bits_to_bits take_bit_word_eq_self)
  have zero: "of_bits (replicate n False) = 0" for n
    by (rule bit_eqI) (simp add: bit_of_bits)
  have "48 + ?n + krow_pad_bits k \<le> 8 * length (tier0_wire 0 obj @ rest)" unfolding len by simp
  then show "read_bits (tier0_wire 0 obj @ rest) (krow_bytes k * 8 - krow_pad_bits k) (krow_pad_bits k) = 0"
    unfolding size by (simp only: read_bits_eq bits) (simp add: zero)
qed

lemma wire_codes:
  assumes "k \<in> set k_table" and "obj_kind obj = krow_kind k" and "tier0_encodable 0 obj"
  shows "(tier0_wire 0 obj @ rest) ! 0 AND 0x0F = krow_category k"
    and "drop_bit 3 ((tier0_wire 0 obj @ rest) ! 1) = krow_opcode k"
  using wire_header_object_bytes [OF assms(3), of 0 rest] table_kind(3) [OF assms(1)] assms(2)
  by (simp_all add: tier0_wire_object_bytes wire_header_def header_of_def tier0_header_def)

lemma table_complete:
  assumes "kind_carried 0 kind"
  obtains k where "k \<in> set k_table" "krow_kind k = kind"
proof -
  have "kind \<in> krow_kind ` set k_table"
    using kind_carried_small [OF assms] by (auto simp: k_table_def)
  with that show thesis by blast
qed

section \<open>The table is right\<close>

text \<open>
  C13: The layout document is right about what the encoder writes, for every object. Whatever values the
  encoder accepts, the object's kind has a row in the table; the encoding has the documented size, the
  documented category and opcode, the source reference in the documented 32 bits, each field, as the
  validator reads it by name, in its documented bits, and zeros in the documented padding.
\<close>

theorem layout_table_correct:
  assumes "cap \<le> length bs"
    and "mcl_wire_tier0_encode (Some obj) (Some bs) cap (Some w) = (MCL_WIRE_OK, Some out, Some n)"
  shows "\<exists>k \<in> set k_table. krow_kind k = obj_kind obj \<and> n = krow_bytes k \<and>
     out ! 0 AND 0x0F = krow_category k \<and> drop_bit 3 (out ! 1) = krow_opcode k \<and>
     read_bits out 16 32 = obj_source_ref obj \<and>
     (\<forall>r \<in> set (krow_fields k). \<exists>v. get_field obj (row_field r) = (v, 1) \<and>
        read_bits out (row_offset r) (row_width r) = take_bit (row_width r) v) \<and>
     read_bits out (krow_bytes k * 8 - krow_pad_bits k) (krow_pad_bits k) = 0"
proof -
  have enc: "tier0_encodable 0 obj" and room: "length (tier0_wire 0 obj) \<le> cap"
    using encode_status [OF assms(1), of 0 obj w] assms(2)
    by (auto simp: mcl_wire_tier0_encode_def length_tier0_wire split: if_splits)
  from encode_success_major_0 [OF enc room assms(1), of w] assms(2)
  have out: "out = tier0_wire 0 obj @ drop n bs" and n: "n = length (tier0_wire 0 obj)" by simp_all
  have carried: "kind_carried 0 (obj_kind obj)" using enc by (simp add: tier0_encodable_def)
  obtain k where k: "k \<in> set k_table" "krow_kind k = obj_kind obj" using table_complete [OF carried] .
  note at = wire_at_row [OF k(1) k(2) [symmetric]]
  have fields: "\<exists>v. get_field obj (row_field r) = (v, 1) \<and>
      read_bits out (row_offset r) (row_width r) = take_bit (row_width r) v"
    if "r \<in> set (krow_fields k)" for r
    using at(1) [OF that, of "drop n bs"] at(2) [OF that] by (intro exI [of _ "fst (get_field obj (row_field r))"]) (simp add: out prod_eq_iff)
  have "n = krow_bytes k" using length_tier0_wire [OF carried] table_kind(2) [OF k(1)] k(2) n by simp
  then show ?thesis
    using k fields wire_at_ends [OF k(1) k(2) [symmetric], of "drop n bs"]
      wire_codes [OF k(1) k(2) [symmetric] enc, of "drop n bs"]
    by (intro bexI [of _ k]) (simp_all add: out)
qed

text \<open>The value of an object that can be encoded fits the field of each documented row.\<close>

lemma row_value_fits:
  assumes "tier0_encodable 0 obj" and "k \<in> set k_table" and "krow_kind k = obj_kind obj"
    and "r \<in> set (krow_fields k)"
  shows "format_legal (if row_is_signed r then Signed (row_width r) else Unsigned (row_width r))"
    and "format_fits (if row_is_signed r then Signed (row_width r) else Unsigned (row_width r))
           (fst (get_field obj (row_field r)))"
proof -
  obtain f where f: "f \<in> set (tier0_slots 0 (obj_kind obj))"
    "fst (snd f) obj = fst (get_field obj (row_field r))"
    "fst f = (if row_is_signed r then Signed (row_width r) else Unsigned (row_width r))"
    using rows_match_bits(5) [OF table_matches [OF assms(2) assms(3) [symmetric]] assms(4)] assms(3) by auto
  show "format_legal (if row_is_signed r then Signed (row_width r) else Unsigned (row_width r))"
    using slots_legal [OF f(1)] by (simp only: f(3))
  have "(fst f, fst (snd f) obj) \<in> set (slot_fields (tier0_slots 0 (obj_kind obj)) obj)"
    using f(1) unfolding slot_fields_def set_map
    by (intro image_eqI [of _ _ f]) (simp_all add: case_prod_beta)
  then have "format_fits (fst f) (fst (snd f) obj)"
    using assms(1) by (auto simp: tier0_encodable_def fields_fit_def)
  then show "format_fits (if row_is_signed r then Signed (row_width r) else Unsigned (row_width r))
      (fst (get_field obj (row_field r)))"
    by (simp only: f(2,3))
qed

lemma row_value_read:
  assumes "format_legal (if neg then Signed w else Unsigned w)"
    and "format_fits (if neg then Signed w else Unsigned w) v"
  shows "(if neg then signed_take_bit (w - 1) (take_bit w v) else take_bit w v) = v"
  using assms signed_take_bit_width [of w v]
  by (auto simp: fits_s_iff_signed_take_bit fits_u_def split: if_splits)

text \<open>
  C14: The document is right about what the decoder reads, for every byte string of the Experimental
  major: each field of the decoded object is the documented bits of the input, taken as an unsigned
  number or, where the table says so, as a two's complement one.
\<close>

theorem layout_table_decodes:
  assumes "n \<le> length bs" and "drop_bit 4 (bs ! 0) = 0"
    and "mcl_wire_tier0_decode (Some bs) n (Some o0) (Some c0) = (MCL_WIRE_OK, Some obj, Some c)"
  shows "\<exists>k \<in> set k_table. krow_kind k = obj_kind obj \<and> c = krow_bytes k \<and>
     obj_source_ref obj = read_bits bs 16 32 \<and>
     (\<forall>r \<in> set (krow_fields k). get_field obj (row_field r) =
        (if row_is_signed r then signed_take_bit (row_width r - 1) (read_bits bs (row_offset r) (row_width r))
         else read_bits bs (row_offset r) (row_width r), 1))"
proof -
  have major: "wire_major bs = 0" using assms(2) by (simp add: wire_major_byte)
  note dec = decode_OK_bytes [OF assms(1,3), unfolded major]
  have carried: "kind_carried 0 (obj_kind obj)" using dec(1) by (simp add: tier0_encodable_def)
  obtain k where k: "k \<in> set k_table" "krow_kind k = obj_kind obj" using table_complete [OF carried] .
  have bs: "bs = tier0_wire 0 obj @ drop c bs" by (simp flip: dec(2))
  have "length (take c bs) = c" using dec(3) assms(1) by simp
  then have size: "c = krow_bytes k"
    using length_tier0_wire [OF carried] table_kind(2) [OF k(1)] k(2) by (simp add: dec(2))
  have "get_field obj (row_field r) =
        (if row_is_signed r then signed_take_bit (row_width r - 1) (read_bits bs (row_offset r) (row_width r))
         else read_bits bs (row_offset r) (row_width r), 1)"
    if r: "r \<in> set (krow_fields k)" for r
  proof -
    note at = wire_at_row(1) [OF k(1) k(2) [symmetric] r, of "drop c bs", folded bs]
      wire_at_row(2) [OF k(1) k(2) [symmetric] r]
    show ?thesis
      using at row_value_read [OF row_value_fits [OF dec(1) k r]]
      by (cases "row_is_signed r") (simp_all add: prod_eq_iff)
  qed
  moreover have "obj_source_ref obj = read_bits bs 16 32"
    using wire_at_ends(1) [OF k(1) k(2) [symmetric], of "drop c bs", folded bs] by simp
  ultimately show ?thesis using k size by blast
qed

section \<open>The validator passes\<close>

definition all_passed :: "checker \<Rightarrow> bool" where
  "all_passed s \<longleftrightarrow> failures s = 0 \<and> length (chk_buffer s) = 64"

lemma check_True [simp]: "check True s = s"
  by (simp add: check_def)

lemma check_encode_ok:
  assumes "tier0_encodable 0 obj" and "all_passed s"
  shows "check_encode obj s =
     (MCL_WIRE_OK, s\<lparr>chk_buffer := tier0_wire 0 obj @ drop (length (tier0_wire 0 obj)) (chk_buffer s),
                     chk_written := length (tier0_wire 0 obj)\<rparr>)"
    and "all_passed (snd (check_encode obj s))"
proof -
  have "kind_carried 0 (obj_kind obj)" using assms(1) by (simp add: tier0_encodable_def)
  then have len: "length (tier0_wire 0 obj) \<le> 17" by (simp add: length_tier0_wire encoded_size_bounds)
  then have room: "length (tier0_wire 0 obj) \<le> length (chk_buffer s)"
    using assms(2) by (simp add: all_passed_def)
  show run: "check_encode obj s =
     (MCL_WIRE_OK, s\<lparr>chk_buffer := tier0_wire 0 obj @ drop (length (tier0_wire 0 obj)) (chk_buffer s),
                     chk_written := length (tier0_wire 0 obj)\<rparr>)"
    by (simp add: check_encode_def encode_success_major_0 [OF assms(1) room])
  show "all_passed (snd (check_encode obj s))" using assms(2) len by (simp add: run all_passed_def)
qed

text \<open>The objects of the validator, evaluated: each encodes, reads back as it is, and holds its probe.\<close>

lemma checked_object_plain:
  "krow_kind k \<noteq> 5 \<Longrightarrow> krow_kind k \<noteq> 6 \<Longrightarrow>
   checked_object k v = zero_object\<lparr>obj_kind := krow_kind k, obj_source_ref := v\<rparr>"
  by (simp add: checked_object_def Let_def)

lemma checked_object_offer:
  assumes "krow_kind k = 5"
  shows "checked_object k v = zero_object\<lparr>obj_kind := 5, obj_source_ref := v, obj_body :=
    zero_body\<lparr>body_transport_offer := (body_transport_offer zero_body)
      \<lparr>transport_offer_migration_ref := 1, transport_offer_transport_id := 1\<rparr>\<rparr>\<rparr>"
proof -
  have "checked_object k v = snd (set_field (snd (set_field (zero_object\<lparr>obj_kind := 5, obj_source_ref := v\<rparr>)
      ''migration_ref'' 1)) ''transport_id'' 1)"
    using assms by (simp add: checked_object_def)
  then show ?thesis by (simp add: zero_object_def set_field_def)
qed

lemma checked_object_accept:
  assumes "krow_kind k = 6"
  shows "checked_object k v = zero_object\<lparr>obj_kind := 6, obj_source_ref := v, obj_body :=
    zero_body\<lparr>body_transport_accept := (body_transport_accept zero_body)
      \<lparr>transport_accept_migration_ref := 1, transport_accept_transport_id := 1,
       transport_accept_session_ref := 1\<rparr>\<rparr>\<rparr>"
proof -
  have "checked_object k v = snd (set_field (snd (set_field (snd (set_field
      (zero_object\<lparr>obj_kind := 6, obj_source_ref := v\<rparr>) ''migration_ref'' 1)) ''transport_id'' 1)) ''session_ref'' 1)"
    using assms by (simp add: checked_object_def)
  then show ?thesis by (simp add: zero_object_def set_field_def)
qed

lemmas checked_object_cases = checked_object_plain checked_object_offer checked_object_accept

lemmas field_tables = presence_fields_def hazard_fields_def request_fields_def authority_fields_def
  degraded_fields_def offer_fields_def accept_fields_def

lemma checked_objects:
  assumes "k \<in> set k_table"
  shows "obj_kind (checked_object k v) = krow_kind k" and "obj_source_ref (checked_object k v) = v"
    and "tier0_encodable 0 (checked_object k v)"
proof -
  have "\<forall>k \<in> set k_table. obj_kind (checked_object k v) = krow_kind k \<and>
      obj_source_ref (checked_object k v) = v \<and> obj_priority (checked_object k v) = 0 \<and>
      fields_in_range (checked_object k v)"
    unfolding k_table_def list.set ball_simps
    by (simp add: checked_object_cases) (simp add: zero_object_def zero_body_def fields_in_range_def Let_def)
  with assms table_kind(1) [OF assms] show "obj_kind (checked_object k v) = krow_kind k"
    and "obj_source_ref (checked_object k v) = v" and "tier0_encodable 0 (checked_object k v)"
    by (auto simp: tier0_encodable_iff)
qed

definition probe_fine :: "kind_row \<Rightarrow> field_row \<Rightarrow> bool \<Rightarrow> bool" where
  "probe_fine k r p =
     (case set_field (checked_object k 0) (row_field r) (probe_value r p) of
        (is_set, obj) \<Rightarrow>
          is_set = 1 \<and> obj_kind obj = krow_kind k \<and> obj_priority obj \<le> 3 \<and> fields_in_range obj \<and>
          wire_view 0 obj = obj \<and> get_field obj (row_field r) = (probe_value r p, 1))"

definition probes_fine :: "kind_row \<Rightarrow> bool" where
  "probes_fine k \<longleftrightarrow>
     (\<forall>r \<in> set (krow_fields k). probe_fine k r False \<and> (row_is_signed r \<longrightarrow> probe_fine k r True))"

lemma table_probes_fine: "\<forall>k \<in> set k_table. probes_fine k"
  unfolding k_table_def list.set ball_simps
  apply (intro conjI TrueI; simp add: probes_fine_def field_tables probe_fine_def checked_object_cases)
  apply (simp_all add: zero_object_def set_field_def)
  apply (simp_all add: probe_value_def zero_body_def)
  apply (simp_all add: fields_in_range_def)
  apply (simp_all add: get_field_def)
  apply (simp_all add: wire_view_def zero_body_def Let_def)
  done

lemma check_size_and_codes_ok:
  assumes "k \<in> set k_table" and "all_passed s"
  shows "all_passed (check_size_and_codes k s)"
proof -
  note obj = checked_objects [OF assms(1), of 0]
  note enc = check_encode_ok [OF obj(3) assms(2)]
  have "length (tier0_wire 0 (checked_object k 0)) = krow_bytes k"
    using length_tier0_wire [of 0 "checked_object k 0"] table_kind(1,2) [OF assms(1)] obj(1) by simp
  then show ?thesis
    using enc wire_codes [OF assms(1) obj(1,3)] table_kind(5) [OF assms(1)]
    by (simp add: check_size_and_codes_def)
qed

lemma check_source_ref_ok:
  assumes "k \<in> set k_table" and "all_passed s"
  shows "all_passed (check_source_ref k s)"
proof -
  note obj = checked_objects [OF assms(1), of "0x89ABCDEF"]
  note enc = check_encode_ok [OF obj(3) assms(2)]
  then show ?thesis
    using wire_at_ends(1) [OF assms(1) obj(1)] obj(2) by (simp add: check_source_ref_def)
qed

lemma check_field_ok:
  assumes "k \<in> set k_table" and "r \<in> set (krow_fields k)" and "all_passed s"
  shows "all_passed (check_field k d0 r p s)"
proof (cases "\<not> row_is_signed r \<and> p")
  case True
  then show ?thesis using assms(3) by (simp add: check_field_def)
next
  case False
  then have "probe_fine k r p"
    using table_probes_fine assms(1,2) by (cases p) (auto simp: probes_fine_def)
  then obtain obj where obj: "set_field (checked_object k 0) (row_field r) (probe_value r p) = (1, obj)"
    "obj_kind obj = krow_kind k" "obj_priority obj \<le> 3" "fields_in_range obj" "wire_view 0 obj = obj"
    "get_field obj (row_field r) = (probe_value r p, 1)"
    by (auto simp: probe_fine_def split: prod.splits)
  have enc: "tier0_encodable 0 obj"
    using obj(2-4) table_kind(1) [OF assms(1)] by (simp add: tier0_encodable_iff)
  let ?ws = "tier0_wire 0 obj"
  let ?buf = "?ws @ drop (length ?ws) (chk_buffer s)"
  note run = check_encode_ok [OF enc assms(3)]
  have len: "length ?ws = krow_bytes k"
    using length_tier0_wire [of 0 obj] table_kind(1,2) [OF assms(1)] obj(2) by simp
  have dec: "mcl_wire_tier0_decode (Some ?buf) (length ?ws) (Some d0) (Some 0) =
      (MCL_WIRE_OK, Some obj, Some (length ?ws))"
    using decode_tier0_wire [OF enc, of "length ?ws" "drop (length ?ws) (chk_buffer s)" d0 0] obj(5) by simp
  have expected: "(if 32 \<le> row_width r then v else v AND (push_bit (row_width r) 1 - 1)) =
      take_bit (row_width r) v" for v :: u32
    by (cases "32 \<le> row_width r")
      (simp_all add: take_bit_word_eq_self, simp add: take_bit_eq_mask mask_eq_exp_minus_1)
  have "read_bits ?buf (row_offset r) (row_width r) = take_bit (row_width r) (probe_value r p)"
    using wire_at_row(1) [OF assms(1) obj(2) assms(2), of "drop (length ?ws) (chk_buffer s)"] obj(6) by simp
  then show ?thesis
    using run dec len assms(3)
    by (simp add: check_field_def obj(1,6) Let_def expected del: push_bit_of_1)
qed

text \<open>Setting the last padding bit.\<close>

lemma write_one_bit:
  assumes "offset < 8 * length data"
  shows "bits_of (write_bits data offset 1 1) = (bits_of data)[offset := True]"
    and "length (write_bits data offset 1 1) = length data"
proof -
  let ?i = "offset div 8" and ?k = "7 - offset mod 8"
  have byte: "(ucast ((ucast b :: u32) AND NOT (push_bit j 1) OR push_bit j 1) :: u8) = b OR push_bit j 1"
    if "j < 8" for b :: u8 and j
  proof (rule bit_eqI)
    fix n
    assume "possible_bit TYPE(8 word) n"
    then have "n < 8" by (simp add: possible_bit_word)
    then show "bit (ucast ((ucast b :: u32) AND NOT (push_bit j 1) OR push_bit j 1) :: u8) n \<longleftrightarrow>
        bit (b OR push_bit j 1) n"
      using that by (auto simp: bit_simps)
  qed
  have "write_bits data offset 1 1 = data[?i := data ! ?i OR push_bit ?k 1]"
    using byte [of ?k "data ! ?i"] by (simp add: write_bits_def Let_def byte_index_bit_index del: push_bit_of_1)
  then show "bits_of (write_bits data offset 1 1) = (bits_of data)[offset := True]"
    and "length (write_bits data offset 1 1) = length data"
    using bits_of_set_bit [OF assms] by simp_all
qed

lemma nth_True_mem: "i < length xs \<Longrightarrow> xs ! i \<Longrightarrow> True \<in> set xs"
  by (metis (full_types) nth_mem)

lemma wire_header_cong: "take 2 xs = take 2 ys \<Longrightarrow> wire_header xs = wire_header ys"
  using nth_take [of 0 2 xs] nth_take [of 1 2 xs] nth_take [of 0 2 ys] nth_take [of 1 2 ys]
  by (simp add: wire_header_def)

text \<open>An encoding whose last padding bit is set keeps its header and has non-zero padding.\<close>

lemma wire_set_last_bit:
  assumes "k \<in> set k_table" and "0 < krow_pad_bits k" and "krow_kind k = obj_kind obj"
    and "tier0_encodable 0 obj" and "krow_bytes k \<le> length broken"
    and "bits_of broken = (bits_of (tier0_wire 0 obj @ rest))[krow_bytes k * 8 - 1 := True]"
  shows "wire_header broken = tier0_header 0 obj" and "wire_kind broken = Some (krow_kind k)"
    and "\<not> wire_padding_zero broken (krow_kind k)" and "wire_size broken (krow_kind k) = krow_bytes k"
proof -
  note kind = table_kind [OF assms(1)]
  let ?last = "krow_bytes k * 8 - 1" and ?n = "16 + slots_width (tier0_layout 0 (krow_kind k))"
  have bytes: "10 \<le> krow_bytes k" using kind(1,2) encoded_size_bounds [OF kind(1)] by simp
  have "take 16 (bits_of broken) = take 16 (bits_of (tier0_wire 0 obj @ rest))"
    unfolding assms(6) by (rule take_update_cancel) (use bytes in simp)
  then have "bits_of (take 2 broken) = bits_of (take 2 (tier0_wire 0 obj @ rest))"
    by (simp only: bits_of_take) simp
  then have "wire_header broken = wire_header (tier0_wire 0 obj @ rest)"
    by (intro wire_header_cong) (simp only: bits_of_inject)
  then show hdr: "wire_header broken = tier0_header 0 obj"
    using wire_header_object_bytes [OF assms(4), of 0] by (simp add: tier0_wire_object_bytes tier0_header_def)
  show wk: "wire_kind broken = Some (krow_kind k)"
    using wire_kind_object_bytes [OF assms(4), of 0 rest] assms(3) wire_header_object_bytes [OF assms(4), of 0 rest]
    unfolding wire_kind_def hdr by (simp add: tier0_header_def)
  show size: "wire_size broken (krow_kind k) = krow_bytes k"
    using kind(2) by (simp add: wire_size_def hdr tier0_header_def)
  have width: "?n + krow_pad_bits k = 8 * krow_bytes k"
    using layout_width_encoded_size(1) [OF kind(1)] kind(2,4) by simp
  let ?pad = "drop ?n (bits_of (take (krow_bytes k) broken))"
  have "?n + (krow_pad_bits k - 1) = ?last" using width assms(2) by simp
  moreover have "?n \<le> length (bits_of (take (krow_bytes k) broken))"
    using width assms(5) by (simp add: min_absorb2)
  ultimately have "?pad ! (krow_pad_bits k - 1) = bits_of (take (krow_bytes k) broken) ! ?last"
    by (simp only: nth_drop)
  also have "\<dots> = bits_of broken ! ?last"
    unfolding bits_of_take using bytes by (intro nth_take) linarith
  also have "\<dots>"
  proof -
    have "?last < length (bits_of (tier0_wire 0 obj @ rest))"
      using arg_cong [OF assms(6), of length] assms(5) bytes
      by (simp only: length_list_update length_bits_of)
    then show ?thesis unfolding assms(6) by (simp only: nth_list_update_eq)
  qed
  finally have "?pad ! (krow_pad_bits k - 1)" .
  moreover have "krow_pad_bits k - 1 < length ?pad"
    using width assms(2,5) by (simp add: min_absorb2)
  ultimately have "True \<in> set ?pad" by (rule nth_True_mem [rotated])
  then show "\<not> wire_padding_zero broken (krow_kind k)"
    by (simp add: wire_padding_zero_def size hdr tier0_header_def)
qed

lemma check_padding_ok:
  assumes "k \<in> set k_table" and "all_passed s"
  shows "all_passed (check_padding k d0 s)"
proof (cases "krow_pad_bits k > 0")
  case False
  then show ?thesis
    using check_encode_ok [OF checked_objects(3) [OF assms(1), of 0] assms(2)]
    by (simp add: check_padding_def)
next
  case True
  let ?obj = "checked_object k 0" and ?last = "krow_bytes k * 8 - 1"
  note obj = checked_objects [OF assms(1), of 0]
  note kind = table_kind [OF assms(1)]
  note run = check_encode_ok [OF obj(3) assms(2)]
  let ?ws = "tier0_wire 0 ?obj"
  let ?buf = "?ws @ drop (length ?ws) (chk_buffer s)"
  have len: "length ?ws = krow_bytes k" and bytes: "10 \<le> krow_bytes k" "krow_bytes k \<le> 17"
    using length_tier0_wire [of 0 ?obj] kind(1,2) obj(1) encoded_size_bounds [OF kind(1)] by simp_all
  have "krow_pad_bits k \<le> krow_bytes k * 8"
    using layout_width_encoded_size(1) [OF kind(1)] kind(2,4) by simp
  then have pos: "krow_bytes k * 8 - krow_pad_bits k + krow_pad_bits k - 1 = ?last" by simp
  obtain broken where broken: "broken = write_bits ?buf ?last 1 1" by simp
  have last: "?last < 8 * length ?buf" using len bytes by simp
  note bad = write_one_bit [OF last, folded broken]
  have bl: "krow_bytes k \<le> length broken" using bad(2) len by simp
  note set_bit = wire_set_last_bit [OF assms(1) True obj(1) [symmetric] obj(3) bl bad(1)]
  then have dec: "fst (mcl_wire_tier0_decode (Some broken) (krow_bytes k) (Some d0) (Some 0)) =
      MCL_WIRE_ERR_NONCANONICAL"
    using decode_body_accepted [OF set_bit(2) _ bl, of d0 0] bytes(1)
    by (simp add: decode_clear_bit [OF bl] tier0_header_def)
  have "read_bits ?buf (krow_bytes k * 8 - krow_pad_bits k) (krow_pad_bits k) = 0"
    using wire_at_ends(2) [OF assms(1) obj(1)] .
  then show ?thesis
    using True run dec [unfolded broken] bad(2) [unfolded broken] assms(2) len bytes unfolding check_padding_def
    by (simp add: Let_def pos [unfolded One_nat_def] all_passed_def)
qed

text \<open>
  C30: The layout validator \<open>tools/validate_tier0_layout.c\<close> reports no mismatch between the document and
  the codec: run to its end over the seven kinds, with whatever its uninitialised buffer and objects
  hold, no check fails and it exits with 0.
\<close>

theorem layout_validator_passes:
  assumes "length buffer = 64"
  shows "validate_main decoded0 buffer = 0"
proof -
  have field_pass: "all_passed (fold (\<lambda>f s. fold (\<lambda>pass1 s. check_field k d0 f pass1 s) [False, True] s) rs s)"
    if "k \<in> set k_table" "set rs \<subseteq> set (krow_fields k)" "all_passed s" for k d0 rs s
    using that(2,3) by (induction rs arbitrary: s) (simp_all add: check_field_ok [OF that(1)])
  have kind_pass: "all_passed (check_kind d0 k s)" if "k \<in> set k_table" "all_passed s" for k d0 s
  proof -
    have "all_passed (s\<lparr>chk_written := 0\<rparr>)" using that(2) by (simp add: all_passed_def)
    then show ?thesis
      unfolding check_kind_def Let_def
      by (intro check_padding_ok field_pass check_source_ref_ok check_size_and_codes_ok that(1) subset_refl)
  qed
  have "all_passed (fold (\<lambda>k s. check_kind decoded0 k (s\<lparr>chk_buffer := buffer\<rparr>)) ks s)"
    if "set ks \<subseteq> set k_table" "all_passed s" for ks s
    using that
  proof (induction ks arbitrary: s)
    case (Cons k ks)
    have "all_passed (s\<lparr>chk_buffer := buffer\<rparr>)" using Cons.prems(2) assms by (simp add: all_passed_def)
    with Cons kind_pass show ?case by simp
  qed simp
  from this [of k_table "\<lparr>failures = 0, chk_buffer = buffer, chk_written = 0\<rparr>"] assms show ?thesis
    by (simp add: validate_main_def Let_def all_passed_def)
qed

section \<open>The statements at a concrete object\<close>

theorem layout_table_correct_witness:
  "\<exists>k \<in> set k_table. krow_bytes k = 15 \<and> read_bits (sample_bytes @ [255, 255]) 16 32 = 0xDEADBEEF"
proof -
  have "mcl_wire_tier0_encode (Some sample_hazard) (Some (replicate 17 255)) 17 (Some 99) =
      (MCL_WIRE_OK, Some (sample_bytes @ [255, 255]), Some 15)"
    using sample_encoding by (simp add: mcl_wire_tier0_encode_def)
  from layout_table_correct [OF _ this] show ?thesis by (auto simp: sample_hazard_def)
qed

theorem layout_table_decodes_witness:
  "\<exists>k \<in> set k_table. krow_bytes k = 15 \<and> krow_kind k = 1 \<and>
     (\<forall>r \<in> set (krow_fields k). snd (get_field sample_hazard (row_field r)) = 1)"
proof -
  have "drop_bit 4 ((sample_bytes @ [1, 2, 3]) ! 0) = 0" "18 \<le> length (sample_bytes @ [1, 2, 3])"
    "obj_kind sample_hazard = 1"
    by code_simp+
  from layout_table_decodes [OF this(2,1) sample_decoding] this(3) show ?thesis by auto
qed

theorem layout_validator_passes_witness:
  "validate_main sample_hazard (replicate 64 0xA5) = 0"
  by (rule layout_validator_passes) simp

end
