(* ===== verification/Wire_Scan.thy ===== *)
theory Wire_Scan
  imports Wire_Prelude "HOL-Library.Sublist"
begin

text \<open>
  C strings for the tools that scan JSON text: \<open>strstr\<close>, \<open>strchr\<close>, \<open>strtol\<close>, \<open>strtoul\<close> and the positions
  they return. A text buffer is the list of its bytes up to the terminating NUL that the tools store
  behind what \<open>fread\<close> delivered; a byte NUL inside the buffer ends the string as well. A pointer into
  the buffer is its index. \<open>long\<close> and \<open>unsigned long\<close> have 64 bits.
\<close>

section \<open>The string functions\<close>

abbreviation NUL :: char where "NUL \<equiv> CHR 0x00"
abbreviation QUOTE :: char where "QUOTE \<equiv> CHR 0x22"

fun strstr :: "string \<Rightarrow> string \<Rightarrow> nat option" where
  "strstr needle [] = (if needle = [] then Some 0 else None)"
| "strstr needle (c # cs) =
     (if prefix needle (c # cs) then Some 0
      else if c = NUL then None
      else map_option Suc (strstr needle cs))"

fun strchr :: "char \<Rightarrow> string \<Rightarrow> nat option" where
  "strchr c [] = None"
| "strchr c (d # ds) =
     (if d = c then Some 0 else if d = NUL then None else map_option Suc (strchr c ds))"

definition is_space :: "char \<Rightarrow> bool" where
  "is_space c \<longleftrightarrow> c \<in> {CHR 0x20, CHR 0x09, CHR 0x0A, CHR 0x0B, CHR 0x0C, CHR 0x0D}"

definition is_digit :: "char \<Rightarrow> bool" where
  "is_digit c \<longleftrightarrow> 48 \<le> (of_char c :: nat) \<and> (of_char c :: nat) \<le> 57"

definition digit_value :: "char \<Rightarrow> int" where
  "digit_value c = of_char c - 48"

fun decimal_value :: "int \<Rightarrow> string \<Rightarrow> int" where
  "decimal_value so_far [] = so_far"
| "decimal_value so_far (c # cs) =
     (if is_digit c then decimal_value (10 * so_far + digit_value c) cs else so_far)"

abbreviation LONG_MAX :: int where "LONG_MAX \<equiv> 0x7FFFFFFFFFFFFFFF"
abbreviation LONG_MIN :: int where "LONG_MIN \<equiv> - 0x8000000000000000"
abbreviation ULONG_MAX :: int where "ULONG_MAX \<equiv> 0xFFFFFFFFFFFFFFFF"

text \<open>The optional sign: whether it is a minus, and the rest.\<close>

fun strip_sign :: "string \<Rightarrow> bool \<times> string" where
  "strip_sign [] = (False, [])"
| "strip_sign (c # cs) =
     (if c = CHR ''-'' then (True, cs) else if c = CHR ''+'' then (False, cs) else (False, c # cs))"

text \<open>\<open>strtol(s, NULL, 10)\<close>: it saturates, and gives 0 where there is no number.\<close>

definition strtol :: "string \<Rightarrow> int" where
  "strtol s =
     (case strip_sign (dropWhile is_space s) of
        (negative, digits) \<Rightarrow>
          let v = decimal_value 0 digits in
          max LONG_MIN (min LONG_MAX (if negative then - v else v)))"

text \<open>\<open>strtoul(s, NULL, 10)\<close>: it saturates, and a minus sign negates modulo \<open>2\<^sup>6\<^sup>4\<close>.\<close>

definition strtoul :: "string \<Rightarrow> nat" where
  "strtoul s =
     (case strip_sign (dropWhile is_space s) of
        (negative, digits) \<Rightarrow>
          let v = decimal_value 0 digits in
          nat (if v > ULONG_MAX then ULONG_MAX
               else if negative then (- v) mod (ULONG_MAX + 1) else v))"

section \<open>Positions in a buffer\<close>

abbreviation MAX_FILE_SIZE :: nat where "MAX_FILE_SIZE \<equiv> 65536"

definition strstr_from :: "string \<Rightarrow> nat \<Rightarrow> string \<Rightarrow> nat option" where
  "strstr_from buf from needle = map_option (\<lambda>i. from + i) (strstr needle (drop from buf))"

definition strchr_from :: "string \<Rightarrow> nat \<Rightarrow> char \<Rightarrow> nat option" where
  "strchr_from buf from c = map_option (\<lambda>i. from + i) (strchr c (drop from buf))"

text \<open>The run of characters from \<open>p\<close> on, below \<open>limit\<close>, that \<open>P\<close> holds for: the position behind it.\<close>

definition skip_while :: "string \<Rightarrow> nat \<Rightarrow> (char \<Rightarrow> bool) \<Rightarrow> nat \<Rightarrow> nat" where
  "skip_while buf limit P p = p + length (takeWhile P (take (limit - p) (drop p buf)))"

text \<open>What a copied run of bytes is as a string.\<close>

definition c_string :: "string \<Rightarrow> string" where
  "c_string s = takeWhile (\<lambda>c. c \<noteq> NUL) s"

text \<open>What \<open>snprintf(pattern, size, "\"%s\"", key)\<close> leaves in \<open>pattern\<close>.\<close>

definition quoted_pattern :: "nat \<Rightarrow> string \<Rightarrow> string" where
  "quoted_pattern capacity key = take (capacity - 1) (QUOTE # key @ [QUOTE])"

lemma shift_0 [simp]: "map_option ((+) (0::nat)) r = r"
  by (cases r) simp_all

lemma shift_shift [simp]:
  "map_option ((+) m) (map_option ((+) (n::nat)) r) = map_option ((+) (m + n)) r"
  by (cases r) simp_all

lemma shift_Suc [simp]:
  "map_option Suc r = map_option ((+) 1) r"
  by (cases r) simp_all

section \<open>What the string functions find\<close>

lemma strstr_Some:
  "strstr needle hay = Some i \<Longrightarrow>
     prefix needle (drop i hay) \<and> i \<le> length hay \<and> (\<forall>j < i. \<not> prefix needle (drop j hay))"
proof (induction needle hay arbitrary: i rule: strstr.induct)
  case (2 needle c cs)
  then show ?case
    by (auto simp: less_Suc_eq_0_disj split: if_splits)
qed (auto split: if_splits)

lemma strstr_None:
  "strstr needle hay = None \<Longrightarrow> NUL \<notin> set hay \<Longrightarrow> \<not> prefix needle (drop j hay)"
proof (induction needle hay arbitrary: j rule: strstr.induct)
  case (2 needle c cs)
  then show ?case by (cases j) (auto split: if_splits)
qed (auto split: if_splits)

lemma skip_while_bounds: "p \<le> skip_while buf limit P p" "p \<le> limit \<Longrightarrow> skip_while buf limit P p \<le> limit"
proof -
  have "length (takeWhile P (take (limit - p) (drop p buf))) \<le> limit - p"
    by (rule order_trans [OF length_takeWhile_le]) simp
  then show "p \<le> limit \<Longrightarrow> skip_while buf limit P p \<le> limit" by (simp add: skip_while_def)
qed (simp add: skip_while_def)

lemma strchr_SomeD:
  "strchr c hay = Some i \<Longrightarrow> i < length hay \<and> hay ! i = c \<and> c \<notin> set (take i hay)"
  by (induction c hay arbitrary: i rule: strchr.induct) (auto split: if_splits)

lemma strstr_from_Some:
  assumes "strstr_from buf from needle = Some p"
  shows "from \<le> p" "prefix needle (drop p buf)" "from \<le> length buf \<Longrightarrow> p \<le> length buf"
  using assms strstr_Some [of needle "drop from buf"]
  by (auto simp: strstr_from_def add.commute)

lemma strchr_skip:
  "c \<notin> set xs \<Longrightarrow> NUL \<notin> set xs \<Longrightarrow> strchr c (xs @ ys) = map_option (\<lambda>i. length xs + i) (strchr c ys)"
  by (induction xs) auto

lemma strchr_hit [simp]: "c \<notin> set xs \<Longrightarrow> NUL \<notin> set xs \<Longrightarrow> strchr c (xs @ c # ys) = Some (length xs)"
  by (simp add: strchr_skip)

lemma strchr_from_hit:
  assumes "drop from buf = xs @ c # ys" and "c \<notin> set xs" and "NUL \<notin> set xs"
  shows "strchr_from buf from c = Some (from + length xs)"
    "drop (from + length xs) buf = c # ys" "drop (Suc (from + length xs)) buf = ys"
proof -
  show "strchr_from buf from c = Some (from + length xs)"
    using assms by (simp add: strchr_from_def)
  have "drop (length xs) (drop from buf) = c # ys" using assms(1) by simp
  then show d: "drop (from + length xs) buf = c # ys" by (simp add: add.commute)
  have "drop 1 (drop (from + length xs) buf) = ys" by (simp only: d) simp
  then show "drop (Suc (from + length xs)) buf = ys" by simp
qed

section \<open>Numbers and their decimal text\<close>

fun decimal :: "nat \<Rightarrow> string" where
  "decimal n = (if n < 10 then [char_of (48 + n)] else decimal (n div 10) @ [char_of (48 + n mod 10)])"

declare decimal.simps [simp del]

definition decimal_int :: "int \<Rightarrow> string" where
  "decimal_int i = (if i < 0 then CHR ''-'' # decimal (nat (- i)) else decimal (nat i))"

lemma of_char_digit: "n < 10 \<Longrightarrow> of_char (char_of (48 + n :: nat)) = 48 + n"
  by simp

lemma digit_char [simp]:
  assumes "n < 10"
  shows "is_digit (char_of (48 + n :: nat))" "digit_value (char_of (48 + n :: nat)) = int n"
proof -
  show "is_digit (char_of (48 + n :: nat))" using assms by (simp add: is_digit_def)
  have "of_char (char_of (48 + n :: nat)) = int (of_char (char_of (48 + n :: nat)))"
    by (rule of_nat_of_char [symmetric])
  then show "digit_value (char_of (48 + n :: nat)) = int n" using assms by (simp add: digit_value_def)
qed

lemma decimal_digits: "c \<in> set (decimal n) \<Longrightarrow> is_digit c"
proof (induction n rule: decimal.induct)
  case (1 n)
  then show ?case by (subst (asm) (2) decimal.simps) (auto split: if_splits)
qed

lemma decimal_not_Nil [simp]: "decimal n \<noteq> []"
  by (subst decimal.simps) simp

lemma decimal_value_append:
  "(\<And>c. c \<in> set xs \<Longrightarrow> is_digit c) \<Longrightarrow>
     decimal_value so_far (xs @ ys) = decimal_value (decimal_value so_far xs) ys"
  by (induction xs arbitrary: so_far) auto

lemma decimal_value_decimal: "decimal_value 0 (decimal n) = int n"
proof (induction n rule: decimal.induct)
  case (1 n)
  then show ?case
    by (subst decimal.simps) (auto simp: decimal_value_append decimal_digits zdiv_int zmod_int)
qed

lemma decimal_value_stop:
  "ys = [] \<or> \<not> is_digit (hd ys) \<Longrightarrow> decimal_value so_far ys = so_far"
  by (cases ys) auto

lemma decimal_value_decimal_then [simp]:
  "ys = [] \<or> \<not> is_digit (hd ys) \<Longrightarrow> decimal_value 0 (decimal n @ ys) = int n"
  by (simp add: decimal_value_append decimal_digits decimal_value_decimal decimal_value_stop)

lemma digit_no_space: "is_digit c \<Longrightarrow> \<not> is_space c"
  by (auto simp: is_space_def is_digit_def)

lemma digit_no_sign: "is_digit c \<Longrightarrow> c \<noteq> CHR ''-'' \<and> c \<noteq> CHR ''+''"
  by (auto simp: is_digit_def)

lemma strip_sign_decimal [simp]: "strip_sign (decimal n @ ys) = (False, decimal n @ ys)"
proof -
  obtain c cs where c: "decimal n = c # cs" by (cases "decimal n") simp_all
  then have "is_digit c" using decimal_digits [of c n] by simp
  then show ?thesis using digit_no_sign by (simp add: c)
qed

lemma dropWhile_space_decimal [simp]: "dropWhile is_space (decimal n @ ys) = decimal n @ ys"
proof -
  obtain c cs where c: "decimal n = c # cs" by (cases "decimal n") simp_all
  then have "is_digit c" using decimal_digits [of c n] by simp
  then show ?thesis using digit_no_space by (simp add: c)
qed

lemma strtol_decimal:
  assumes "LONG_MIN \<le> i" and "i \<le> LONG_MAX" and "ys = [] \<or> \<not> is_digit (hd ys)"
  shows "strtol (CHR 0x20 # decimal_int i @ ys) = i"
proof (cases "i < 0")
  case True
  have "is_space (CHR 0x20)" "\<not> is_space (CHR ''-'')" by (simp_all add: is_space_def)
  with True assms show ?thesis by (simp add: strtol_def decimal_int_def)
next
  case False
  have "is_space (CHR 0x20)" by (simp add: is_space_def)
  with False assms show ?thesis by (simp add: strtol_def decimal_int_def)
qed

lemma strtol_text: "\<not> is_digit c \<Longrightarrow> c \<noteq> CHR ''-'' \<Longrightarrow> c \<noteq> CHR ''+'' \<Longrightarrow> \<not> is_space c \<Longrightarrow>
    strtol (CHR 0x20 # c # ys) = 0"
  by (simp add: strtol_def) (simp add: is_space_def)

section \<open>Documents as quoted segments\<close>

text \<open>
  A pattern in quotes occurs in a text only between two adjacent quotes. A text is therefore seen as
  what stands before its first quote, followed by its segments, each with the quote in front of it.
\<close>

definition segments :: "string list \<Rightarrow> string" where
  "segments ss = concat (map (\<lambda>s. QUOTE # s) ss)"

lemma segments_simps [simp]:
  "segments [] = []" "segments (s # ss) = QUOTE # s @ segments ss"
  "segments (ss @ ts) = segments ss @ segments ts"
  by (simp_all add: segments_def)

definition clean :: "string \<Rightarrow> bool" where
  "clean s \<longleftrightarrow> QUOTE \<notin> set s \<and> NUL \<notin> set s"

lemma clean_simps [simp]:
  "clean []" "clean (c # s) \<longleftrightarrow> c \<noteq> QUOTE \<and> c \<noteq> NUL \<and> clean s"
  "clean (s @ t) \<longleftrightarrow> clean s \<and> clean t"
  by (auto simp: clean_def)

lemma strstr_clean_skip:
  "clean s \<Longrightarrow> strstr (QUOTE # p) (s @ ys) = map_option (\<lambda>i. length s + i) (strstr (QUOTE # p) ys)"
  by (induction s) auto

lemma prefix_segment:
  "clean key \<Longrightarrow> clean s \<Longrightarrow> prefix (key @ [QUOTE]) (s @ segments ss) \<longleftrightarrow> s = key \<and> ss \<noteq> []"
proof (induction key arbitrary: s)
  case Nil
  then show ?case by (cases s; cases ss) auto
next
  case (Cons k key)
  then show ?case by (cases s; cases ss) auto
qed

lemma strstr_segments_Cons:
  assumes "clean key" and "clean s"
  shows "strstr (QUOTE # key @ [QUOTE]) (segments (s # ss)) =
    (if s = key \<and> ss \<noteq> [] then Some 0
     else map_option (\<lambda>i. Suc (length s) + i) (strstr (QUOTE # key @ [QUOTE]) (segments ss)))"
  using assms
  by (cases "strstr (QUOTE # key @ [QUOTE]) (segments ss)")
     (auto simp: prefix_segment strstr_clean_skip)

lemma strstr_segments_skip:
  assumes "clean key" and "\<forall>s \<in> set ss. clean s" and "key \<notin> set ss"
  shows "strstr (QUOTE # key @ [QUOTE]) (segments (ss @ ts)) =
    map_option (\<lambda>i. length (segments ss) + i) (strstr (QUOTE # key @ [QUOTE]) (segments ts))"
  using assms(2,3)
proof (induction ss)
  case (Cons s ss)
  then have "strstr (QUOTE # key @ [QUOTE]) (segments (s # ss @ ts)) =
      map_option (\<lambda>i. Suc (length s) + i) (strstr (QUOTE # key @ [QUOTE]) (segments (ss @ ts)))"
    using assms(1) by (subst strstr_segments_Cons) auto
  also have "strstr (QUOTE # key @ [QUOTE]) (segments (ss @ ts)) =
      map_option (\<lambda>i. length (segments ss) + i) (strstr (QUOTE # key @ [QUOTE]) (segments ts))"
    using Cons by simp
  finally show ?case
    by (cases "strstr (QUOTE # key @ [QUOTE]) (segments ts)") (simp_all del: strstr.simps)
qed simp

lemma strstr_segments_hit:
  assumes "clean key" and "clean s" and "\<forall>s \<in> set ss. clean s" and "key \<notin> set ss" and "ts \<noteq> []"
  shows "strstr (QUOTE # key @ [QUOTE]) (s @ segments (ss @ key # ts)) =
    Some (length s + length (segments ss))"
proof -
  have "strstr (QUOTE # key @ [QUOTE]) (segments (key # ts)) = Some 0"
    using assms by (subst strstr_segments_Cons) auto
  then have "strstr (QUOTE # key @ [QUOTE]) (segments (ss @ key # ts)) = Some (length (segments ss))"
    using assms by (subst strstr_segments_skip) (simp_all del: segments_simps)
  then show ?thesis
    using assms by (subst strstr_clean_skip) (simp_all del: segments_simps)
qed

lemma strstr_segments_miss:
  assumes "clean key" and "clean s" and "\<forall>s \<in> set ss. clean s" and "key \<notin> set (butlast ss)"
  shows "strstr (QUOTE # key @ [QUOTE]) (s @ segments ss) = None"
proof -
  have "strstr (QUOTE # key @ [QUOTE]) (segments ss) = None"
    using assms(3,4)
  proof (induction ss)
    case (Cons t ts)
    then show ?case
      using assms(1) by (subst strstr_segments_Cons) (auto split: if_splits)
  qed simp
  then show ?thesis using assms(2) by (simp add: strstr_clean_skip)
qed

end
