(* ===== verification/Wire_Registry.thy ===== *)
theory Wire_Registry
  imports Wire_Scan
begin

text \<open>
  The validator of the extension registry, \<open>tools/validate_extension_registry.c\<close>: its scanner, the
  checks on the range table, on the assignments and on the summary, and \<open>main\<close>. Each call of \<open>fail\<close>
  is a value of \<open>problem\<close> with the numbers and strings the message prints; the counter \<open>failures\<close> is the
  length of the list of problems. What \<open>main\<close> decides is in \<open>Wire_Registry_Spec\<close>.
\<close>

section \<open>Data\<close>

abbreviation MAX_RANGES :: nat where "MAX_RANGES \<equiv> 32"
abbreviation MAX_ASSIGNMENTS :: nat where "MAX_ASSIGNMENTS \<equiv> 256"
abbreviation MAX_STR :: nat where "MAX_STR \<equiv> 96"
abbreviation MCL_EXTENSION_ID_MAX :: int where "MCL_EXTENSION_ID_MAX \<equiv> 2147483647"

record range_t =
  range_first :: int
  range_last :: int
  range_policy :: string

record assignment_t =
  assignment_id :: int
  assignment_name :: string
  assignment_status :: string

datatype problem =
    No_ranges_table
  | Range_entry_incomplete
  | Range_table_empty
  | Range_backwards int int
  | Table_starts_at int
  | Ranges_overlap int int int int
  | Identifiers_without_policy int int
  | Table_ends_at int
  | Zero_in_range string
  | Assignment_without_name int
  | Assignment_without_status int
  | Assignment_without_specification int
  | Assignment_without_guidance int
  | Assignment_not_encodable int
  | Assignment_in_reserved_range int
  | Assignment_in_no_range int
  | Assigned_twice int
  | Summary_assigned int int
  | Summary_deprecated int int
  | Summary_total int nat

section \<open>The scanner\<close>

definition find_key :: "string \<Rightarrow> nat \<Rightarrow> string \<Rightarrow> nat option" where
  "find_key buf from key = strstr_from buf from (quoted_pattern MAX_STR key)"

text \<open>\<open>None\<close> is the return value 0, which leaves \<open>*out\<close> as it was.\<close>

definition read_long_after :: "string \<Rightarrow> nat \<Rightarrow> string \<Rightarrow> int option" where
  "read_long_after buf at key =
     (case find_key buf at key of
        None \<Rightarrow> None
      | Some k \<Rightarrow>
          (case strchr_from buf k (CHR '':'') of
             None \<Rightarrow> None
           | Some colon \<Rightarrow> Some (strtol (drop (colon + 1) buf))))"

definition read_string_after :: "string \<Rightarrow> nat \<Rightarrow> string \<Rightarrow> nat \<Rightarrow> string option" where
  "read_string_after buf at key cap =
     (case find_key buf at key of
        None \<Rightarrow> None
      | Some k \<Rightarrow>
          (case strchr_from buf k (CHR '':'') of
             None \<Rightarrow> None
           | Some colon \<Rightarrow>
               (case strchr_from buf colon QUOTE of
                  None \<Rightarrow> None
                | Some opening \<Rightarrow>
                    (case strchr_from buf (opening + 1) QUOTE of
                       None \<Rightarrow> None
                     | Some closing \<Rightarrow>
                         let len = closing - opening - 1;
                             len = (if len \<ge> cap then cap - 1 else len)
                         in Some (take len (drop (opening + 1) buf))))))"

text \<open>The loop over the brackets: the position of the one that closes the array.\<close>

fun closing_bracket :: "string \<Rightarrow> int \<Rightarrow> nat \<Rightarrow> nat option" where
  "closing_bracket [] depth p = None"
| "closing_bracket (c # cs) depth p =
     (if c = NUL then None
      else if c = CHR ''['' then closing_bracket cs (depth + 1) (p + 1)
      else if c = CHR '']'' then
        (if depth - 1 = 0 then Some p else closing_bracket cs (depth - 1) (p + 1))
      else closing_bracket cs depth (p + 1))"

definition array_span :: "string \<Rightarrow> nat \<Rightarrow> string \<Rightarrow> (nat \<times> nat) option" where
  "array_span buf at key =
     (case find_key buf at key of
        None \<Rightarrow> None
      | Some k \<Rightarrow>
          (case strchr_from buf k (CHR ''['') of
             None \<Rightarrow> None
           | Some p \<Rightarrow> map_option (\<lambda>q. (p, q)) (closing_bracket (drop p buf) 0 p)))"

definition compare_ranges :: "range_t \<Rightarrow> range_t \<Rightarrow> int" where
  "compare_ranges ra rb =
     (if range_first ra < range_first rb then -1
      else if range_first ra > range_first rb then 1 else 0)"

section \<open>Reading the range table\<close>

function scan_ranges ::
    "string \<Rightarrow> nat option \<Rightarrow> nat \<Rightarrow> range_t list \<Rightarrow> range_t list \<times> problem list" where
  "scan_ranges buf assignments_start cursor ranges =
     (if length ranges < MAX_RANGES then
        (case find_key buf cursor ''first'' of
           None \<Rightarrow> (ranges, [])
         | Some entry \<Rightarrow>
             if assignments_start \<noteq> None \<and> entry > the assignments_start then (ranges, [])
             else
               (case (read_long_after buf entry ''first'', read_long_after buf entry ''last'') of
                  (Some lo, Some hi) \<Rightarrow>
                    let policy = (case read_string_after buf entry ''policy'' MAX_STR of
                                    None \<Rightarrow> '''' | Some s \<Rightarrow> s)
                    in scan_ranges buf assignments_start (entry + 1)
                         (ranges @ [\<lparr>range_first = lo, range_last = hi, range_policy = policy\<rparr>])
                | _ \<Rightarrow> (ranges, [Range_entry_incomplete])))
      else (ranges, []))"
  by pat_completeness auto
termination
  by (relation "measure (\<lambda>(_, _, _, ranges). MAX_RANGES - length ranges)") auto

declare scan_ranges.simps [simp del]

section \<open>Checking the range table\<close>

text \<open>
  \<open>long\<close> arithmetic at the machine's width. In C the overflow of \<open>last + 1\<close> is undefined; it happens
  for \<open>last = LONG_MAX\<close> only, and is written here as the two's-complement wrap.
\<close>

definition wrap_long :: "int \<Rightarrow> int" where
  "wrap_long v = (v + 0x8000000000000000) mod 0x10000000000000000 - 0x8000000000000000"

definition check_backwards :: "range_t list \<Rightarrow> problem list" where
  "check_backwards ranges =
     concat (map (\<lambda>r. if range_last r < range_first r
                      then [Range_backwards (range_first r) (range_last r)] else []) ranges)"

definition check_neighbours :: "range_t \<Rightarrow> range_t \<Rightarrow> problem list" where
  "check_neighbours previous r =
     (if range_first r = wrap_long (range_last previous + 1) then []
      else if range_first r \<le> range_last previous
      then [Ranges_overlap (range_first previous) (range_last previous) (range_first r) (range_last r)]
      else [Identifiers_without_policy (wrap_long (range_last previous + 1)) (wrap_long (range_first r - 1))])"

definition check_partition :: "range_t list \<Rightarrow> problem list" where
  "check_partition ranges =
     (if ranges \<noteq> [] then
        (if range_first (ranges ! 0) \<noteq> 0 then [Table_starts_at (range_first (ranges ! 0))] else []) @
        concat (map (\<lambda>i. check_neighbours (ranges ! (i - 1)) (ranges ! i)) [1..<length ranges]) @
        (if range_last (ranges ! (length ranges - 1)) \<noteq> MCL_EXTENSION_ID_MAX
         then [Table_ends_at (range_last (ranges ! (length ranges - 1)))] else [])
      else [])"

definition check_zero_reserved :: "range_t list \<Rightarrow> problem list" where
  "check_zero_reserved ranges =
     concat (map (\<lambda>r. if range_first r \<le> 0 \<and> range_last r \<ge> 0 \<and> range_policy r \<noteq> ''Reserved''
                      then [Zero_in_range (range_policy r)] else []) ranges)"

definition check_table :: "range_t list \<Rightarrow> problem list" where
  "check_table ranges = check_backwards ranges @ check_partition ranges @ check_zero_reserved ranges"

section \<open>Reading the assignments\<close>

function scan_assignments ::
    "string \<Rightarrow> nat \<Rightarrow> nat \<Rightarrow> assignment_t list \<Rightarrow> problem list \<Rightarrow> assignment_t list \<times> problem list"
  where
  "scan_assignments buf assignments_end cursor assignments problems =
     (if length assignments < MAX_ASSIGNMENTS then
        (case find_key buf cursor ''id'' of
           None \<Rightarrow> (assignments, problems)
         | Some entry \<Rightarrow>
             if entry > assignments_end then (assignments, problems)
             else
               (case read_long_after buf entry ''id'' of
                  None \<Rightarrow> (assignments, problems)
                | Some n \<Rightarrow>
                    let name = read_string_after buf entry ''name'' MAX_STR;
                        status = read_string_after buf entry ''status'' MAX_STR;
                        assignment = \<lparr>assignment_id = n,
                                      assignment_name = (case name of None \<Rightarrow> '''' | Some s \<Rightarrow> s),
                                      assignment_status = (case status of None \<Rightarrow> '''' | Some s \<Rightarrow> s)\<rparr>;
                        found =
                          (if name = None then [Assignment_without_name n] else []) @
                          (if status = None then [Assignment_without_status n] else []) @
                          (if find_key buf entry ''specification'' = None
                           then [Assignment_without_specification n] else []) @
                          (if find_key buf entry ''criticality_guidance'' = None
                           then [Assignment_without_guidance n] else [])
                    in scan_assignments buf assignments_end (entry + 1)
                         (assignments @ [assignment]) (problems @ found)))
      else (assignments, problems))"
  by pat_completeness auto
termination
  by (relation "measure (\<lambda>(_, _, _, assignments, _). MAX_ASSIGNMENTS - length assignments)") auto

declare scan_assignments.simps [simp del]

definition read_assignments :: "string \<Rightarrow> assignment_t list \<times> problem list" where
  "read_assignments buf =
     (case array_span buf 0 ''assignments'' of
        None \<Rightarrow> ([], [])
      | Some (assignments_begin, assignments_end) \<Rightarrow>
          scan_assignments buf assignments_end assignments_begin [] [])"

section \<open>Checking the assignments\<close>

text \<open>The inner loop over the ranges stops at the first range that holds the id.\<close>

definition check_range_of :: "range_t list \<Rightarrow> assignment_t \<Rightarrow> problem list" where
  "check_range_of ranges a =
     (case List.find (\<lambda>r. assignment_id a \<ge> range_first r \<and> assignment_id a \<le> range_last r) ranges of
        None \<Rightarrow> [Assignment_in_no_range (assignment_id a)]
      | Some r \<Rightarrow> if range_policy r = ''Reserved''
                 then [Assignment_in_reserved_range (assignment_id a)] else [])"

definition check_assignment :: "range_t list \<Rightarrow> assignment_t list \<Rightarrow> nat \<Rightarrow> problem list" where
  "check_assignment ranges assignments i =
     (let a = assignments ! i in
      (if assignment_id a \<le> 0 \<or> assignment_id a > MCL_EXTENSION_ID_MAX
       then [Assignment_not_encodable (assignment_id a)] else []) @
      check_range_of ranges a @
      concat (map (\<lambda>j. if assignment_id a = assignment_id (assignments ! j)
                       then [Assigned_twice (assignment_id a)] else []) [i + 1..<length assignments]))"

definition count_deprecated :: "assignment_t list \<Rightarrow> int" where
  "count_deprecated assignments =
     int (length (filter (\<lambda>a. assignment_status a = ''deprecated'') assignments))"

definition count_assigned :: "assignment_t list \<Rightarrow> int" where
  "count_assigned assignments =
     int (length (filter (\<lambda>a. assignment_status a \<noteq> ''deprecated'') assignments))"

definition declared :: "string \<Rightarrow> string \<Rightarrow> int" where
  "declared buf key = (case read_long_after buf 0 key of None \<Rightarrow> 0 | Some v \<Rightarrow> v)"

definition check_summary :: "string \<Rightarrow> assignment_t list \<Rightarrow> problem list" where
  "check_summary buf assignments =
     (let declared_assigned = declared buf ''assigned'';
          declared_deprecated = declared buf ''deprecated'';
          declared_total = declared buf ''total''
      in (if declared_assigned \<noteq> count_assigned assignments
          then [Summary_assigned declared_assigned (count_assigned assignments)] else []) @
         (if declared_deprecated \<noteq> count_deprecated assignments
          then [Summary_deprecated declared_deprecated (count_deprecated assignments)] else []) @
         (if declared_total \<noteq> int (length assignments)
          then [Summary_total declared_total (length assignments)] else []))"

section \<open>The program\<close>

text \<open>
  \<open>qsort\<close> is a parameter: the order in which it leaves elements that compare equal is not specified.
  \<open>fread\<close> stores at most \<open>MAX_FILE_SIZE - 1\<close> bytes. The result is the exit code and the problems.
\<close>

type_synonym range_sort = "(range_t \<Rightarrow> range_t \<Rightarrow> int) \<Rightarrow> range_t list \<Rightarrow> range_t list"

definition check_registry :: "range_sort \<Rightarrow> string \<Rightarrow> int \<times> problem list" where
  "check_registry qsort buf =
     (case find_key buf 0 ''ranges'' of
        None \<Rightarrow> (1, [No_ranges_table])
      | Some ranges_start \<Rightarrow>
          (case scan_ranges buf (find_key buf ranges_start ''assignments'') ranges_start [] of
             (ranges, range_problems) \<Rightarrow>
               let empty = (if ranges = [] then [Range_table_empty] else []);
                   ranges = qsort compare_ranges ranges;
                   (assignments, entry_problems) = read_assignments buf;
                   assignment_problems =
                     concat (map (check_assignment ranges assignments) [0..<length assignments]);
                   problems = range_problems @ empty @ check_table ranges @ entry_problems @
                              assignment_problems @ check_summary buf assignments
               in (if problems \<noteq> [] then 1 else 0, problems)))"

definition registry_main :: "range_sort \<Rightarrow> (string \<Rightarrow> string option) \<Rightarrow> string list \<Rightarrow> int \<times> problem list" where
  "registry_main qsort fopen argv =
     (if length argv < 2 then (2, [])
      else case fopen (argv ! 1) of
        None \<Rightarrow> (2, [])
      | Some file \<Rightarrow> check_registry qsort (take (MAX_FILE_SIZE - 1) file))"

end
