(* ===== verification/Wire_Registry_Spec.thy ===== *)
theory Wire_Registry_Spec
  imports Wire_Registry "HOL-Library.Multiset"
begin

text \<open>
  What the registry validator decides. The range table passes if and only if its ranges partition the
  identifiers \<open>0..2\<^sup>3\<^sup>1-1\<close> and 0 is reserved, in whatever order \<open>qsort\<close> leaves ranges with the same start;
  the assignments and the summary pass if and only if they are consistent with the table.
\<close>

section \<open>What a consistent registry is\<close>

definition covers :: "range_t \<Rightarrow> int \<Rightarrow> bool" where
  "covers r n \<longleftrightarrow> range_first r \<le> n \<and> n \<le> range_last r"

definition cover_count :: "range_t list \<Rightarrow> int \<Rightarrow> nat" where
  "cover_count ranges n = length (filter (\<lambda>r. covers r n) ranges)"

text \<open>Every identifier has one range, nothing else has a range, and no range is empty.\<close>

definition partitions_ids :: "range_t list \<Rightarrow> bool" where
  "partitions_ids ranges \<longleftrightarrow>
     (\<forall>r \<in> set ranges. range_first r \<le> range_last r) \<and>
     (\<forall>n. cover_count ranges n = (if 0 \<le> n \<and> n \<le> MCL_EXTENSION_ID_MAX then 1 else 0))"

definition zero_reserved :: "range_t list \<Rightarrow> bool" where
  "zero_reserved ranges \<longleftrightarrow> (\<forall>r \<in> set ranges. covers r 0 \<longrightarrow> range_policy r = ''Reserved'')"

definition assignable :: "range_t list \<Rightarrow> int \<Rightarrow> bool" where
  "assignable ranges n \<longleftrightarrow> (\<exists>r \<in> set ranges. covers r n \<and> range_policy r \<noteq> ''Reserved'')"

definition registry_consistent :: "range_t list \<Rightarrow> assignment_t list \<Rightarrow> int \<Rightarrow> int \<Rightarrow> int \<Rightarrow> bool" where
  "registry_consistent ranges assignments assigned deprecated declared_total \<longleftrightarrow>
     partitions_ids ranges \<and> zero_reserved ranges \<and>
     (\<forall>a \<in> set assignments. assignable ranges (assignment_id a)) \<and>
     distinct (map assignment_id assignments) \<and>
     assigned = count_assigned assignments \<and> deprecated = count_deprecated assignments \<and>
     declared_total = int (length assignments)"

text \<open>What C promises of \<open>qsort\<close> with \<open>compare_ranges\<close>.\<close>

definition qsort_contract :: "range_sort \<Rightarrow> bool" where
  "qsort_contract qsort \<longleftrightarrow>
     (\<forall>rs. mset (qsort compare_ranges rs) = mset rs \<and>
           sorted_wrt (\<lambda>a b. compare_ranges a b \<le> 0) (qsort compare_ranges rs))"

definition long_range :: "range_t \<Rightarrow> bool" where
  "long_range r \<longleftrightarrow>
     LONG_MIN \<le> range_first r \<and> range_first r \<le> LONG_MAX \<and>
     LONG_MIN \<le> range_last r \<and> range_last r \<le> LONG_MAX"

section \<open>The range table\<close>

lemma concat_map_Nil [simp]: "concat (map f xs) = [] \<longleftrightarrow> (\<forall>x \<in> set xs. f x = [])"
  by (simp add: concat_eq_Nil_conv)

lemma cover_count_simps [simp]:
  "cover_count [] n = 0"
  "cover_count (r # rs) n = (if covers r n then 1 else 0) + cover_count rs n"
  by (simp_all add: cover_count_def)

lemma cover_count_mset: "mset rs = mset ss \<Longrightarrow> cover_count rs n = cover_count ss n"
  unfolding cover_count_def by (metis mset_filter size_mset)

lemma cover_count_pos: "r \<in> set rs \<Longrightarrow> covers r n \<Longrightarrow> 0 < cover_count rs n"
  by (auto simp: cover_count_def filter_empty_conv)

lemma cover_count_0: "cover_count rs n = 0 \<longleftrightarrow> (\<forall>r \<in> set rs. \<not> covers r n)"
  by (auto simp: cover_count_def filter_empty_conv)

lemma cover_unique:
  "cover_count rs n = 1 \<Longrightarrow> r \<in> set rs \<Longrightarrow> covers r n \<Longrightarrow> s \<in> set rs \<Longrightarrow> covers s n \<Longrightarrow> r = s"
  by (induction rs) (auto simp: cover_count_0 split: if_splits)

fun chained :: "range_t list \<Rightarrow> bool" where
  "chained (p # r # rs) \<longleftrightarrow> range_first r = range_last p + 1 \<and> chained (r # rs)"
| "chained _ \<longleftrightarrow> True"

abbreviation proper :: "range_t list \<Rightarrow> bool" where
  "proper rs \<equiv> \<forall>r \<in> set rs. range_first r \<le> range_last r"

lemma chained_covers:
  "chained (r # rs) \<Longrightarrow> proper (r # rs) \<Longrightarrow>
     cover_count (r # rs) n = (if range_first r \<le> n \<and> n \<le> range_last (last (r # rs)) then 1 else 0)
     \<and> range_last r \<le> range_last (last (r # rs))"
proof (induction rs arbitrary: r)
  case (Cons s rs)
  then have next_s: "range_first s = range_last r + 1" "range_first s \<le> range_last s"
    and r: "range_first r \<le> range_last r"
    by simp_all
  have "cover_count (s # rs) n = (if range_first s \<le> n \<and> n \<le> range_last (last (s # rs)) then 1 else 0)
     \<and> range_last s \<le> range_last (last (s # rs))"
    using Cons.prems by (intro Cons.IH) simp_all
  with next_s r show ?case
    by (simp add: covers_def del: cover_count_simps add: cover_count_simps(2) [of r])
qed (simp add: covers_def)

lemma covers_chained:
  assumes "sorted_wrt (\<lambda>p q. range_first p \<le> range_first q) (r # rs)" and "proper (r # rs)"
    and "\<And>n. cover_count (r # rs) n = (if a \<le> n \<and> n \<le> m then 1 else 0)" and "a \<le> m"
  shows "range_first r = a \<and> chained (r # rs) \<and> range_last (last (r # rs)) = m"
  using assms
proof (induction rs arbitrary: r a)
  case Nil
  have "covers r n \<longleftrightarrow> a \<le> n \<and> n \<le> m" for n
    using Nil.prems(3) [of n] by (simp split: if_splits)
  then have "range_first r \<le> n \<and> n \<le> range_last r \<longleftrightarrow> a \<le> n \<and> n \<le> m" for n
    by (simp add: covers_def)
  from this [of a] this [of m] this [of "range_first r"] this [of "range_last r"]
  show ?case using Nil.prems(2,4) by simp
next
  case (Cons s rs)
  note sorted = Cons.prems(1) and proper = Cons.prems(2) and count = Cons.prems(3)
  have first_r: "range_first r = a"
  proof (rule antisym)
    have "cover_count (r # s # rs) a \<noteq> 0" using count [of a] Cons.prems(4) by simp
    then obtain q where "q \<in> set (r # s # rs)" "covers q a" by (auto simp only: cover_count_0)
    moreover have "range_first r \<le> range_first q" using sorted calculation(1) by auto
    ultimately show "range_first r \<le> a" by (simp add: covers_def)
    have "0 < cover_count (r # s # rs) (range_first r)"
      using proper by (intro cover_count_pos [of r]) (auto simp: covers_def)
    then show "a \<le> range_first r" using count [of "range_first r"] by (simp split: if_splits)
  qed
  have covers_r: "covers r n \<longleftrightarrow> a \<le> n \<and> n \<le> range_last r" for n by (simp add: covers_def first_r)
  have within: "covers r n \<Longrightarrow> n \<le> m" for n
    using count [of n] by (simp split: if_splits)
  have last_r: "range_last r \<le> m" using within [of "range_last r"] proper covers_r first_r by simp
  have rest: "cover_count (s # rs) n = (if range_last r + 1 \<le> n \<and> n \<le> m then 1 else 0)" for n
    using count [of n] covers_r [of n] last_r proper first_r
    by (cases "covers r n") (auto simp del: cover_count_simps(2) simp: cover_count_simps(2) [of r] split: if_splits)
  have "0 < cover_count (s # rs) (range_first s)"
    using proper by (intro cover_count_pos [of s]) (auto simp: covers_def)
  then have "range_last r + 1 \<le> m" using rest [of "range_first s"] by (simp split: if_splits)
  with Cons.IH [OF _ _ rest] sorted proper first_r show ?case by simp
qed

lemma wrap_long_id: "LONG_MIN \<le> v \<Longrightarrow> v \<le> LONG_MAX \<Longrightarrow> wrap_long v = v"
  by (simp add: wrap_long_def)

lemma wrap_long_top: "wrap_long (LONG_MAX + 1) = LONG_MIN"
  by (simp add: wrap_long_def)

lemma check_neighbours_OK:
  assumes "long_range p" and "long_range r" and "0 \<le> range_first r"
  shows "check_neighbours p r = [] \<longleftrightarrow> range_first r = range_last p + 1"
proof (cases "range_last p = LONG_MAX")
  case True
  with assms wrap_long_top show ?thesis
    by (auto simp: check_neighbours_def long_range_def)
qed (use assms in \<open>auto simp: check_neighbours_def long_range_def wrap_long_id\<close>)

lemma neighbours_chained:
  "\<forall>r \<in> set rs. long_range r \<and> 0 \<le> range_first r \<Longrightarrow>
     (\<forall>i \<in> {1..<length rs}. check_neighbours (rs ! (i - 1)) (rs ! i) = []) \<longleftrightarrow> chained rs"
proof (induction rs rule: chained.induct)
  case (1 p r rs)
  have split: "(\<forall>i \<in> {1..<length (p # r # rs)}. P i) \<longleftrightarrow> P 1 \<and> (\<forall>i \<in> {1..<length (r # rs)}. P (Suc i))" for P
  proof -
    have "{1..<length (p # r # rs)} = insert 1 (Suc ` {1..<length (r # rs)})"
      by (auto simp: image_iff)
    then show ?thesis by (simp del: image_Suc_atLeastLessThan)
  qed
  have "(\<forall>i \<in> {1..<length (r # rs)}. check_neighbours ((p # r # rs) ! (Suc i - 1)) ((p # r # rs) ! Suc i) = [])
    \<longleftrightarrow> (\<forall>i \<in> {1..<length (r # rs)}. check_neighbours ((r # rs) ! (i - 1)) ((r # rs) ! i) = [])"
    by (intro ball_cong refl) (simp add: nth_Cons')
  with 1 show ?case by (simp only: split) (simp add: check_neighbours_OK)
qed auto

lemma check_backwards_OK: "check_backwards rs = [] \<longleftrightarrow> proper rs"
  unfolding check_backwards_def concat_map_Nil by (auto split: if_splits)

lemma check_zero_OK: "check_zero_reserved rs = [] \<longleftrightarrow> zero_reserved rs"
  unfolding check_zero_reserved_def zero_reserved_def covers_def concat_map_Nil by (auto split: if_splits)

lemma check_partition_OK:
  assumes "sorted_wrt (\<lambda>p q. range_first p \<le> range_first q) rs" and "\<forall>r \<in> set rs. long_range r"
    and "rs \<noteq> []" and "proper rs"
  shows "check_partition rs = [] \<longleftrightarrow> partitions_ids rs"
proof -
  obtain r rs' where rs: "rs = r # rs'" using assms(3) by (cases rs) simp_all
  have ends: "rs ! 0 = r" "rs ! (length rs - 1) = last rs"
    using rs by (simp_all add: last_conv_nth)
  have nonneg: "\<forall>q \<in> set rs. long_range q \<and> 0 \<le> range_first q" if "range_first r = 0"
    using assms(1,2) that rs by auto
  have "check_partition rs = [] \<longleftrightarrow>
      range_first r = 0 \<and> chained rs \<and> range_last (last rs) = MCL_EXTENSION_ID_MAX"
    using assms(3) neighbours_chained [OF nonneg]
    unfolding check_partition_def ends concat_map_Nil set_upt append_is_Nil_conv by auto
  also have "\<dots> \<longleftrightarrow> partitions_ids rs"
  proof
    assume "range_first r = 0 \<and> chained rs \<and> range_last (last rs) = MCL_EXTENSION_ID_MAX"
    then show "partitions_ids rs"
      using chained_covers [of r rs'] assms(4) unfolding partitions_ids_def rs by metis
  next
    assume "partitions_ids rs"
    then show "range_first r = 0 \<and> chained rs \<and> range_last (last rs) = MCL_EXTENSION_ID_MAX"
      using covers_chained [of r rs' 0 MCL_EXTENSION_ID_MAX] assms(1,4) unfolding partitions_ids_def rs
      by simp
  qed
  finally show ?thesis .
qed

lemma partition_nonempty: "partitions_ids rs \<Longrightarrow> rs \<noteq> []"
  by (auto simp: partitions_ids_def dest: spec [of _ 0])

lemma partitions_ids_mset: "mset rs = mset ss \<Longrightarrow> partitions_ids rs \<longleftrightarrow> partitions_ids ss"
  by (simp add: partitions_ids_def cover_count_mset [of rs ss] mset_eq_setD [of rs ss])

lemma sorted_by_compare:
  "sorted_wrt (\<lambda>a b. compare_ranges a b \<le> 0) rs \<longleftrightarrow>
     sorted_wrt (\<lambda>p q. range_first p \<le> range_first q) rs"
proof -
  have "(\<lambda>a b. compare_ranges a b \<le> 0) = (\<lambda>p q. range_first p \<le> range_first q)"
    by (auto simp: compare_ranges_def fun_eq_iff)
  then show ?thesis by simp
qed

lemma check_table_OK:
  assumes "qsort_contract qsort" and "\<forall>r \<in> set rs. long_range r" and "rs \<noteq> []"
  shows "check_table (qsort compare_ranges rs) = [] \<longleftrightarrow> partitions_ids rs \<and> zero_reserved rs"
proof -
  let ?s = "qsort compare_ranges rs"
  have perm: "mset ?s = mset rs"
    using assms(1) by (simp add: qsort_contract_def)
  then have same: "set ?s = set rs" by (rule mset_eq_setD)
  have sorted: "sorted_wrt (\<lambda>p q. range_first p \<le> range_first q) ?s"
    using assms(1) by (simp add: qsort_contract_def flip: sorted_by_compare)
  have "check_partition ?s = [] \<longleftrightarrow> partitions_ids rs" if "proper rs"
    using check_partition_OK [OF sorted] assms(2,3) that perm same
    by (metis partitions_ids_mset set_empty)
  moreover have "partitions_ids rs \<Longrightarrow> proper rs" by (simp add: partitions_ids_def)
  ultimately show ?thesis
    by (auto simp: check_table_def check_backwards_OK check_zero_OK zero_reserved_def same)
qed

lemma scan_ranges_step:
  assumes "length acc < MAX_RANGES" and "find_key buf cursor ''first'' = Some entry"
    and "stop = None \<or> entry \<le> the stop"
    and "read_long_after buf entry ''first'' = Some (range_first r)"
    and "read_long_after buf entry ''last'' = Some (range_last r)"
    and "range_policy r = (case read_string_after buf entry ''policy'' MAX_STR of None \<Rightarrow> [] | Some s \<Rightarrow> s)"
  shows "scan_ranges buf stop cursor acc = scan_ranges buf stop (entry + 1) (acc @ [r])"
  using assms by (subst scan_ranges.simps) (cases r; auto)

lemma scan_ranges_long:
  "\<forall>r \<in> set acc. long_range r \<Longrightarrow> \<forall>r \<in> set (fst (scan_ranges buf stop cursor acc)). long_range r"
proof (induction buf stop cursor acc rule: scan_ranges.induct)
  case (1 buf stop cursor acc)
  have long: "read_long_after b p k = Some v \<Longrightarrow> LONG_MIN \<le> v \<and> v \<le> LONG_MAX" for b p k v
    by (auto simp: read_long_after_def strtol_def Let_def split: option.splits prod.splits if_splits)
  let ?go = "length acc < MAX_RANGES \<and> find_key buf cursor ''first'' \<noteq> None \<and>
    \<not> (stop \<noteq> None \<and> the (find_key buf cursor ''first'') > the stop) \<and>
    read_long_after buf (the (find_key buf cursor ''first'')) ''first'' \<noteq> None \<and>
    read_long_after buf (the (find_key buf cursor ''first'')) ''last'' \<noteq> None"
  show ?case
  proof (cases ?go)
    case False
    then have "fst (scan_ranges buf stop cursor acc) = acc"
      by (subst scan_ranges.simps) (auto split: option.split)
    with "1.prems" show ?thesis by simp
  next
    case True
    then obtain entry lo hi where e: "find_key buf cursor ''first'' = Some entry"
        "read_long_after buf entry ''first'' = Some lo" "read_long_after buf entry ''last'' = Some hi"
      by auto
    then have "stop = None \<or> entry \<le> the stop" using True by auto
    note step = scan_ranges_step [OF _ e(1) this, of acc "\<lparr>range_first = lo, range_last = hi, range_policy =
      (case read_string_after buf entry ''policy'' MAX_STR of None \<Rightarrow> [] | Some s \<Rightarrow> s)\<rparr>"]
    show ?thesis
      using "1.IH" [OF _ e(1) _ refl e(2,3) refl] "1.prems" True e(1) step long [OF e(2)] long [OF e(3)] e(2,3)
      by (simp add: long_range_def)
  qed
qed

section \<open>The assignments\<close>

lemma assignable_in_partition:
  assumes "partitions_ids rs" and "zero_reserved rs" and "assignable rs n"
  shows "0 < n \<and> n \<le> MCL_EXTENSION_ID_MAX"
proof -
  obtain r where r: "r \<in> set rs" "covers r n" "range_policy r \<noteq> ''Reserved''"
    using assms(3) by (auto simp: assignable_def)
  then have "0 < cover_count rs n" by (intro cover_count_pos)
  then have "0 \<le> n \<and> n \<le> MCL_EXTENSION_ID_MAX"
    using assms(1) by (simp add: partitions_ids_def split: if_splits)
  moreover have "n \<noteq> 0" using r assms(2) by (auto simp: zero_reserved_def)
  ultimately show ?thesis by simp
qed

lemma check_range_of_OK:
  assumes "partitions_ids rs" and "mset ss = mset rs"
  shows "check_range_of ss a = [] \<longleftrightarrow> assignable rs (assignment_id a)"
proof (cases "List.find (\<lambda>r. assignment_id a \<ge> range_first r \<and> assignment_id a \<le> range_last r) ss")
  case None
  then have "\<not> assignable rs (assignment_id a)"
    using mset_eq_setD [OF assms(2)] by (auto simp: find_None_iff assignable_def covers_def)
  with None show ?thesis by (simp add: check_range_of_def)
next
  case (Some r)
  then have r: "r \<in> set rs" "covers r (assignment_id a)"
    using mset_eq_setD [OF assms(2)] by (auto simp: find_Some_iff covers_def)
  then have "cover_count rs (assignment_id a) = 1"
    using cover_count_pos [OF r] assms(1) by (simp add: partitions_ids_def split: if_splits)
  then have "s = r" if "s \<in> set rs" "covers s (assignment_id a)" for s
    using cover_unique r that by blast
  then have "assignable rs (assignment_id a) \<longleftrightarrow> range_policy r \<noteq> ''Reserved''"
    using r unfolding assignable_def by blast
  with Some show ?thesis by (simp add: check_range_of_def)
qed

lemma assigned_once:
  "(\<forall>i < length as. \<forall>j \<in> {i + 1..<length as}. assignment_id (as ! i) \<noteq> assignment_id (as ! j)) \<longleftrightarrow>
     distinct (map assignment_id as)"
  (is "?l \<longleftrightarrow> ?r")
proof
  assume l: ?l
  have "assignment_id (as ! i) \<noteq> assignment_id (as ! j)" if "i < length as" "j < length as" "i \<noteq> j" for i j
    using l [rule_format, of i j] l [rule_format, of j i] that by (cases "i < j") auto
  then show ?r by (simp add: distinct_conv_nth)
qed (simp add: distinct_conv_nth)

lemma check_assignments_OK:
  assumes "partitions_ids rs" and "zero_reserved rs" and "mset ss = mset rs"
  shows "(\<forall>i < length as. check_assignment ss as i = []) \<longleftrightarrow>
    (\<forall>a \<in> set as. assignable rs (assignment_id a)) \<and> distinct (map assignment_id as)"
proof -
  have "check_assignment ss as i = [] \<longleftrightarrow>
      assignable rs (assignment_id (as ! i)) \<and>
      (\<forall>j \<in> {i + 1..<length as}. assignment_id (as ! i) \<noteq> assignment_id (as ! j))" for i
    using assignable_in_partition [OF assms(1,2), of "assignment_id (as ! i)"]
    unfolding check_assignment_def Let_def append_is_Nil_conv concat_map_Nil set_upt
      check_range_of_OK [OF assms(1,3)]
    by auto
  then show ?thesis
    by (auto simp: all_set_conv_all_nth simp flip: assigned_once)
qed

section \<open>The verdict\<close>

lemma check_summary_OK:
  "check_summary buf as = [] \<longleftrightarrow>
     declared buf ''assigned'' = count_assigned as \<and>
     declared buf ''deprecated'' = count_deprecated as \<and> declared buf ''total'' = int (length as)"
  by (simp add: check_summary_def Let_def)

lemma check_registry_code:
  "fst (check_registry qsort buf) = (if snd (check_registry qsort buf) = [] then 0 else 1)"
  by (auto simp: check_registry_def Let_def split: option.split prod.split)

lemma check_registry_OK:
  assumes "qsort_contract qsort"
    and "find_key buf 0 ''ranges'' = Some start"
    and "scan_ranges buf (find_key buf start ''assignments'') start [] = (ranges, range_problems)"
    and "read_assignments buf = (assignments, entry_problems)"
  shows "snd (check_registry qsort buf) = [] \<longleftrightarrow>
    range_problems = [] \<and> entry_problems = [] \<and>
    registry_consistent ranges assignments (declared buf ''assigned'') (declared buf ''deprecated'')
      (declared buf ''total'')"
proof (cases "ranges = []")
  case True
  with assms(2-4) show ?thesis
    using partition_nonempty by (auto simp: check_registry_def Let_def registry_consistent_def)
next
  case False
  let ?s = "qsort compare_ranges ranges"
  have perm: "mset ?s = mset ranges" using assms(1) by (simp add: qsort_contract_def)
  have "\<forall>r \<in> set ranges. long_range r"
    using scan_ranges_long [of "[]" buf "find_key buf start ''assignments''" start] assms(3) by simp
  then have table: "check_table ?s = [] \<longleftrightarrow> partitions_ids ranges \<and> zero_reserved ranges"
    by (rule check_table_OK [OF assms(1) _ False])
  have "snd (check_registry qsort buf) = [] \<longleftrightarrow>
      range_problems = [] \<and> check_table ?s = [] \<and> entry_problems = [] \<and>
      (\<forall>i < length assignments. check_assignment ?s assignments i = []) \<and>
      check_summary buf assignments = []"
    using assms(2-4) False by (auto simp: check_registry_def Let_def)
  then show ?thesis
    using check_assignments_OK [OF _ _ perm, of assignments]
    unfolding table registry_consistent_def check_summary_OK by blast
qed

end
