(* ===== verification/Wire_Registry_Document.thy ===== *)
theory Wire_Registry_Document
  imports Wire_Registry_Spec
begin

text \<open>
  The registry validator on documents of the published layout: what its scanner reads from them is what
  they state, so that the exit code decides whether the registry is consistent.
\<close>

section \<open>Texts at positions\<close>

definition text_at :: "string \<Rightarrow> nat \<Rightarrow> string \<Rightarrow> bool" where
  "text_at buf p t \<longleftrightarrow> (\<exists>u. buf = u @ t \<and> length u = p)"

lemma text_at_0: "text_at buf 0 buf"
  by (simp add: text_at_def)

lemma text_at_drop: "text_at buf p t \<Longrightarrow> drop p buf = t"
  by (auto simp: text_at_def)

lemma text_at_step: "text_at buf p (s @ t) \<Longrightarrow> text_at buf (p + length s) t"
  unfolding text_at_def by (metis append_assoc length_append)

lemma text_at_next: "text_at buf p (c # t) \<Longrightarrow> text_at buf (p + 1) t"
  using text_at_step [of buf p "[c]" t] by simp

lemma text_at_diff: "text_at buf p (s @ t) \<Longrightarrow> text_at buf q t \<Longrightarrow> q = p + length s"
  by (auto simp: text_at_def dest!: arg_cong [where f = length])

lemma find_key_hit:
  assumes "text_at buf p (s @ segments (ss @ key # t # ts))"
    and "clean s" and "\<forall>x \<in> set ss. clean x" and "clean key" and "length key \<le> 93" and "key \<notin> set ss"
  shows "\<exists>k. find_key buf p key = Some k \<and> p \<le> k \<and> text_at buf k (segments (key # t # ts))"
proof -
  have pattern: "quoted_pattern MAX_STR key = QUOTE # key @ [QUOTE]"
    using assms(5) by (simp add: quoted_pattern_def)
  have "find_key buf p key = Some (p + (length s + length (segments ss)))"
    using text_at_drop [OF assms(1)] strstr_segments_hit [of key s ss "t # ts"] assms(2-4,6)
    by (simp add: find_key_def strstr_from_def pattern del: segments_simps)
  moreover have "text_at buf (p + length (s @ segments ss)) (segments (key # t # ts))"
    using assms(1) by (intro text_at_step) simp
  ultimately show ?thesis by simp
qed

lemma find_key_present:
  assumes "text_at buf p (s @ segments (ss @ t # ts))"
    and "clean s" and "\<forall>x \<in> set ss. clean x" and "key \<in> set ss" and "length key \<le> 93"
  shows "find_key buf p key \<noteq> None"
proof -
  obtain us vs where ss: "ss = us @ key # vs" "key \<notin> set us"
    using split_list_first [OF assms(4)] by blast
  obtain v ws where "vs @ t # ts = v # ws" by (cases vs) auto
  with assms find_key_hit [of buf p s us key v ws] ss show ?thesis by auto
qed

text \<open>A key that is not in the segments before \<open>t\<close> is found behind \<open>q\<close>, the start of \<open>t\<close>, or not at all.\<close>

lemma find_key_later:
  assumes "text_at buf p (s @ segments (ss @ ts))" and "clean s" and "\<forall>x \<in> set ss. clean x"
    and "clean key" and "length key \<le> 93" and "key \<notin> set ss" and "find_key buf p key = Some k"
  shows "p + length (s @ segments ss) \<le> k"
proof -
  have pattern: "quoted_pattern MAX_STR key = QUOTE # key @ [QUOTE]"
    using assms(5) by (simp add: quoted_pattern_def)
  have "strstr (QUOTE # key @ [QUOTE]) (s @ segments (ss @ ts)) =
      map_option ((+) (length s + length (segments ss))) (strstr (QUOTE # key @ [QUOTE]) (segments ts))"
    unfolding strstr_clean_skip [OF assms(2)] strstr_segments_skip [OF assms(4,3,6)] shift_shift ..
  then show ?thesis
    using text_at_drop [OF assms(1)] assms(7)
    by (auto simp add: find_key_def strstr_from_def pattern simp del: segments_simps)
qed

lemma strchr_at:
  assumes "text_at buf p (xs @ c # ys)" and "c \<notin> set xs" and "NUL \<notin> set xs"
  shows "strchr_from buf p c = Some (p + length xs)" "text_at buf (p + length xs) (c # ys)"
    "text_at buf (p + length xs + 1) ys"
  using assms(2,3) strchr_from_hit(1) [OF text_at_drop [OF assms(1)]] text_at_step [OF assms(1)]
    text_at_next [of buf "p + length xs" c ys]
  by auto

definition colon_free :: "string \<Rightarrow> bool" where
  "colon_free s \<longleftrightarrow> CHR '':'' \<notin> set s"

lemma key_colon:
  assumes "text_at buf k (segments (key # (CHR '':'' # t) # ts))" and "clean key" and "colon_free key"
  shows "\<exists>c. strchr_from buf k (CHR '':'') = Some c \<and> text_at buf c (CHR '':'' # t @ segments ts) \<and>
    text_at buf (c + 1) (t @ segments ts)"
  using strchr_at [of buf k "QUOTE # key @ [QUOTE]" "CHR '':''" "t @ segments ts"] assms
  by (auto simp: clean_def colon_free_def)

lemma read_long_hit:
  assumes "text_at buf p (s @ segments (ss @ key # (CHR '':'' # CHR 0x20 # decimal_int v @ y) # ts))"
    and "clean s" and "\<forall>x \<in> set ss. clean x" and "clean key" and "length key \<le> 93" and "key \<notin> set ss"
    and "colon_free key" and "LONG_MIN \<le> v" and "v \<le> LONG_MAX" and "y = [] \<or> \<not> is_digit (hd y)"
  shows "read_long_after buf p key = Some v"
proof -
  obtain k where k: "find_key buf p key = Some k"
      "text_at buf k (segments (key # (CHR '':'' # CHR 0x20 # decimal_int v @ y) # ts))"
    using find_key_hit [OF assms(1-6)] by blast
  obtain c where c: "strchr_from buf k (CHR '':'') = Some c"
      "text_at buf (c + 1) ((CHR 0x20 # decimal_int v @ y) @ segments ts)"
    using key_colon [OF k(2) assms(4,7)] by blast
  have "y @ segments ts = [] \<or> \<not> is_digit (hd (y @ segments ts))"
    using assms(10) by (cases y; cases ts) (auto simp: is_digit_def)
  then have "strtol ((CHR 0x20 # decimal_int v @ y) @ segments ts) = v"
    using strtol_decimal [OF assms(8,9), of "y @ segments ts"] by simp
  then show ?thesis using k(1) c by (simp add: read_long_after_def text_at_drop)
qed

lemma read_string_hit:
  assumes "text_at buf p (s @ segments (ss @ key # '': '' # val # t # ts))"
    and "clean s" and "\<forall>x \<in> set ss. clean x" and "clean key" and "length key \<le> 93" and "key \<notin> set ss"
    and "colon_free key" and "clean val" and "length val < cap"
  shows "read_string_after buf p key cap = Some val"
proof -
  obtain k where k: "find_key buf p key = Some k" "text_at buf k (segments (key # '': '' # val # t # ts))"
    using find_key_hit [OF assms(1-6)] by blast
  obtain c where c: "strchr_from buf k (CHR '':'') = Some c"
      "text_at buf c ('': '' @ QUOTE # val @ QUOTE # t @ segments ts)"
    using key_colon [OF k(2) assms(4,7)] by auto
  note o = strchr_at [OF c(2)]
  have opn: "strchr_from buf c QUOTE = Some (c + 2)"
      "text_at buf (c + 2 + 1) (val @ QUOTE # t @ segments ts)"
    using o by simp_all
  note e = strchr_at(1) [OF opn(2)]
  have "drop (Suc (Suc (Suc c))) buf = val @ QUOTE # t @ segments ts"
      "strchr_from buf (Suc (Suc (Suc c))) QUOTE = Some (Suc (Suc (Suc (c + length val))))"
    using opn(2) e assms(8) by (simp_all add: text_at_drop clean_def)
  then show ?thesis
    using k(1) c(1) opn(1) assms(9)
    by (simp add: read_string_after_def Let_def)
qed

section \<open>The layout of a registry document\<close>

text \<open>
  The strings of the published file, in its order. Inside an entry each value is on a line of its own;
  \<open>inner_gap\<close> stands between two entries of an array and \<open>outer_gap\<close> behind the last one.
\<close>

abbreviation NL :: char where "NL \<equiv> CHR 0x0A"

definition comma :: string where "comma = '','' @ [NL] @ ''   ''"
definition inner_gap :: string where "inner_gap = NL # ''  },'' @ [NL] @ ''  {'' @ [NL] @ ''   ''"
definition outer_gap :: string where "outer_gap = NL # ''  }'' @ [NL] @ '' ],'' @ [NL] @ '' ''"
definition array_open :: string where "array_open = '': ['' @ [NL] @ ''  {'' @ [NL] @ ''   ''"
definition array_empty :: string where "array_empty = '': [],'' @ [NL] @ '' ''"

definition number :: "int \<Rightarrow> string" where
  "number v = '': '' @ decimal_int v @ comma"

definition summary_number :: "int \<Rightarrow> string" where
  "summary_number v = '': '' @ decimal_int v @ '','' @ [NL] @ ''  ''"

fun range_entry :: "string \<Rightarrow> range_t \<times> string \<Rightarrow> string list" where
  "range_entry gap (r, detail) =
     [''first'', number (range_first r), ''last'', number (range_last r),
      ''policy'', '': '', range_policy r, comma, ''detail'', '': '', detail, gap]"

fun assignment_entry :: "string \<Rightarrow> assignment_t \<times> string \<times> string \<times> string \<Rightarrow> string list" where
  "assignment_entry gap (a, specification, guidance, detail) =
     [''id'', number (assignment_id a), ''name'', '': '', assignment_name a, comma,
      ''status'', '': '', assignment_status a, comma,
      ''specification'', '': '', specification, comma,
      ''criticality_guidance'', '': '', guidance, comma,
      ''detail'', '': '', detail, gap]"

fun entries :: "(string \<Rightarrow> 'a \<Rightarrow> string list) \<Rightarrow> 'a list \<Rightarrow> string list" where
  "entries f [] = []"
| "entries f [e] = f outer_gap e"
| "entries f (e # es) = f inner_gap e @ entries f es"

definition array_text :: "(string \<Rightarrow> 'a \<Rightarrow> string list) \<Rightarrow> 'a list \<Rightarrow> string list" where
  "array_text f es = (if es = [] then [array_empty] else array_open # entries f es)"

record registry_document =
  doc_head :: string
  doc_before :: "string list"
  doc_ranges :: "(range_t \<times> string) list"
  doc_assignments :: "(assignment_t \<times> string \<times> string \<times> string) list"
  doc_between :: "string list"
  doc_assigned :: int
  doc_deprecated :: int
  doc_total :: int
  doc_after :: "string list"

definition document_strings :: "registry_document \<Rightarrow> string list" where
  "document_strings d =
     doc_before d @ ''ranges'' # array_text range_entry (doc_ranges d) @
     ''assignments'' # array_text assignment_entry (doc_assignments d) @ doc_between d @
     [''assigned'', summary_number (doc_assigned d), ''deprecated'', summary_number (doc_deprecated d),
      ''total'', summary_number (doc_total d)] @ doc_after d"

definition document_text :: "registry_document \<Rightarrow> string" where
  "document_text d = doc_head d @ segments (document_strings d)"

text \<open>
  Free text must not be mistaken for what the scanner searches: it contains no quote and is none of the
  keys. The strings of an assignment contain no bracket, because the scanner counts those.
\<close>

abbreviation scan_keys :: "string list" where
  "scan_keys \<equiv> [''ranges'', ''first'', ''assignments'', ''id'', ''assigned'', ''deprecated'', ''total'']"

definition plain :: "string \<Rightarrow> bool" where
  "plain s \<longleftrightarrow> clean s \<and> s \<notin> set scan_keys"

definition bracket_free :: "string \<Rightarrow> bool" where
  "bracket_free s \<longleftrightarrow> CHR ''['' \<notin> set s \<and> CHR '']'' \<notin> set s"

definition long_int :: "int \<Rightarrow> bool" where
  "long_int v \<longleftrightarrow> LONG_MIN \<le> v \<and> v \<le> LONG_MAX"

fun range_entry_ok :: "range_t \<times> string \<Rightarrow> bool" where
  "range_entry_ok (r, detail) \<longleftrightarrow>
     long_int (range_first r) \<and> long_int (range_last r) \<and>
     plain (range_policy r) \<and> length (range_policy r) < MAX_STR \<and> plain detail"

fun assignment_entry_ok :: "assignment_t \<times> string \<times> string \<times> string \<Rightarrow> bool" where
  "assignment_entry_ok (a, specification, guidance, detail) \<longleftrightarrow>
     long_int (assignment_id a) \<and>
     plain (assignment_name a) \<and> assignment_name a \<noteq> ''status'' \<and>
     bracket_free (assignment_name a) \<and> length (assignment_name a) < MAX_STR \<and>
     clean (assignment_status a) \<and> assignment_status a \<noteq> ''id'' \<and>
     bracket_free (assignment_status a) \<and> length (assignment_status a) < MAX_STR \<and>
     plain specification \<and> bracket_free specification \<and> plain guidance \<and> bracket_free guidance \<and>
     plain detail \<and> bracket_free detail"

definition document_ok :: "registry_document \<Rightarrow> bool" where
  "document_ok d \<longleftrightarrow>
     clean (doc_head d) \<and> (\<forall>s \<in> set (doc_before d). plain s) \<and>
     (\<forall>e \<in> set (doc_ranges d). range_entry_ok e) \<and> length (doc_ranges d) \<le> MAX_RANGES \<and>
     (\<forall>e \<in> set (doc_assignments d). assignment_entry_ok e) \<and>
     length (doc_assignments d) \<le> MAX_ASSIGNMENTS \<and>
     (\<forall>s \<in> set (doc_between d). clean s \<and> s \<notin> {''assigned'', ''deprecated'', ''total''}) \<and>
     long_int (doc_assigned d) \<and> long_int (doc_deprecated d) \<and> long_int (doc_total d) \<and>
     (\<forall>s \<in> set (doc_after d). clean s) \<and> doc_after d \<noteq> []"

subsection \<open>The punctuation\<close>

lemma decimal_clean: "QUOTE \<notin> set (decimal n)" "NUL \<notin> set (decimal n)"
    "CHR ''['' \<notin> set (decimal n)" "CHR '']'' \<notin> set (decimal n)"
  using decimal_digits [of QUOTE n] decimal_digits [of NUL n] decimal_digits [of "CHR ''[''" n]
    decimal_digits [of "CHR '']''" n]
  by (auto simp: is_digit_def)

lemma punctuation_clean [simp]:
  "clean comma" "clean inner_gap" "clean outer_gap" "clean array_open" "clean array_empty" "clean (number v)"
  "clean (summary_number v)"
proof -
  have "clean (decimal n)" for n using decimal_clean by (simp add: clean_def)
  then show "clean (number v)" "clean (summary_number v)"
    by (simp_all add: number_def summary_number_def decimal_int_def comma_def)
qed (simp_all add: comma_def inner_gap_def outer_gap_def array_open_def array_empty_def)

lemma punctuation_bracket_free [simp]:
  "bracket_free comma" "bracket_free inner_gap" "bracket_free (number v)"
  using decimal_clean by (auto simp: comma_def inner_gap_def number_def decimal_int_def bracket_free_def)

lemma punctuation_no_key:
  assumes "c \<noteq> CHR '':''" and "c \<noteq> CHR '',''" and "c \<noteq> NL"
  shows "c # key \<noteq> comma" "c # key \<noteq> inner_gap" "c # key \<noteq> outer_gap" "c # key \<noteq> array_open"
    "c # key \<noteq> array_empty" "c # key \<noteq> number v" "c # key \<noteq> summary_number v"
  using assms
  by (simp_all add: summary_number_def comma_def inner_gap_def outer_gap_def array_open_def array_empty_def number_def)

lemmas no_key [simp] = punctuation_no_key punctuation_no_key [symmetric]

lemma scan_key_neq:
  assumes "k \<in> set scan_keys"
  shows "\<not> plain k" "k \<notin> {comma, inner_gap, outer_gap, array_open, array_empty, number v, '': '', ''last'', ''policy'',
    ''detail'', ''name'', ''status'', ''specification'', ''criticality_guidance''}"
proof -
  show "\<not> plain k" using assms by (simp add: plain_def)
  have "\<forall>k \<in> set scan_keys. k \<notin> {comma, inner_gap, outer_gap, array_open, array_empty, number v, '': '', ''last'',
    ''policy'', ''detail'', ''name'', ''status'', ''specification'', ''criticality_guidance''}" by simp
  with assms show "k \<notin> {comma, inner_gap, outer_gap, array_open, array_empty, number v, '': '', ''last'', ''policy'',
    ''detail'', ''name'', ''status'', ''specification'', ''criticality_guidance''}" by (rule bspec [rotated])
qed

lemma read_number_hit:
  assumes "text_at buf p (s @ segments (ss @ key # number v # ts))"
    and "clean s" and "\<forall>x \<in> set ss. clean x" and "clean key" and "length key \<le> 93" and "key \<notin> set ss"
    and "colon_free key" and "long_int v"
  shows "read_long_after buf p key = Some v"
  using assms read_long_hit [of buf p s ss key v comma ts]
  by (simp add: number_def long_int_def comma_def is_digit_def)

lemma read_summary_hit:
  assumes "text_at buf p (s @ segments (ss @ key # summary_number v # ts))"
    and "clean s" and "\<forall>x \<in> set ss. clean x" and "clean key" and "length key \<le> 93" and "key \<notin> set ss"
    and "colon_free key" and "long_int v"
  shows "read_long_after buf p key = Some v"
  using assms read_long_hit [of buf p s ss key v "'','' @ [NL] @ ''  ''" ts]
  by (simp add: summary_number_def long_int_def is_digit_def)

section \<open>Scanning the range table\<close>

lemma entries_Cons: "\<exists>gap. gap \<in> {inner_gap, outer_gap} \<and> entries f (e # es) = f gap e @ entries f es"
  by (cases es) auto

lemma range_entry_free:
  assumes "range_entry_ok e" and "gap \<in> {inner_gap, outer_gap}"
  shows "\<forall>s \<in> set (range_entry gap e). clean s"
    "k \<in> set scan_keys \<Longrightarrow> k \<notin> set (tl (range_entry gap e))"
  using assms by (cases e; auto simp: plain_def)+

text \<open>What the three reads of an entry find.\<close>

lemma range_entry_read:
  assumes "range_entry_ok e" and "text_at buf k (segments (range_entry gap e @ rest))"
  shows "read_long_after buf k ''first'' = Some (range_first (fst e))"
    and "read_long_after buf k ''last'' = Some (range_last (fst e))"
    and "read_string_after buf k ''policy'' MAX_STR = Some (range_policy (fst e))"
proof -
  obtain r detail where e: "e = (r, detail)" by (cases e)
  show "read_long_after buf k ''first'' = Some (range_first (fst e))"
    using assms read_number_hit [of buf k "[]" "[]" "''first''" "range_first r"
        "[''last'', number (range_last r), ''policy'', '': '', range_policy r, comma, ''detail'', '': '', detail, gap] @ rest"]
    by (simp add: e colon_free_def)
  show "read_long_after buf k ''last'' = Some (range_last (fst e))"
    using assms read_number_hit [of buf k "[]" "[''first'', number (range_first r)]" "''last''" "range_last r"
        "[''policy'', '': '', range_policy r, comma, ''detail'', '': '', detail, gap] @ rest"]
    by (simp add: e colon_free_def)
  show "read_string_after buf k ''policy'' MAX_STR = Some (range_policy (fst e))"
    using assms read_string_hit [of buf k "[]"
        "[''first'', number (range_first r), ''last'', number (range_last r)]" "''policy''" "range_policy r" comma
        "[''detail'', '': '', detail, gap] @ rest" MAX_STR]
    by (simp add: e colon_free_def plain_def)
qed

lemma scan_ranges_end:
  assumes "text_at buf stop (segments (''assignments'' # rest))"
    and "text_at buf cursor (s @ segments (ss @ ''assignments'' # rest))"
    and "clean s" and "\<forall>x \<in> set ss. clean x" and "''first'' \<notin> set ss"
  shows "scan_ranges buf (Some stop) cursor acc = (acc, [])"
proof -
  have "stop < k" if k: "find_key buf cursor ''first'' = Some k" for k
  proof -
    have "cursor + length (s @ segments (ss @ [''assignments''])) \<le> k"
      using assms by (intro find_key_later [OF _ assms(3) _ _ _ _ k, of _ rest]) auto
    moreover have "stop = cursor + length (s @ segments ss)"
      using text_at_diff [OF _ assms(1), of cursor "s @ segments ss"] assms(2) by simp
    ultimately show ?thesis by simp
  qed
  then show ?thesis by (subst scan_ranges.simps) (auto split: option.split)
qed

lemma scan_ranges_entries:
  assumes "text_at buf stop (segments (''assignments'' # rest))"
    and "text_at buf cursor (s @ segments (ss @ entries range_entry es @ ''assignments'' # rest))"
    and "clean s" and "\<forall>x \<in> set ss. clean x" and "''first'' \<notin> set ss"
    and "\<forall>e \<in> set es. range_entry_ok e" and "length acc + length es \<le> MAX_RANGES"
  shows "scan_ranges buf (Some stop) cursor acc = (acc @ map fst es, [])"
  using assms(2-)
proof (induction es arbitrary: cursor s ss acc)
  case Nil
  with assms(1) show ?case by (simp add: scan_ranges_end)
next
  case (Cons e es)
  obtain gap where gap: "gap \<in> {inner_gap, outer_gap}"
      "entries range_entry (e # es) = range_entry gap e @ entries range_entry es"
    using entries_Cons [of range_entry e es] by blast
  have ok: "range_entry_ok e" using Cons.prems by simp
  let ?rest = "entries range_entry es @ ''assignments'' # rest"
  obtain x y where y: "range_entry gap e = ''first'' # x # y" by (cases e) simp
  note free = range_entry_free [OF ok gap(1), unfolded y list.sel]
  have "text_at buf cursor (s @ segments (ss @ ''first'' # x # y @ ?rest))"
    using Cons.prems(1) by (simp only: gap(2) append_assoc y append_Cons)
  then obtain k where k: "find_key buf cursor ''first'' = Some k"
      "text_at buf k (segments (''first'' # x # y @ ?rest))"
    using find_key_hit [of buf cursor s ss "''first''" x "y @ ?rest"] Cons.prems(2-4) by auto
  then have k': "text_at buf k (segments (range_entry gap e @ ?rest))" by (simp add: y)
  have "k \<le> stop"
    using text_at_diff [OF _ assms(1), of k "segments (range_entry gap e @ entries range_entry es)"] k' by simp
  then have "scan_ranges buf (Some stop) cursor acc = scan_ranges buf (Some stop) (k + 1) (acc @ [fst e])"
    using Cons.prems(6) k(1) range_entry_read [OF ok k'] by (intro scan_ranges_step) auto
  also have "\<dots> = (acc @ [fst e] @ map fst es, [])"
  proof -
    have "text_at buf (k + 1) (''first'' @ segments (x # y @ ?rest))"
      using k(2) text_at_next by simp
    with Cons.IH [of "k + 1" "''first''" "x # y" "acc @ [fst e]"] Cons.prems free show ?thesis by simp
  qed
  finally show ?case by simp
qed

section \<open>The array of the assignments\<close>

definition flat :: "string \<Rightarrow> bool" where
  "flat s \<longleftrightarrow> bracket_free s \<and> NUL \<notin> set s"

lemma flat_simps [simp]:
  "flat []" "flat (c # s) \<longleftrightarrow> c \<noteq> CHR ''['' \<and> c \<noteq> CHR '']'' \<and> c \<noteq> NUL \<and> flat s"
  "flat (s @ t) \<longleftrightarrow> flat s \<and> flat t"
  by (auto simp: flat_def bracket_free_def)

lemma flat_segments: "\<forall>s \<in> set ss. flat s \<Longrightarrow> flat (segments ss)"
  by (induction ss) auto

lemma closing_bracket_flat:
  "flat xs \<Longrightarrow> closing_bracket (xs @ ys) depth p = closing_bracket ys depth (p + length xs)"
  by (induction xs arbitrary: p) auto

lemma assignment_entry_flat:
  assumes "assignment_entry_ok e"
  shows "\<forall>s \<in> set (butlast (assignment_entry gap e)). flat s"
proof -
  obtain a spec guide detail where e: "e = (a, spec, guide, detail)" by (cases e)
  have flat: "clean s \<Longrightarrow> bracket_free s \<Longrightarrow> flat s" for s by (simp add: flat_def clean_def)
  show ?thesis using assms by (simp add: e plain_def flat)
qed

lemma entries_flat:
  "es \<noteq> [] \<Longrightarrow> \<forall>e \<in> set es. assignment_entry_ok e \<Longrightarrow>
     \<exists>u. segments (entries assignment_entry es) = u @ outer_gap \<and> flat u"
proof (induction es)
  case (Cons e es)
  obtain gap where gap: "gap \<in> {inner_gap, outer_gap}" "es = [] \<longrightarrow> gap = outer_gap" "es \<noteq> [] \<longrightarrow> gap = inner_gap"
      "entries assignment_entry (e # es) = assignment_entry gap e @ entries assignment_entry es"
    by (cases es) auto
  obtain xs where xs: "assignment_entry gap e = xs @ [gap]" "\<forall>s \<in> set xs. flat s"
  proof -
    obtain a spec guide detail where e: "e = (a, spec, guide, detail)" by (cases e)
    have "assignment_entry gap e = butlast (assignment_entry gap e) @ [gap]" by (simp add: e)
    with that assignment_entry_flat [of e gap] Cons.prems show ?thesis by simp
  qed
  show ?case
  proof (cases "es = []")
    case True
    with gap xs flat_segments [OF xs(2)] have
      "segments (entries assignment_entry (e # es)) = (segments xs @ [QUOTE]) @ outer_gap" by simp
    moreover have "flat (segments xs @ [QUOTE])" using flat_segments [OF xs(2)] by simp
    ultimately show ?thesis by blast
  next
    case False
    with Cons obtain u where u: "segments (entries assignment_entry es) = u @ outer_gap" "flat u" by auto
    have "flat inner_gap" using punctuation_bracket_free punctuation_clean by (simp add: flat_def clean_def)
    then have "flat ((segments xs @ QUOTE # inner_gap) @ u)" using flat_segments [OF xs(2)] u(2) by simp
    moreover have "segments (entries assignment_entry (e # es)) = ((segments xs @ QUOTE # inner_gap) @ u) @ outer_gap"
      using False gap xs u by simp
    ultimately show ?thesis by blast
  qed
qed simp

lemma array_text_bracket:
  assumes "\<forall>e \<in> set es. assignment_entry_ok e"
  shows "\<exists>u close. segments (array_text assignment_entry es) = QUOTE # '': ['' @ u @ CHR '']'' # close \<and>
    flat u \<and> (es \<noteq> [] \<longrightarrow> (\<exists>t. outer_gap = t @ CHR '']'' # close)) \<and> (es = [] \<longrightarrow> u = [] \<and> clean close)"
proof (cases "es = []")
  case True
  then show ?thesis by (simp add: array_text_def array_empty_def)
next
  case False
  obtain u where u: "segments (entries assignment_entry es) = u @ outer_gap" "flat u"
    using entries_flat [OF False assms] by blast
  have gap: "outer_gap = (NL # ''  }'' @ [NL] @ '' '') @ CHR '']'' # '','' @ [NL] @ '' ''"
    by (simp add: outer_gap_def)
  let ?u = "[NL] @ ''  {'' @ [NL] @ ''   '' @ u @ NL # ''  }'' @ [NL] @ '' ''"
  have "segments (array_text assignment_entry es) = QUOTE # '': ['' @ ?u @ CHR '']'' # '','' @ [NL] @ '' ''"
    using False u by (simp add: array_text_def array_open_def gap)
  moreover have "flat ?u" using u(2) by simp
  ultimately show ?thesis using gap False by blast
qed

section \<open>Scanning the assignments\<close>

lemma assignment_entry_free:
  assumes "assignment_entry_ok e" and "gap \<in> {inner_gap, outer_gap}"
  shows "\<forall>s \<in> set (assignment_entry gap e). clean s" "''id'' \<notin> set (tl (assignment_entry gap e))"
  using assms by (cases e; auto simp: plain_def)+

lemma scan_assignments_step:
  assumes "length acc < MAX_ASSIGNMENTS" and "find_key buf cursor ''id'' = Some entry" and "entry \<le> stop"
    and "read_long_after buf entry ''id'' = Some (assignment_id a)"
    and "read_string_after buf entry ''name'' MAX_STR = Some (assignment_name a)"
    and "read_string_after buf entry ''status'' MAX_STR = Some (assignment_status a)"
    and "find_key buf entry ''specification'' \<noteq> None" and "find_key buf entry ''criticality_guidance'' \<noteq> None"
  shows "scan_assignments buf stop cursor acc problems =
    scan_assignments buf stop (entry + 1) (acc @ [a]) problems"
  using assms by (subst scan_assignments.simps) (cases a; auto)

text \<open>What the reads of an entry find, and the keys whose presence is checked.\<close>

lemma assignment_entry_read:
  assumes "assignment_entry_ok e" and "text_at buf k (segments (assignment_entry gap e @ rest))"
  shows "read_long_after buf k ''id'' = Some (assignment_id (fst e))"
    and "read_string_after buf k ''name'' MAX_STR = Some (assignment_name (fst e))"
    and "read_string_after buf k ''status'' MAX_STR = Some (assignment_status (fst e))"
proof -
  obtain a spec guide detail where e: "e = (a, spec, guide, detail)" by (cases e)
  let ?tail = "[''specification'', '': '', spec, comma, ''criticality_guidance'', '': '', guide, comma,
    ''detail'', '': '', detail, gap] @ rest"
  let ?status = "[''status'', '': '', assignment_status a, comma] @ ?tail"
  show "read_long_after buf k ''id'' = Some (assignment_id (fst e))"
    using assms read_number_hit [of buf k "[]" "[]" "''id''" "assignment_id a"
        "[''name'', '': '', assignment_name a, comma] @ ?status"]
    by (simp add: e colon_free_def)
  show "read_string_after buf k ''name'' MAX_STR = Some (assignment_name (fst e))"
    using assms read_string_hit [of buf k "[]" "[''id'', number (assignment_id a)]" "''name''" "assignment_name a" comma
        ?status MAX_STR]
    by (simp add: e colon_free_def plain_def)
  show "read_string_after buf k ''status'' MAX_STR = Some (assignment_status (fst e))"
    using assms read_string_hit [of buf k "[]" "[''id'', number (assignment_id a), ''name'', '': '', assignment_name a, comma]"
        "''status''" "assignment_status a" comma ?tail MAX_STR]
    by (simp add: e colon_free_def plain_def eq_commute [of "''status''"])
qed

lemma assignment_entry_keys:
  assumes "assignment_entry_ok e" and "text_at buf k (segments (assignment_entry gap e @ rest))"
    and "gap \<in> {inner_gap, outer_gap}"
  shows "find_key buf k ''specification'' \<noteq> None" and "find_key buf k ''criticality_guidance'' \<noteq> None"
proof -
  obtain front where front: "assignment_entry gap e = front @ [gap]"
      "''specification'' \<in> set front" "''criticality_guidance'' \<in> set front"
    using that [of "butlast (assignment_entry gap e)"] by (cases e) simp
  have "find_key buf k key \<noteq> None" if "key \<in> set front" "length key \<le> 93" for key
  proof (rule find_key_present [OF _ _ _ that])
    show "text_at buf k ([] @ segments (front @ gap # rest))" using assms(2) by (simp add: front(1))
    show "\<forall>x \<in> set front. clean x"
      using assignment_entry_free(1) [OF assms(1,3)] by (simp add: front(1))
  qed simp
  then show "find_key buf k ''specification'' \<noteq> None" "find_key buf k ''criticality_guidance'' \<noteq> None"
    using front(2,3) by simp_all
qed

lemma scan_assignments_end:
  assumes "text_at buf stop (close @ segments rest)" and "close \<noteq> []"
    and "text_at buf cursor (s @ segments (ss @ rest))"
    and "clean s" and "\<forall>x \<in> set ss. clean x" and "''id'' \<notin> set ss"
  shows "scan_assignments buf stop cursor acc [] = (acc, [])"
proof -
  have "stop < k" if k: "find_key buf cursor ''id'' = Some k" for k
  proof -
    have "cursor + length (s @ segments ss) \<le> k"
      using assms by (intro find_key_later [OF _ assms(4) _ _ _ _ k, of _ rest]) auto
    moreover have "text_at buf (cursor + length (s @ segments ss)) (segments rest)"
      using assms(3) by (intro text_at_step) simp
    then have "cursor + length (s @ segments ss) = stop + length close"
      using text_at_diff [OF assms(1)] by simp
    ultimately show ?thesis using assms(2) by (cases close) auto
  qed
  then show ?thesis by (subst scan_assignments.simps) (auto split: option.split)
qed

lemma scan_assignments_entries:
  assumes "text_at buf stop (close @ segments rest)" and "close \<noteq> []"
    and "text_at buf cursor (s @ segments (ss @ entries assignment_entry es @ rest))"
    and "clean s" and "\<forall>x \<in> set ss. clean x" and "''id'' \<notin> set ss"
    and "\<forall>e \<in> set es. assignment_entry_ok e" and "length acc + length es \<le> MAX_ASSIGNMENTS"
    and "es \<noteq> [] \<Longrightarrow> \<exists>t. outer_gap = t @ close"
  shows "scan_assignments buf stop cursor acc [] = (acc @ map fst es, [])"
  using assms(3-)
proof (induction es arbitrary: cursor s ss acc)
  case Nil
  with assms(1,2) show ?case by (simp add: scan_assignments_end)
next
  case (Cons e es)
  obtain gap where gap: "gap \<in> {inner_gap, outer_gap}"
      "entries assignment_entry (e # es) = assignment_entry gap e @ entries assignment_entry es"
    using entries_Cons [of assignment_entry e es] by blast
  have ok: "assignment_entry_ok e" using Cons.prems by simp
  let ?rest = "entries assignment_entry es @ rest"
  obtain x y where y: "assignment_entry gap e = ''id'' # x # y" by (cases e) simp
  note free = assignment_entry_free [OF ok gap(1), unfolded y list.sel]
  have "text_at buf cursor (s @ segments (ss @ ''id'' # x # y @ ?rest))"
    using Cons.prems(1) by (simp only: gap(2) append_assoc y append_Cons)
  then obtain k where k: "find_key buf cursor ''id'' = Some k"
      "text_at buf k (segments (''id'' # x # y @ ?rest))"
    using find_key_hit [of buf cursor s ss "''id''" x "y @ ?rest"] Cons.prems(2-4) by auto
  then have k': "text_at buf k (segments (assignment_entry gap e @ ?rest))" by (simp add: y)
  obtain u where u: "segments (entries assignment_entry (e # es)) = u @ outer_gap"
    using entries_flat [of "e # es"] Cons.prems(5) by blast
  obtain t where t: "outer_gap = t @ close" using Cons.prems(7) by blast
  have "text_at buf k ((u @ t) @ close @ segments rest)"
    using k' u unfolding t gap(2) by (metis append.assoc segments_simps(3))
  then have "k \<le> stop" using text_at_diff [OF _ assms(1)] by fastforce
  then have "scan_assignments buf stop cursor acc [] = scan_assignments buf stop (k + 1) (acc @ [fst e]) []"
    using Cons.prems(6) k(1) assignment_entry_read [OF ok k'] assignment_entry_keys [OF ok k' gap(1)]
    by (intro scan_assignments_step) auto
  also have "\<dots> = (acc @ [fst e] @ map fst es, [])"
  proof -
    have "text_at buf (k + 1) (''id'' @ segments (x # y @ ?rest))"
      using k(2) text_at_next by simp
    with Cons.IH [of "k + 1" "''id''" "x # y" "acc @ [fst e]"] Cons.prems free show ?thesis by simp
  qed
  finally show ?case by simp
qed

lemma read_assignments_entries:
  assumes "text_at buf 0 (s @ segments (ss @ ''assignments'' # array_text assignment_entry es @ rest))"
    and "clean s" and "\<forall>x \<in> set ss. clean x" and "''assignments'' \<notin> set ss"
    and "\<forall>e \<in> set es. assignment_entry_ok e" and "length es \<le> MAX_ASSIGNMENTS"
  shows "read_assignments buf = (map fst es, [])"
proof -
  obtain t ts where "array_text assignment_entry es = t # ts" by (cases es) (auto simp: array_text_def)
  with assms(1-4) obtain k where k: "find_key buf 0 ''assignments'' = Some k"
      "text_at buf k (segments (''assignments'' # array_text assignment_entry es @ rest))"
    using find_key_hit [of buf 0 s ss "''assignments''" t "ts @ rest"] by auto
  obtain u close where u: "segments (array_text assignment_entry es) = QUOTE # '': ['' @ u @ CHR '']'' # close"
      "flat u" "es \<noteq> [] \<Longrightarrow> \<exists>t. outer_gap = t @ CHR '']'' # close" "es = [] \<Longrightarrow> u = [] \<and> clean close"
    using array_text_bracket [OF assms(5)] by blast
  have at: "text_at buf k ((QUOTE # ''assignments'' @ QUOTE # '': '') @ CHR ''['' # u @ CHR '']'' # close @ segments rest)"
    using k(2) u(1) by simp
  obtain p where p: "p = k + length (QUOTE # ''assignments'' @ QUOTE # '': '')" by simp
  note bracket = strchr_at [OF at, folded p]
  have b: "strchr_from buf k (CHR ''['') = Some p" "text_at buf p (CHR ''['' # u @ CHR '']'' # close @ segments rest)"
    using bracket by simp_all
  have stop: "text_at buf (p + 1 + length u) ((CHR '']'' # close) @ segments rest)"
    using text_at_step [of buf p "CHR ''['' # u"] b(2) by simp
  have "closing_bracket (drop p buf) 0 p = Some (p + 1 + length u)"
    using text_at_drop [OF b(2)] closing_bracket_flat [OF u(2)] by simp
  then have span: "array_span buf 0 ''assignments'' = Some (p, p + 1 + length u)"
    using k(1) b(1) by (simp add: array_span_def)
  have "scan_assignments buf (p + 1 + length u) p [] [] = ([] @ map fst es, [])"
  proof (cases "es = []")
    case True
    with u(4) b(2) have "text_at buf p ((''[]'' @ close) @ segments ([] @ entries assignment_entry es @ rest))" by simp
    then show ?thesis
      using True u(4) by (intro scan_assignments_entries [OF stop, of p "''[]'' @ close" "[]" es]) auto
  next
    case False
    have at': "text_at buf p ((CHR ''['' # [NL] @ ''  {'' @ [NL] @ ''   '') @ segments ([] @ entries assignment_entry es @ rest))"
      using text_at_step [of buf k "QUOTE # ''assignments'' @ QUOTE # '': ''"] k(2) False
      by (simp add: array_text_def array_open_def p)
    then show ?thesis
      using False assms(5,6) u(3) by (intro scan_assignments_entries [OF stop _ at']) auto
  qed
  then show ?thesis by (simp add: read_assignments_def span)
qed

section \<open>Reading a document\<close>

lemma set_array_text:
  assumes "s \<in> set (array_text f es)"
  shows "s = array_empty \<or> s = array_open \<or> (\<exists>e \<in> set es. \<exists>gap \<in> {inner_gap, outer_gap}. s \<in> set (f gap e))"
proof -
  have "s \<in> set (entries f es) \<Longrightarrow> \<exists>e \<in> set es. \<exists>gap \<in> {inner_gap, outer_gap}. s \<in> set (f gap e)"
  proof (induction es)
    case (Cons e es)
    with entries_Cons [of f e es] show ?case by auto
  qed simp
  with assms show ?thesis by (auto simp: array_text_def split: if_splits)
qed

lemma array_text_all:
  assumes "\<And>e gap s. e \<in> set es \<Longrightarrow> gap \<in> {inner_gap, outer_gap} \<Longrightarrow> s \<in> set (f gap e) \<Longrightarrow> P s"
    and "P array_empty" and "P array_open" and "s \<in> set (array_text f es)"
  shows "P s"
  using assms set_array_text [OF assms(4)] by blast

lemma range_array_clean:
  "\<forall>e \<in> set es. range_entry_ok e \<Longrightarrow> s \<in> set (array_text range_entry es) \<Longrightarrow> clean s"
  using range_entry_free(1) by (elim array_text_all [rotated 3]) (blast, simp_all)

lemma range_array_key:
  assumes "\<forall>e \<in> set es. range_entry_ok e" and "k \<in> set scan_keys" and "k \<noteq> ''first''"
  shows "k \<notin> set (array_text range_entry es)"
proof -
  note neq = scan_key_neq(1) [OF assms(2)] scan_key_neq(2) [OF assms(2)]
  have "s \<noteq> k" if "e \<in> set es" "gap \<in> {inner_gap, outer_gap}" "s \<in> set (range_entry gap e)" for e gap s
  proof -
    obtain r detail where e: "e = (r, detail)" by (cases e)
    have "plain (range_policy r)" "plain detail" using that(1) assms(1) e by force+
    then show ?thesis
      using that(2,3) assms(3) neq(1) neq(2) [of "range_first r"] neq(2) [of "range_last r"]
      unfolding e range_entry.simps by auto
  qed
  moreover have "array_empty \<noteq> k" "array_open \<noteq> k" using neq(2) by auto
  ultimately show ?thesis using array_text_all [of es range_entry "\<lambda>s. s \<noteq> k" k] by blast
qed

lemma assignment_array_clean:
  "\<forall>e \<in> set es. assignment_entry_ok e \<Longrightarrow> s \<in> set (array_text assignment_entry es) \<Longrightarrow> clean s"
  using assignment_entry_free(1) by (elim array_text_all [rotated 3]) (blast, simp_all)

abbreviation summary_keys :: "string set" where
  "summary_keys \<equiv> {''assigned'', ''deprecated'', ''total''}"

lemma assignment_entry_key:
  assumes "assignment_entry_ok e" and "gap \<in> {inner_gap, outer_gap}" and "k \<in> summary_keys"
  shows "assignment_status (fst e) \<noteq> k \<Longrightarrow> k \<notin> set (assignment_entry gap e)"
    and "k \<notin> set (take 8 (assignment_entry gap e))"
proof -
  have k: "k \<in> set scan_keys" "k \<noteq> ''id''" using assms(3) by auto
  note neq = scan_key_neq(1) [OF k(1)] scan_key_neq(2) [OF k(1)]
  obtain a spec guide detail where e: "e = (a, spec, guide, detail)" by (cases e)
  have "plain (assignment_name a)" "plain spec" "plain guide" "plain detail"
    using assms(1) e by simp_all
  then show "assignment_status (fst e) \<noteq> k \<Longrightarrow> k \<notin> set (assignment_entry gap e)"
      "k \<notin> set (take 8 (assignment_entry gap e))"
    using assms(2) k(2) neq(1) neq(2) [of "assignment_id a"] unfolding e assignment_entry.simps by auto
qed

lemma assignment_array_key:
  assumes "\<forall>e \<in> set es. assignment_entry_ok e" and "k \<in> summary_keys"
    and "\<forall>e \<in> set es. assignment_status (fst e) \<noteq> k"
  shows "k \<notin> set (array_text assignment_entry es)"
proof -
  have "s \<noteq> k" if "e \<in> set es" "gap \<in> {inner_gap, outer_gap}" "s \<in> set (assignment_entry gap e)" for e gap s
    using assignment_entry_key(1) [OF _ that(2) assms(2)] assms(1,3) that(1,3) by blast
  moreover have "array_empty \<noteq> k" "array_open \<noteq> k" using assms(2) by auto
  ultimately show ?thesis using array_text_all [of es assignment_entry "\<lambda>s. s \<noteq> k" k] by blast
qed

lemma array_text_Cons: "\<exists>t ts. array_text f es = t # ts"
  by (simp add: array_text_def)

lemma document_scanned:
  assumes "document_ok d"
  shows "\<exists>st. find_key (document_text d) 0 ''ranges'' = Some st \<and>
      scan_ranges (document_text d) (find_key (document_text d) st ''assignments'') st [] =
        (map fst (doc_ranges d), [])"
    and "read_assignments (document_text d) = (map fst (doc_assignments d), [])"
proof -
  let ?buf = "document_text d"
  let ?R = "array_text range_entry (doc_ranges d)" and ?A = "array_text assignment_entry (doc_assignments d)"
  obtain rest where doc: "document_strings d = doc_before d @ ''ranges'' # ?R @ ''assignments'' # ?A @ rest"
    by (simp add: document_strings_def)
  have text0: "text_at ?buf 0 (doc_head d @ segments (doc_before d @ ''ranges'' # ?R @ ''assignments'' # ?A @ rest))"
    using text_at_0 [of ?buf] by (simp add: document_text_def doc)
  have ok: "clean (doc_head d)" "\<forall>s \<in> set (doc_before d). plain s" "\<forall>e \<in> set (doc_ranges d). range_entry_ok e"
      "\<forall>e \<in> set (doc_assignments d). assignment_entry_ok e" "length (doc_ranges d) \<le> MAX_RANGES"
      "length (doc_assignments d) \<le> MAX_ASSIGNMENTS"
    using assms by (simp_all add: document_ok_def)
  note R = range_array_clean [OF ok(3)] range_array_key [OF ok(3)]
  obtain a as where a: "?A = a # as" using array_text_Cons by blast
  obtain r rs where r: "?R = r # rs" using array_text_Cons by blast
  show "read_assignments ?buf = (map fst (doc_assignments d), [])"
    using text0 ok R
    by (intro read_assignments_entries [of ?buf "doc_head d" "doc_before d @ ''ranges'' # ?R" _ rest])
      (auto simp: plain_def)
  obtain st where st: "find_key ?buf 0 ''ranges'' = Some st"
      "text_at ?buf st (segments (''ranges'' # ?R @ ''assignments'' # ?A @ rest))"
    using find_key_hit [of ?buf 0 "doc_head d" "doc_before d" "''ranges''" r "rs @ ''assignments'' # ?A @ rest"]
      text0 ok unfolding r by (auto simp: plain_def)
  then obtain stop where stop: "find_key ?buf st ''assignments'' = Some stop"
      "text_at ?buf stop (segments (''assignments'' # ?A @ rest))"
    using find_key_hit [of ?buf st "[]" "''ranges'' # ?R" "''assignments''" a "as @ rest"] ok R
    unfolding a by auto
  have "scan_ranges ?buf (Some stop) st [] = ([] @ map fst (doc_ranges d), [])"
  proof (cases "doc_ranges d = []")
    case True
    then show ?thesis
      using st(2) by (intro scan_ranges_entries [OF stop(2), of _ "[]" "[''ranges'', array_empty]"])
        (simp_all add: array_text_def)
  next
    case False
    then show ?thesis
      using st(2) ok by (intro scan_ranges_entries [OF stop(2), of _ "[]" "[''ranges'', array_open]"])
        (simp_all add: array_text_def)
  qed
  with st stop show "\<exists>st. find_key ?buf 0 ''ranges'' = Some st \<and>
      scan_ranges ?buf (find_key ?buf st ''assignments'') st [] = (map fst (doc_ranges d), [])"
    by auto
qed

lemma document_summary:
  assumes "document_ok d" and "\<forall>e \<in> set (doc_assignments d). assignment_status (fst e) \<notin> summary_keys"
  shows "declared (document_text d) ''assigned'' = doc_assigned d"
    "declared (document_text d) ''deprecated'' = doc_deprecated d"
    "declared (document_text d) ''total'' = doc_total d"
proof -
  let ?buf = "document_text d"
  let ?front = "doc_before d @ ''ranges'' # array_text range_entry (doc_ranges d) @
     ''assignments'' # array_text assignment_entry (doc_assignments d) @ doc_between d"
  have text0: "text_at ?buf 0 (doc_head d @ segments (?front @
      [''assigned'', summary_number (doc_assigned d), ''deprecated'', summary_number (doc_deprecated d),
       ''total'', summary_number (doc_total d)] @ doc_after d))"
    using text_at_0 [of ?buf] by (simp add: document_text_def document_strings_def)
  have clean: "clean (doc_head d)" "\<forall>s \<in> set ?front. clean s"
    using assms(1) range_array_clean assignment_array_clean by (auto simp: document_ok_def plain_def)
  have keys: "k \<notin> set ?front" if "k \<in> summary_keys" for k
  proof -
    have k: "k \<in> set scan_keys" "k \<noteq> ''first''" "k \<noteq> ''ranges''" "k \<noteq> ''assignments''" using that by auto
    have "k \<notin> set (doc_before d)" "k \<notin> set (doc_between d)"
      using assms(1) that scan_key_neq(1) [OF k(1)] unfolding document_ok_def by blast+
    moreover have "k \<notin> set (array_text range_entry (doc_ranges d))"
      using assms(1) k by (intro range_array_key) (simp_all add: document_ok_def)
    moreover have "k \<notin> set (array_text assignment_entry (doc_assignments d))"
      using assms that by (intro assignment_array_key) (auto simp: document_ok_def)
    ultimately show ?thesis using k by simp
  qed
  have long: "long_int (doc_assigned d)" "long_int (doc_deprecated d)" "long_int (doc_total d)"
    using assms(1) by (simp_all add: document_ok_def)
  obtain front where front: "front = ?front" by simp
  note text0 = text0 [folded front] and clean = clean [folded front] and keys = keys [folded front]
  show "declared ?buf ''assigned'' = doc_assigned d"
    using read_summary_hit [of ?buf 0 "doc_head d" front "''assigned''" "doc_assigned d"
        "[''deprecated'', summary_number (doc_deprecated d), ''total'', summary_number (doc_total d)] @ doc_after d"]
      text0 clean keys long
    by (simp add: declared_def colon_free_def)
  show "declared ?buf ''deprecated'' = doc_deprecated d"
    using read_summary_hit [of ?buf 0 "doc_head d" "front @ [''assigned'', summary_number (doc_assigned d)]"
        "''deprecated''" "doc_deprecated d" "[''total'', summary_number (doc_total d)] @ doc_after d"]
      text0 clean keys long
    by (simp add: declared_def colon_free_def)
  show "declared ?buf ''total'' = doc_total d"
    using read_summary_hit [of ?buf 0 "doc_head d" "front @ [''assigned'', summary_number (doc_assigned d),
        ''deprecated'', summary_number (doc_deprecated d)]" "''total''" "doc_total d" "doc_after d"]
      text0 clean keys long
    by (simp add: declared_def colon_free_def)
qed

lemma document_registry_OK:
  assumes "qsort_contract qsort" and "document_ok d"
  shows "fst (check_registry qsort (document_text d)) =
    (if registry_consistent (map fst (doc_ranges d)) (map fst (doc_assignments d))
          (declared (document_text d) ''assigned'') (declared (document_text d) ''deprecated'')
          (declared (document_text d) ''total'') then 0 else 1)"
proof -
  obtain st where "find_key (document_text d) 0 ''ranges'' = Some st"
      "scan_ranges (document_text d) (find_key (document_text d) st ''assignments'') st [] =
        (map fst (doc_ranges d), [])"
    using document_scanned(1) [OF assms(2)] by blast
  from check_registry_OK [OF assms(1) this document_scanned(2) [OF assms(2)]]
  show ?thesis unfolding check_registry_code by simp
qed

lemma entries_split:
  "entries f (es @ e # fs) = concat (map (f inner_gap) es) @ entries f (e # fs)"
proof (induction es)
  case (Cons x es)
  then show ?case by (cases es) simp_all
qed simp

text \<open>
  A status that is a key of the summary stands before the summary: the first entry that has it is what
  a search for the key finds.
\<close>

lemma first_status_at:
  assumes "document_ok d" and "\<exists>x \<in> set (doc_assignments d). assignment_status (fst x) = k"
    and "k \<in> summary_keys"
  obtains pre spec rest where
    "document_strings d = pre @ k # comma # ''specification'' # '': '' # spec # rest"
    "\<forall>s \<in> set pre. clean s" "k \<notin> set pre"
proof -
  from split_list_first_prop [OF assms(2)] obtain es1 e1 es2 where
    split: "doc_assignments d = es1 @ e1 # es2" "assignment_status (fst e1) = k"
      "\<forall>x \<in> set es1. assignment_status (fst x) \<noteq> k"
    by blast
  have ok: "\<forall>x \<in> set es1. assignment_entry_ok x" "assignment_entry_ok e1"
      "\<forall>x \<in> set (doc_ranges d). range_entry_ok x" "\<forall>s \<in> set (doc_before d). plain s"
    using assms(1) split(1) by (simp_all add: document_ok_def)
  obtain gap where gap: "gap \<in> {inner_gap, outer_gap}"
      "entries assignment_entry (e1 # es2) = assignment_entry gap e1 @ entries assignment_entry es2"
    using entries_Cons [of assignment_entry e1 es2] by blast
  let ?R = "array_text range_entry (doc_ranges d)" and ?E = "concat (map (assignment_entry inner_gap) es1)"
  let ?S = "take 8 (assignment_entry gap e1)"
  let ?pre = "doc_before d @ ''ranges'' # ?R @ ''assignments'' # array_open # ?E @ ?S"
  obtain spec where "assignment_entry gap e1 =
      ?S @ k # comma # ''specification'' # '': '' # spec # drop 13 (assignment_entry gap e1)"
    using split(2) by (cases e1) simp
  then have "array_text assignment_entry (doc_assignments d) = array_open # ?E @ ?S @
      k # comma # ''specification'' # '': '' # spec # drop 13 (assignment_entry gap e1) @ entries assignment_entry es2"
    unfolding array_text_def split(1) entries_split gap(2)
    by (metis append_Cons append_assoc append_is_Nil_conv list.distinct(1))
  then obtain rest where "document_strings d = ?pre @ k # comma # ''specification'' # '': '' # spec # rest"
    using that by (simp add: document_strings_def)
  moreover have "\<forall>s \<in> set ?pre. clean s"
  proof -
    have "\<forall>s \<in> set ?E. clean s"
      using assignment_entry_free(1) [of _ inner_gap] ok(1) unfolding set_concat set_map by blast
    moreover have "\<forall>s \<in> set ?S. clean s"
      using assignment_entry_free(1) [OF ok(2) gap(1)] by (blast dest: in_set_takeD)
    moreover have "\<forall>s \<in> set (doc_before d). clean s" using ok(4) by (simp add: plain_def)
    moreover have "clean ''ranges''" "clean ''assignments''" "clean array_open" by simp_all
    ultimately show ?thesis
      using range_array_clean [OF ok(3)] unfolding set_append list.set(2) ball_Un ball_simps by blast
  qed
  moreover have "k \<notin> set ?pre"
  proof -
    have k: "k \<in> set scan_keys" "k \<noteq> ''first''" "k \<noteq> ''ranges''" "k \<noteq> ''assignments''" using assms(3) by auto
    have "k \<notin> set ?E"
      using assignment_entry_key(1) [OF _ _ assms(3), of _ inner_gap] ok(1) split(3) unfolding set_concat set_map by blast
    moreover have "k \<notin> set (doc_before d)" "k \<noteq> array_open"
      using ok(4) scan_key_neq(1) [OF k(1)] scan_key_neq(2) [OF k(1)] by auto
    ultimately show ?thesis
      using k range_array_key [OF ok(3) k(1,2)] assignment_entry_key(2) [OF ok(2) gap(1) assms(3)]
      unfolding set_append list.set(2) Un_iff insert_iff by blast
  qed
  ultimately show thesis by (rule that)
qed

lemma declared_at_status:
  assumes "document_ok d" and "e \<in> set (doc_assignments d)" and "k = assignment_status (fst e)"
    and "k \<in> summary_keys"
  shows "declared (document_text d) k = 0"
proof -
  let ?buf = "document_text d"
  have "\<exists>x \<in> set (doc_assignments d). assignment_status (fst x) = k" using assms(2,3) by blast
  from first_status_at [OF assms(1) this assms(4)] obtain pre spec rest where
    pre: "document_strings d = pre @ k # comma # ''specification'' # '': '' # spec # rest"
      "\<forall>s \<in> set pre. clean s" "k \<notin> set pre" .
  have k: "clean k" "length k \<le> 93" "colon_free k" using assms(4) by (auto simp: colon_free_def)
  have head: "clean (doc_head d)" using assms(1) by (simp add: document_ok_def)
  have "text_at ?buf 0 (doc_head d @ segments (pre @ k # comma # ''specification'' # '': '' # spec # rest))"
    using text_at_0 [of ?buf] by (simp add: document_text_def pre(1))
  then obtain p where p: "find_key ?buf 0 k = Some p"
      "text_at ?buf p (segments (k # comma # ''specification'' # '': '' # spec # rest))"
    using find_key_hit [OF _ head pre(2) k(1,2) pre(3)] by blast
  let ?front = "QUOTE # k @ QUOTE # comma @ QUOTE # ''specification'' @ [QUOTE]"
  have "text_at ?buf p (?front @ CHR '':'' # CHR 0x20 # segments (spec # rest))"
    using p(2) by simp
  moreover have "CHR '':'' \<notin> set ?front" "NUL \<notin> set ?front"
    using k by (auto simp: colon_free_def comma_def clean_def)
  ultimately obtain c where c: "strchr_from ?buf p (CHR '':'') = Some c"
      "text_at ?buf (c + 1) (CHR 0x20 # QUOTE # spec @ segments rest)"
    using strchr_at by (metis segments_simps(2))
  have "strtol (CHR 0x20 # QUOTE # spec @ segments rest) = 0"
    by (rule strtol_text) (simp_all add: is_digit_def is_space_def)
  then show ?thesis
    using p(1) c text_at_drop [OF c(2)] by (simp add: declared_def read_long_after_def)
qed

end
