(* ===== verification/Wire_Registry_Verdict.thy ===== *)
theory Wire_Registry_Verdict
  imports Wire_Registry_Document
begin

text \<open>
  What the registry validator decides on documents of the published layout, with the published
  \<open>registries/extension-ids-v0.1.json\<close>, byte for byte, as the example, and two cases in which it does
  not decide what it is meant to.
\<close>

section \<open>The published registry\<close>

definition published_ranges :: "(range_t \<times> string) list" where
  \<open>published_ranges =
   [(\<lparr>range_first = 0, range_last = 0, range_policy = ''Reserved''\<rparr>,
      ''Permanently reserved by the encoding. Never assignable.''),
    (\<lparr>range_first = 1, range_last = 63, range_policy = ''MCL Standards Action''\<rparr>,
      ''The one-byte-key range. Scarce by construction: 63 values exist and each one that is spent is spent forever, because stable identifiers are never reused. An assignment here must show that the extension is domain-general, needed at first contact, and needed on a byte-scarce transport. Wanting a short identifier is not a reason to receive one.''),
    (\<lparr>range_first = 64, range_last = 8191, range_policy = ''MCL Standards Action''\<rparr>,
      ''The ordinary Standards Action range. Same review as above without the scarcity argument.''),
    (\<lparr>range_first = 8192, range_last = 1048575, range_policy = ''Specification Required''\<rparr>,
      ''Interoperable extensions that need not become part of Core. Requires a permanent public specification, designated technical review, clear wire semantics, defined compatibility and failure behaviour, and at least one conformance vector.''),
    (\<lparr>range_first = 1048576, range_last = 2097151, range_policy = ''Experimental Use''\<rparr>,
      ''Research and local experiments. No stability and no global uniqueness are promised, so two experiments MAY collide and neither is wrong. An experimental value MUST NOT be silently promoted to a Stable meaning; promotion receives a new Stable assignment.''),
    (\<lparr>range_first = 2097152, range_last = 4194303, range_policy = ''Private Use''\<rparr>,
      ''Vendor or site-local values, not globally coordinated. MUST NOT be required for baseline MCL interoperability. A deployment that needs two vendors to agree on a private value has misused this range.''),
    (\<lparr>range_first = 4194304, range_last = 2147483647, range_policy = ''Reserved''\<rparr>,
      ''Unallocated. Held so that a future allocation policy has room to be made deliberately rather than by exhaustion of the ranges above.'')]\<close>

definition published_before :: "string list" where
  \<open>published_before =
   [''registry_version'',
    '': '',
    ''0.1-draft'',
    '','' @ [NL] @ '' '',
    ''status'',
    '': '',
    ''provisional'',
    '','' @ [NL] @ '' '',
    ''registry'',
    '': '',
    ''Wire extension identifiers'',
    '','' @ [NL] @ '' '',
    ''specification'',
    '': '',
    ''mcl-wire/spec/tier0-extensions-v0.1.md'',
    '','' @ [NL] @ '' '',
    ''allocation_policy_reference'',
    '': '',
    ''mcl-core/governance/REGISTRY_POLICY.md'',
    '','' @ [NL] @ '' '',
    ''purpose'',
    '': '',
    ''Assigned values for the extension `id` carried in the Tier-0 extension TLV key, which is encoded as (id << 1) | critical. The extension mechanism is implemented, specified and reachable from the public API; this registry is the assignment side of it, which did not exist. An extension mechanism without a registry is a mechanism whose first two independent users collide.'',
    '','' @ [NL] @ '' '',
    ''why_this_exists'',
    '': ['' @ [NL] @ ''  '',
    ''The envelope was frozen before the registry existed. That is the correct order -- there is no point allocating identifiers in a format that might still change -- but it left a gap where the specification described globally unambiguous namespace identification and nothing recorded which identifiers were taken.'',
    '','' @ [NL] @ ''  '',
    ''ZERO STABLE ASSIGNMENTS IS THE EXPECTED STATE FOR v1.0, and is not a defect. No extension has yet demonstrated cross-vendor necessity, and inventing one to populate a table would be inventing it wrongly. What v1.0 requires is that the mechanism and its governance are ready on the day somebody asks.'',
    '','' @ [NL] @ ''  '',
    ''The identifier space is not uniformly priced. The key is a uvarint over (id << 1) | critical, so ids 1..63 cost one byte and ids 64..8191 cost two. On the transport where bytes are scarcest that difference is the whole cost of carrying an extension, so the cheap range is allocated under the strictest policy rather than first-come.'',
    [NL] @ '' ],'' @ [NL] @ '' '',
    ''id_encoding'',
    '': {'' @ [NL] @ ''  '',
    ''field'',
    '': '',
    ''extension id'',
    '','' @ [NL] @ ''  '',
    ''range'',
    '': '',
    ''1 .. 2147483647'',
    '','' @ [NL] @ ''  '',
    ''reserved_zero'',
    '': '',
    ''Zero is permanently reserved so a zeroed buffer can never decode as an extension. This is a property of the encoding, not a policy choice, and cannot be revoked.'',
    '','' @ [NL] @ ''  '',
    ''key_encoding'',
    '': '',
    ''uvarint((id << 1) | critical)'',
    '','' @ [NL] @ ''  '',
    ''cost'',
    '': ['' @ [NL] @ ''   '',
    ''id 1..63        -> 1-byte key'',
    '','' @ [NL] @ ''   '',
    ''id 64..8191     -> 2-byte key'',
    '','' @ [NL] @ ''   '',
    ''id 8192..1048575 -> 3-byte key'',
    [NL] @ ''  ]'' @ [NL] @ '' },'' @ [NL] @ '' '']\<close>

definition published_between :: "string list" where
  \<open>published_between =
   [''assignment_requirements'',
    '': {'' @ [NL] @ ''  '',
    ''note'',
    '': '',
    ''Every entry in `assignments` must carry these fields. Enforced by tools/validate_extension_registry.c rather than by review alone.'',
    '','' @ [NL] @ ''  '',
    ''required'',
    '': ['' @ [NL] @ ''   '',
    ''id'',
    '','' @ [NL] @ ''   '',
    ''name'',
    '','' @ [NL] @ ''   '',
    ''status'',
    '','' @ [NL] @ ''   '',
    ''specification'',
    '','' @ [NL] @ ''   '',
    ''criticality_guidance'',
    '','' @ [NL] @ ''   '',
    ''detail'',
    [NL] @ ''  ],'' @ [NL] @ ''  '',
    ''criticality_guidance'',
    '': '',
    ''Each assignment must state whether a sender SHOULD mark it critical, and what a receiver that does not implement it loses by rejecting the whole object. Criticality is a per-message sender decision, not a property of the identifier -- but an identifier whose designers cannot say what rejecting it costs has not been thought through.'',
    [NL] @ '' },'' @ [NL] @ '' '',
    ''no_reuse'',
    '': '',
    ''A Stable assignment is permanent. A withdrawn assignment leaves a tombstone with status `deprecated` and is never reissued to a different meaning, because a receiver built against the old meaning cannot tell that the number changed hands.'',
    '','' @ [NL] @ '' '',
    ''summary'',
    '': {'' @ [NL] @ ''  '']\<close>

definition published_after :: "string list" where
  \<open>published_after =
   [''note'',
    '': '',
    ''Zero assignments. The mechanism is specified, implemented, vector-tested and reachable; the table is empty because no extension has yet earned a permanent number. That is the intended state at v1.0.'',
    [NL] @ '' },'' @ [NL] @ '' '',
    ''governance'',
    '': {'' @ [NL] @ ''  '',
    ''change_controller'',
    '': '',
    ''The MCL maintainer (the owner of the eight MCL repositories).'',
    '','' @ [NL] @ ''  '',
    ''procedures'',
    '': '',
    ''mcl-core/governance/GOVERNANCE.md section 4 defines application, review, promotion and deprecation for every MCL registry. They are defined once there rather than restated per registry, so they cannot drift apart.'',
    '','' @ [NL] @ ''  '',
    ''application'',
    '': '',
    ''GOVERNANCE.md 4.1 -- an issue naming the registry, requested range, meaning, a permanent specification reference, and the failure behaviour required of a receiver that does not implement it. An application without a specification reference is not an application.'',
    '','' @ [NL] @ ''  '',
    ''review'',
    '': '',
    ''GOVERNANCE.md 4.2'',
    '','' @ [NL] @ ''  '',
    ''promotion'',
    '': '',
    ''GOVERNANCE.md 4.3 -- an Experimental Use value is NEVER relabelled Stable. Promotion assigns a NEW value in the Standards Action range after an independent implementation has interoperated using the experimental one, and re-runs conformance evidence on the final assigned bytes.'',
    '','' @ [NL] @ ''  '',
    ''deprecation'',
    '': '',
    ''GOVERNANCE.md 4.4 -- a retired assignment becomes a permanent tombstone. Its value is never reused and a decoder must refuse it, because a peer that once meant something by that value would otherwise be misread rather than refused.'',
    [NL] @ '' }'' @ [NL] @ ''}'' @ [NL]]\<close>

definition published_registry :: registry_document where
  "published_registry =
     \<lparr>doc_head = ''{'' @ [NL] @ '' '', doc_before = published_before, doc_ranges = published_ranges,
      doc_assignments = [], doc_between = published_between,
      doc_assigned = 0, doc_deprecated = 0, doc_total = 0, doc_after = published_after\<rparr>"

definition stable_sort :: range_sort where
  "stable_sort cmp = sort_key range_first"

lemma stable_sort_contract: "qsort_contract stable_sort"
proof -
  have "sorted_wrt (\<lambda>p q. range_first p \<le> range_first q) (sort_key range_first rs)" for rs
    using sorted_sort_key [of range_first rs] unfolding sorted_map .
  then show ?thesis unfolding qsort_contract_def sorted_by_compare stable_sort_def by simp blast
qed

lemma published_before_plain: "\<forall>s \<in> set published_before. plain s"
  by (simp add: published_before_def plain_def)

lemma published_ranges_ok: "\<forall>e \<in> set published_ranges. range_entry_ok e"
  by (simp add: published_ranges_def plain_def long_int_def)

lemma published_between_ok: "\<forall>s \<in> set published_between. clean s \<and> s \<notin> summary_keys"
  by (simp add: published_between_def)

lemma published_after_clean: "\<forall>s \<in> set published_after. clean s"
  by (simp add: published_after_def)

lemma published_ok: "document_ok published_registry"
  using published_before_plain published_ranges_ok published_between_ok published_after_clean
  unfolding document_ok_def published_registry_def
  by (simp add: long_int_def published_ranges_def published_after_def)

lemma published_length: "length (document_text published_registry) < MAX_FILE_SIZE"
  by (simp add: document_text_def document_strings_def published_registry_def published_before_def
      published_ranges_def published_between_def published_after_def array_text_def array_open_def array_empty_def
      comma_def inner_gap_def outer_gap_def number_def summary_number_def decimal_int_def decimal.simps)

lemma published_partition:
  "partitions_ids (map fst published_ranges)" "zero_reserved (map fst published_ranges)"
proof -
  have "check_partition (map fst published_ranges) = []"
    by (simp add: published_ranges_def check_partition_def check_neighbours_def wrap_long_def upt_rec)
  moreover have "check_partition (map fst published_ranges) = [] \<longleftrightarrow> partitions_ids (map fst published_ranges)"
    by (rule check_partition_OK) (simp_all add: published_ranges_def long_range_def)
  ultimately show "partitions_ids (map fst published_ranges)" by simp
  show "zero_reserved (map fst published_ranges)"
    by (simp add: published_ranges_def zero_reserved_def covers_def)
qed

lemma published_consistent: "registry_consistent (map fst published_ranges) [] 0 0 0"
  using published_partition by (simp add: registry_consistent_def count_assigned_def count_deprecated_def)

section \<open>What the validator decides\<close>

definition tombstone_registry :: registry_document where
  "tombstone_registry = published_registry
     \<lparr>doc_assignments :=
        [(\<lparr>assignment_id = 64, assignment_name = ''lidar.sweep'', assignment_status = ''deprecated''\<rparr>,
          ''none'', ''none'', ''withdrawn'')],
      doc_deprecated := 1, doc_total := 1\<rparr>"

lemma tombstone_ok: "document_ok tombstone_registry"
  using published_ok unfolding document_ok_def tombstone_registry_def
  by (simp add: plain_def bracket_free_def long_int_def)

lemma tombstone_length: "length (document_text tombstone_registry) < MAX_FILE_SIZE"
  by (simp add: tombstone_registry_def document_text_def document_strings_def published_registry_def published_before_def
      published_ranges_def published_between_def published_after_def array_text_def array_open_def array_empty_def
      comma_def inner_gap_def outer_gap_def number_def summary_number_def decimal_int_def decimal.simps)

lemma tombstone_consistent:
  "registry_consistent (map fst (doc_ranges tombstone_registry)) (map fst (doc_assignments tombstone_registry))
     (doc_assigned tombstone_registry) (doc_deprecated tombstone_registry) (doc_total tombstone_registry)"
proof -
  have "assignable (map fst published_ranges) 64"
    by (simp add: assignable_def published_ranges_def covers_def)
  with published_partition show ?thesis
    by (simp add: tombstone_registry_def published_registry_def registry_consistent_def count_assigned_def
        count_deprecated_def)
qed

section \<open>Verdicts\<close>

lemma summary_key_counted:
  assumes "x \<in> set assignments" and "assignment_status x \<in> summary_keys"
    and "declared buf (assignment_status x) = 0"
  shows "check_summary buf assignments \<noteq> []"
proof -
  have "0 < count_deprecated assignments" if "assignment_status x = ''deprecated''"
    using that assms(1) by (auto simp: count_deprecated_def filter_empty_conv intro: bexI [of _ x])
  moreover have "0 < count_assigned assignments" if "assignment_status x = ''assigned''"
    using that assms(1) by (auto simp: count_assigned_def filter_empty_conv intro!: bexI [of _ x])
  moreover have "assignments \<noteq> []" using assms(1) by auto
  ultimately show ?thesis using assms(2,3) by (auto simp: check_summary_def Let_def)
qed

lemma check_registry_summary:
  "check_summary buf (fst (read_assignments buf)) \<noteq> [] \<Longrightarrow> fst (check_registry qsort buf) = 1"
  by (cases "read_assignments buf") (auto simp: check_registry_def Let_def split: option.split prod.split)

lemma document_status_refused:
  assumes "document_ok d" and "e \<in> set (doc_assignments d)" and "assignment_status (fst e) \<in> summary_keys"
  shows "fst (check_registry qsort (document_text d)) = 1"
proof (rule check_registry_summary, rule summary_key_counted)
  show "fst e \<in> set (fst (read_assignments (document_text d)))"
    using document_scanned(2) [OF assms(1)] assms(2) by simp
qed (use declared_at_status [OF assms(1,2) refl assms(3)] assms(3) in simp_all)

text \<open>
  C34: On a document of the published layout, with free texts that the scanner does not search for, the
  program exits with 0 if and only if the registry it states is consistent and no assignment has one of
  the summary's keys \<open>assigned\<close>, \<open>deprecated\<close>, \<open>total\<close> as its status. Consistent means that the ranges
  partition \<open>0..2\<^sup>3\<^sup>1-1\<close> with 0 reserved, every assignment has a distinct identifier of a range that may be
  assigned, and the summary counts what is there. Otherwise it exits with 1. The order in which \<open>qsort\<close>
  leaves equal elements does not matter.
\<close>

theorem registry_document_verdict:
  assumes "qsort_contract qsort" and "document_ok d"
    and "length (document_text d) < MAX_FILE_SIZE" and "fopen path = Some (document_text d)"
  shows "fst (registry_main qsort fopen [program, path]) =
    (if registry_consistent (map fst (doc_ranges d)) (map fst (doc_assignments d))
          (doc_assigned d) (doc_deprecated d) (doc_total d) \<and>
        (\<forall>e \<in> set (doc_assignments d). assignment_status (fst e) \<notin> summary_keys) then 0 else 1)"
proof (cases "\<forall>e \<in> set (doc_assignments d). assignment_status (fst e) \<notin> summary_keys")
  case True
  then show ?thesis
    using document_registry_OK [OF assms(1,2)] document_summary [OF assms(2) True] assms(3,4)
    by (simp add: registry_main_def)
next
  case False
  then show ?thesis
    using document_status_refused [OF assms(2), of _ qsort] assms(3,4) by (auto simp: registry_main_def)
qed

theorem registry_document_verdict_witness:
  "fst (registry_main stable_sort (\<lambda>_. Some (document_text published_registry)) [''validate'', ''extension-ids-v0.1.json'']) = 0 \<and>
   registry_consistent (map fst (doc_ranges tombstone_registry)) (map fst (doc_assignments tombstone_registry))
     (doc_assigned tombstone_registry) (doc_deprecated tombstone_registry) (doc_total tombstone_registry) \<and>
   fst (registry_main stable_sort (\<lambda>_. Some (document_text tombstone_registry)) [''validate'', ''registry.json'']) = 1"
proof -
  have "fst (registry_main stable_sort (\<lambda>_. Some (document_text published_registry))
      [''validate'', ''extension-ids-v0.1.json'']) = 0"
    using registry_document_verdict [OF stable_sort_contract published_ok published_length,
        of "\<lambda>_. Some (document_text published_registry)" "''extension-ids-v0.1.json''" "''validate''"]
      published_consistent
    by (simp add: published_registry_def)
  moreover have "fst (registry_main stable_sort (\<lambda>_. Some (document_text tombstone_registry))
      [''validate'', ''registry.json'']) = 1"
    using registry_document_verdict [OF stable_sort_contract tombstone_ok tombstone_length,
        of "\<lambda>_. Some (document_text tombstone_registry)" "''registry.json''" "''validate''"]
    by (simp add: tombstone_registry_def)
  ultimately show ?thesis using tombstone_consistent by blast
qed

text \<open>
  C37: The summary's counts are read behind the first occurrence of their key in the file. If that
  occurrence is followed, behind the next colon, by a string, as where the status \<open>deprecated\<close> of an
  assignment stands before the summary, the number read is 0, and a file with an assignment of that
  status is refused, whatever its summary says. The file of the witness is refused for nothing else; a
  file that has its summary before the assignments is read as it should be.
\<close>

theorem tombstones_refused:
  assumes "x \<in> set (fst (read_assignments buf))" and "assignment_status x \<in> {''assigned'', ''deprecated'', ''total''}"
    and "find_key buf 0 (assignment_status x) = Some k" and "strchr_from buf k (CHR '':'') = Some colon"
    and "dropWhile is_space (drop (colon + 1) buf) = QUOTE # rest"
    and "length buf < MAX_FILE_SIZE" and "fopen path = Some buf"
  shows "fst (registry_main qsort fopen [program, path]) = 1"
proof -
  have "declared buf (assignment_status x) = 0"
    using assms(3-5) by (simp add: declared_def read_long_after_def strtol_def is_digit_def Let_def)
  from check_registry_summary [OF summary_key_counted [OF assms(1,2) this]] show ?thesis
    using assms(6,7) by (simp add: registry_main_def)
qed

text \<open>Two small files that share their range table, and what the scanner reads of them.\<close>

definition two_ranges :: "range_t list" where
  "two_ranges = [\<lparr>range_first = 0, range_last = 0, range_policy = ''Reserved''\<rparr>,
     \<lparr>range_first = 1, range_last = 2147483647, range_policy = ''Open''\<rparr>]"

definition tombstone_file :: string where
  \<open>tombstone_file = ''{"ranges": [{"first": 0, "last": 0, "policy": "Reserved"}, {"first": 1, "last": 2147483647, "policy": "Open"}], "assignments": [{"id": 64, "name": "n", "status": "deprecated", "specification": "s", "criticality_guidance": "g"}], "summary": {"assigned": 0, "deprecated": 1, "total": 1}}''\<close>

definition bare_file :: string where
  \<open>bare_file = ''{"ranges": [{"first": 0, "last": 0, "policy": "Reserved"}, {"first": 1, "last": 2147483647, "policy": "Open"}], "assignments": [{"id": 64}, {"id": 65, "name": "n", "status": "stable", "specification": "s", "criticality_guidance": "g"}], "summary": {"assigned": 2, "deprecated": 0, "total": 2}}''\<close>

lemma two_ranges_file:
  assumes "length buf < MAX_FILE_SIZE" and "find_key buf 0 ''ranges'' = Some start"
    and "scan_ranges buf (find_key buf start ''assignments'') start [] = (two_ranges, [])"
    and "read_assignments buf = (assignments, [])"
    and "concat (map (check_assignment two_ranges assignments) [0..<length assignments]) = []"
  shows "registry_main stable_sort (\<lambda>_. Some buf) [program, path] =
     (if check_summary buf assignments \<noteq> [] then 1 else 0, check_summary buf assignments)"
proof -
  have "stable_sort compare_ranges two_ranges = two_ranges" by (simp add: stable_sort_def two_ranges_def)
  moreover have "check_table two_ranges = []" unfolding two_ranges_def by code_simp
  moreover have "two_ranges \<noteq> []" by (simp add: two_ranges_def)
  ultimately show ?thesis using assms by (simp add: registry_main_def check_registry_def Let_def)
qed

lemma tombstone_file_scanned:
  "length tombstone_file < MAX_FILE_SIZE" "find_key tombstone_file 0 ''ranges'' = Some 1"
  "find_key tombstone_file 1 ''assignments'' = Some 112"
  "scan_ranges tombstone_file (Some 112) 1 [] = (two_ranges, [])"
  "read_assignments tombstone_file =
     ([\<lparr>assignment_id = 64, assignment_name = ''n'', assignment_status = ''deprecated''\<rparr>], [])"
  "declared tombstone_file ''assigned'' = 0" "declared tombstone_file ''deprecated'' = 0"
  "declared tombstone_file ''total'' = 1"
  by (simp add: tombstone_file_def, code_simp+)

lemma bare_file_scanned:
  "length bare_file < MAX_FILE_SIZE" "find_key bare_file 0 ''ranges'' = Some 1"
  "find_key bare_file 1 ''assignments'' = Some 112"
  "scan_ranges bare_file (Some 112) 1 [] = (two_ranges, [])"
  "read_assignments bare_file =
     ([\<lparr>assignment_id = 64, assignment_name = ''n'', assignment_status = ''stable''\<rparr>,
       \<lparr>assignment_id = 65, assignment_name = ''n'', assignment_status = ''stable''\<rparr>], [])"
  "declared bare_file ''assigned'' = 2" "declared bare_file ''deprecated'' = 0" "declared bare_file ''total'' = 2"
  by (simp add: bare_file_def, code_simp+)

lemma tombstone_file_run:
  "registry_main stable_sort (\<lambda>_. Some tombstone_file) [program, path] = (1, [Summary_deprecated 0 1])"
  using two_ranges_file [OF tombstone_file_scanned(1,2) _ tombstone_file_scanned(5)] tombstone_file_scanned
  by (simp add: check_assignment_def check_range_of_def two_ranges_def check_summary_def count_assigned_def
      count_deprecated_def)

lemma bare_file_run:
  "registry_main stable_sort (\<lambda>_. Some bare_file) [program, path] = (0, [])"
  using two_ranges_file [OF bare_file_scanned(1,2) _ bare_file_scanned(5)] bare_file_scanned
  by (simp add: check_assignment_def check_range_of_def two_ranges_def check_summary_def count_assigned_def
      count_deprecated_def upt_rec)

theorem tombstones_refused_witness:
  "fst (registry_main stable_sort (\<lambda>_. Some tombstone_file) [''validate'', ''registry.json'']) = 1 \<and>
   snd (registry_main stable_sort (\<lambda>_. Some tombstone_file) [''validate'', ''registry.json'']) = [Summary_deprecated 0 1]"
proof -
  let ?x = "\<lparr>assignment_id = 64, assignment_name = ''n'', assignment_status = ''deprecated''\<rparr>"
  have "find_key tombstone_file 0 ''deprecated'' = Some 162" "strchr_from tombstone_file 162 (CHR '':'') = Some 191"
    "dropWhile is_space (drop (191 + 1) tombstone_file) = QUOTE # drop 194 tombstone_file"
    by code_simp+
  from tombstones_refused [of ?x tombstone_file, OF _ _ _ this(2,3) tombstone_file_scanned(1),
      of "\<lambda>_. Some tombstone_file" "''registry.json''" stable_sort "''validate''"] this(1)
  show ?thesis by (simp add: tombstone_file_scanned(5) tombstone_file_run)
qed

section \<open>Required fields\<close>

text \<open>A search that succeeds from some position on succeeds, no later, from an earlier one.\<close>

lemma strstr_earlier:
  assumes "NUL \<notin> set hay" and "strstr needle (drop d hay) = Some i"
  shows "\<exists>j \<le> d + i. strstr needle hay = Some j"
proof (cases "strstr needle hay")
  case None
  then show ?thesis
    using strstr_None [OF None assms(1), of "i + d"] strstr_Some [OF assms(2)] by (simp add: add.commute)
next
  case (Some j)
  have "prefix needle (drop (d + i) hay)" using strstr_Some [OF assms(2)] by (simp add: add.commute)
  then have "j \<le> d + i" using strstr_Some [OF Some] linorder_not_less by blast
  with Some show ?thesis by blast
qed

lemma strchr_earlier:
  assumes "NUL \<notin> set hay" and "strchr c (drop d hay) = Some i"
  shows "\<exists>j \<le> d + i. strchr c hay = Some j"
  using assms
proof (induction hay arbitrary: d)
  case (Cons b bs)
  show ?case
  proof (cases d)
    case 0
    with Cons.prems(2) show ?thesis by simp
  next
    case (Suc e)
    with Cons.IH [of e] Cons.prems show ?thesis by auto
  qed
qed simp

lemma find_key_earlier:
  assumes "NUL \<notin> set buf" and "start \<le> p" and "find_key buf p key = Some q"
  obtains q' where "find_key buf start key = Some q'" "q' \<le> q"
proof -
  have "NUL \<notin> set (drop start buf)" using assms(1) by (auto dest: in_set_dropD)
  moreover have "strstr (quoted_pattern MAX_STR key) (drop (p - start) (drop start buf)) = Some (q - p)"
    "p \<le> q" using assms(2,3) by (auto simp: find_key_def strstr_from_def)
  ultimately obtain j where "j \<le> p - start + (q - p)" "strstr (quoted_pattern MAX_STR key) (drop start buf) = Some j"
    using strstr_earlier by blast
  with \<open>p \<le> q\<close> assms(2) show thesis by (intro that [of "start + j"]) (simp_all add: find_key_def strstr_from_def)
qed

lemma find_key_itself: "find_key buf p key = Some q \<Longrightarrow> find_key buf q key = Some q"
  by (cases "drop q buf")
    (auto simp: find_key_def strstr_from_def add.commute dest!: strstr_Some)

lemma strchr_from_earlier:
  assumes "NUL \<notin> set buf" and "start \<le> p" and "strchr_from buf p c = Some q"
  obtains q' where "strchr_from buf start c = Some q'" "q' \<le> q"
proof -
  have "NUL \<notin> set (drop start buf)" using assms(1) by (auto dest: in_set_dropD)
  moreover have "strchr c (drop (p - start) (drop start buf)) = Some (q - p)"
    "p \<le> q" using assms(2,3) by (auto simp: strchr_from_def)
  ultimately obtain j where "j \<le> p - start + (q - p)" "strchr c (drop start buf) = Some j"
    using strchr_earlier by blast
  with \<open>p \<le> q\<close> assms(2) show thesis by (intro that [of "start + j"]) (simp_all add: strchr_from_def)
qed

lemma read_string_after_earlier:
  assumes "NUL \<notin> set buf" and "start \<le> p" and "read_string_after buf p key cap \<noteq> None"
  shows "read_string_after buf start key cap \<noteq> None"
proof -
  from assms(3) obtain k c q e where later: "find_key buf p key = Some k" "strchr_from buf k (CHR '':'') = Some c"
      "strchr_from buf c QUOTE = Some q" "strchr_from buf (q + 1) QUOTE = Some e"
    by (auto simp: read_string_after_def split: option.splits)
  note earlier = strchr_from_earlier [OF assms(1)]
  obtain k' where k: "find_key buf start key = Some k'" "k' \<le> k"
    using find_key_earlier [OF assms(1,2) later(1)] .
  obtain c' where c: "strchr_from buf k' (CHR '':'') = Some c'" "c' \<le> c" using earlier [OF k(2) later(2)] .
  obtain q' where q: "strchr_from buf c' QUOTE = Some q'" "q' \<le> q" using earlier [OF c(2) later(3)] .
  then have "q' + 1 \<le> q + 1" by simp
  from earlier [OF this later(4)] obtain e' where "strchr_from buf (q' + 1) QUOTE = Some e'" .
  with k(1) c(1) q(1) show ?thesis by (simp add: read_string_after_def Let_def)
qed

definition fields_readable :: "string \<Rightarrow> nat \<Rightarrow> bool" where
  "fields_readable buf p \<longleftrightarrow>
     read_string_after buf p ''name'' MAX_STR \<noteq> None \<and> read_string_after buf p ''status'' MAX_STR \<noteq> None \<and>
     find_key buf p ''specification'' \<noteq> None \<and> find_key buf p ''criticality_guidance'' \<noteq> None"

lemma fields_readable_earlier:
  assumes "NUL \<notin> set buf" and "start \<le> p" and "fields_readable buf p"
  shows "fields_readable buf start"
proof -
  have "find_key buf start key \<noteq> None" if found: "find_key buf p key \<noteq> None" for key
  proof -
    obtain q where "find_key buf p key = Some q" using found by auto
    from find_key_earlier [OF assms(1,2) this] show ?thesis by (metis option.discI)
  qed
  with assms(3) read_string_after_earlier [OF assms(1,2)] show ?thesis
    by (simp add: fields_readable_def)
qed

lemma scan_assignments_problems:
  assumes "NUL \<notin> set buf" and "fields_readable buf p"
    and "\<forall>q. find_key buf (p + 1) ''id'' = Some q \<longrightarrow> stop < q"
  shows "snd (scan_assignments buf stop cursor acc problems) = problems"
  using assms
proof (induction buf stop cursor acc problems rule: scan_assignments.induct)
  case (1 buf stop cursor acc problems)
  show ?case
  proof (cases "length acc < MAX_ASSIGNMENTS \<and> find_key buf cursor ''id'' \<noteq> None \<and>
      the (find_key buf cursor ''id'') \<le> stop \<and> read_long_after buf (the (find_key buf cursor ''id'')) ''id'' \<noteq> None")
    case False
    then show ?thesis by (subst scan_assignments.simps) (auto split: option.split)
  next
    case True
    then obtain entry m where e: "find_key buf cursor ''id'' = Some entry" "read_long_after buf entry ''id'' = Some m"
        "entry \<le> stop" "\<not> entry > stop" "length acc < MAX_ASSIGNMENTS" by auto
    have "entry \<le> p"
    proof (rule ccontr)
      assume "\<not> entry \<le> p"
      moreover have "find_key buf entry ''id'' = Some entry"
        using e(1) by (rule find_key_itself)
      ultimately obtain q where "find_key buf (p + 1) ''id'' = Some q" "q \<le> entry"
        using find_key_earlier [OF "1.prems"(1), of "p + 1" entry] by auto
      with "1.prems"(3) e(3) show False by auto
    qed
    then have "fields_readable buf entry" using fields_readable_earlier "1.prems"(1,2) by blast
    then show ?thesis
      using "1.IH" [OF e(5) e(1) e(4) e(2) refl refl refl refl] "1.prems" e
      by (auto simp add: scan_assignments.simps [of buf stop cursor acc] Let_def fields_readable_def)
  qed
qed

text \<open>A problem that says that an assignment lacks a required field.\<close>

fun missing_field :: "problem \<Rightarrow> bool" where
  "missing_field (Assignment_without_name n) = True"
| "missing_field (Assignment_without_status n) = True"
| "missing_field (Assignment_without_specification n) = True"
| "missing_field (Assignment_without_guidance n) = True"
| "missing_field _ = False"

lemma scan_ranges_problems:
  "snd (scan_ranges buf stop cursor ranges) \<in> {[], [Range_entry_incomplete]}"
proof (induction buf stop cursor ranges rule: scan_ranges.induct)
  case (1 buf stop cursor ranges)
  show ?case
  proof (cases "length ranges < MAX_RANGES \<and> find_key buf cursor ''first'' \<noteq> None \<and>
      \<not> (stop \<noteq> None \<and> the (find_key buf cursor ''first'') > the stop)")
    case False
    then show ?thesis by (subst scan_ranges.simps) (auto split: option.split)
  next
    case True
    then obtain entry where e: "length ranges < MAX_RANGES" "find_key buf cursor ''first'' = Some entry"
        "\<not> (stop \<noteq> None \<and> entry > the stop)" by auto
    show ?thesis
    proof (cases "read_long_after buf entry ''first'' = None \<or> read_long_after buf entry ''last'' = None")
      case True
      with e show ?thesis by (subst scan_ranges.simps) (auto split: option.split)
    next
      case False
      then obtain lo hi where bounds: "read_long_after buf entry ''first'' = Some lo"
        "read_long_after buf entry ''last'' = Some hi" by auto
      then show ?thesis
        using "1.IH" [OF e(1,2,3) refl bounds refl] e bounds by (subst scan_ranges.simps) (simp add: Let_def)
    qed
  qed
qed

lemma check_table_problems:
  assumes "problem \<in> set (check_table ranges)"
  shows "\<not> missing_field problem"
proof -
  have "\<not> missing_field problem" if "problem \<in> set (check_backwards ranges)"
    using that by (auto simp: check_backwards_def split: if_splits)
  moreover have "\<not> missing_field problem" if "problem \<in> set (check_zero_reserved ranges)"
    using that by (auto simp: check_zero_reserved_def split: if_splits)
  moreover have neighbours: "\<not> missing_field problem" if "problem \<in> set (check_neighbours a b)" for a b
    using that by (simp add: check_neighbours_def split: if_splits)
  then have "\<not> missing_field problem" if "problem \<in> set (check_partition ranges)"
    using that unfolding check_partition_def by (fastforce split: if_splits)
  ultimately show ?thesis using assms by (auto simp: check_table_def)
qed

lemma check_assignment_problems:
  "problem \<in> set (check_assignment ranges assignments i) \<Longrightarrow> \<not> missing_field problem"
  unfolding check_assignment_def check_range_of_def Let_def
  by (fastforce split: if_splits option.splits)

lemma check_summary_problems:
  "problem \<in> set (check_summary buf assignments) \<Longrightarrow> \<not> missing_field problem"
  unfolding check_summary_def Let_def by (fastforce split: if_splits)

lemma check_registry_missing_field:
  assumes "snd (read_assignments buf) = []" and "problem \<in> set (snd (check_registry qsort buf))"
  shows "\<not> missing_field problem"
proof (cases "find_key buf 0 ''ranges''")
  case None
  with assms(2) show ?thesis by (simp add: check_registry_def)
next
  case (Some start)
  let ?scanned = "scan_ranges buf (find_key buf start ''assignments'') start []"
  have "snd ?scanned \<in> {[], [Range_entry_incomplete]}" by (rule scan_ranges_problems)
  then show ?thesis
    using assms Some check_table_problems [of problem] check_assignment_problems [of problem]
      check_summary_problems [of problem]
    by (cases ?scanned; cases "read_assignments buf") (auto simp: check_registry_def Let_def split: if_splits)
qed

text \<open>
  C38: The scanner does not stop at the end of an entry. If the four required fields that it looks for can
  be read from some position \<open>p\<close>, in a later entry or behind the array, and no entry of the array starts
  behind \<open>p\<close>, then no entry is reported to lack any of them, whatever the entries contain, and the exit
  code is left to the other checks. In the file of the witness the first entry has an id and nothing
  else, the second has all fields, and the program exits with 0.
\<close>

theorem required_fields_unchecked:
  assumes "NUL \<notin> set buf" and "array_span buf 0 ''assignments'' = Some (first_bracket, last_bracket)"
    and "read_string_after buf p ''name'' MAX_STR \<noteq> None" and "read_string_after buf p ''status'' MAX_STR \<noteq> None"
    and "find_key buf p ''specification'' \<noteq> None" and "find_key buf p ''criticality_guidance'' \<noteq> None"
    and "\<forall>q. find_key buf (p + 1) ''id'' = Some q \<longrightarrow> last_bracket < q"
    and "length buf < MAX_FILE_SIZE" and "fopen path = Some buf"
  shows "snd (read_assignments buf) = [] \<and>
    (\<forall>problem \<in> set (snd (registry_main qsort fopen [program, path])). \<not> missing_field problem)"
proof -
  have "fields_readable buf p" using assms(3-6) by (simp add: fields_readable_def)
  from scan_assignments_problems [OF assms(1) this assms(7)] have none: "snd (read_assignments buf) = []"
    by (simp add: read_assignments_def assms(2))
  with check_registry_missing_field [OF none] show ?thesis
    using assms(8,9) by (auto simp: registry_main_def)
qed

theorem required_fields_unchecked_witness:
  "filter missing_field (snd (registry_main stable_sort (\<lambda>_. Some bare_file) [''validate'', ''registry.json''])) = [] \<and>
   assignment_id (hd (fst (read_assignments bare_file))) = 64 \<and>
   fst (registry_main stable_sort (\<lambda>_. Some bare_file) [''validate'', ''registry.json'']) = 0"
proof -
  have "NUL \<notin> set bare_file" by (simp add: bare_file_def)
  moreover have "array_span bare_file 0 ''assignments'' = Some (127, 234)" by code_simp
  moreover have "read_string_after bare_file 141 ''name'' MAX_STR \<noteq> None" by code_simp
  moreover have "read_string_after bare_file 141 ''status'' MAX_STR \<noteq> None" by code_simp
  moreover have "find_key bare_file 141 ''specification'' \<noteq> None" by code_simp
  moreover have "find_key bare_file 141 ''criticality_guidance'' \<noteq> None" by code_simp
  moreover have "find_key bare_file (141 + 1) ''id'' = None" by code_simp
  ultimately have "filter missing_field (snd (registry_main stable_sort (\<lambda>_. Some bare_file)
      [''validate'', ''registry.json''])) = []"
    unfolding filter_empty_conv
    using required_fields_unchecked [of bare_file 127 234 141 "\<lambda>_. Some bare_file" "''registry.json''" stable_sort "''validate''"]
      bare_file_scanned(1) by simp
  then show ?thesis by (simp add: bare_file_run bare_file_scanned(5))
qed

end
