(* ===== verification/Wire_Extension_Vectors.thy ===== *)
theory Wire_Extension_Vectors
  imports Wire_Scan Wire_Drain
begin

text \<open>
  The validator of the published extension vectors, \<open>tools/validate_extension_vectors.c\<close>: its scanner, the
  hexadecimal decoder, \<open>check_section\<close> and \<open>main\<close>. Each call of \<open>fail\<close> is a pair of the vector's name and
  a value of \<open>vector_problem\<close>; \<open>g_failed\<close> is the number of those. The objects the C code leaves
  uninitialised before it passes them to the codec are the parameters \<open>object0\<close> and \<open>reader0\<close>. What the
  program decides is in \<open>Wire_Extension_Vectors_Spec\<close>.
\<close>

unbundle bit_operations_syntax

section \<open>The scanner\<close>

definition separator :: "char \<Rightarrow> bool" where
  "separator c \<longleftrightarrow> c \<in> {CHR '' '', CHR '':'', CHR 0x09, CHR 0x0A, CHR 0x0D}"

text \<open>
  The loop of \<open>find_string_value\<close>: from one occurrence of the quoted key to the next until one is
  followed by a quote. The result is the position of that quote.
\<close>

function opening_quote :: "string \<Rightarrow> nat \<Rightarrow> string \<Rightarrow> nat \<Rightarrow> nat option" where
  "opening_quote buf limit key p =
     (case strstr_from buf p (QUOTE # key @ [QUOTE]) of
        None \<Rightarrow> None
      | Some hit \<Rightarrow>
          if hit \<ge> limit then None
          else
            let q = skip_while buf limit separator (hit + length key + 2) in
            if q < limit \<and> buf ! q = QUOTE then Some q
            else opening_quote buf limit key q)"
  by pat_completeness auto
termination
proof (relation "measure (\<lambda>(buf, limit, key, p). length buf - p)", simp, goal_cases)
  case (1 buf limit key p hit q)
  then have "p \<le> hit" "prefix (QUOTE # key @ [QUOTE]) (drop hit buf)"
    using strstr_from_Some(1,2) by blast+
  then have "p \<le> hit" "hit + length key + 2 \<le> length buf"
    by (auto dest!: prefix_length_le)
  with 1 show ?case by (simp add: skip_while_def)
qed

declare opening_quote.simps [simp del]

definition find_string_value ::
    "string \<Rightarrow> nat \<Rightarrow> nat \<Rightarrow> string \<Rightarrow> nat \<Rightarrow> (nat \<times> string) option" where
  "find_string_value buf start limit key out_size =
     (if length key + 4 \<ge> 64 then None
      else case opening_quote buf limit key start of
        None \<Rightarrow> None
      | Some q \<Rightarrow>
          let p = skip_while buf limit (\<lambda>c. c \<noteq> QUOTE) (q + 1) in
          if p - (q + 1) \<ge> out_size \<or> p \<ge> limit then None
          else Some (p + 1, c_string (take (p - (q + 1)) (drop (q + 1) buf))))"

section \<open>Hexadecimal\<close>

definition hex_value :: "char \<Rightarrow> int" where
  "hex_value c =
     (let n = of_char c :: int in
      if 48 \<le> n \<and> n \<le> 57 then n - 48
      else if 97 \<le> n \<and> n \<le> 102 then 10 + (n - 97)
      else if 65 \<le> n \<and> n \<le> 70 then 10 + (n - 65)
      else -1)"

fun decode_hex_pairs :: "string \<Rightarrow> u8 list option" where
  "decode_hex_pairs (c # d # cs) =
     (if hex_value c < 0 \<or> hex_value d < 0 then None
      else map_option (\<lambda>bs. word_of_int (push_bit 4 (hex_value c) OR hex_value d) # bs) (decode_hex_pairs cs))"
| "decode_hex_pairs _ = Some []"

definition decode_hex :: "string \<Rightarrow> nat \<Rightarrow> u8 list option" where
  "decode_hex hex capacity =
     (if length hex mod 2 \<noteq> 0 \<or> length hex div 2 > capacity then None else decode_hex_pairs hex)"

definition status_from_name :: "string \<Rightarrow> mcl_wire_status" where
  "status_from_name name =
     (if name = ''TRUNCATED'' then MCL_WIRE_ERR_TRUNCATED
      else if name = ''RANGE'' then MCL_WIRE_ERR_RANGE
      else if name = ''NONCANONICAL'' then MCL_WIRE_ERR_NONCANONICAL
      else if name = ''UNSUPPORTED_SEMANTIC'' then MCL_WIRE_ERR_UNSUPPORTED_SEMANTIC
      else if name = ''BUFFER_TOO_SMALL'' then MCL_WIRE_ERR_BUFFER_TOO_SMALL
      else MCL_WIRE_ERR_INVALID_ARGUMENT)"

section \<open>Checking one vector\<close>

datatype vector_problem =
    Hex_invalid
  | Positive_not_decoded mcl_wire_status
  | Consumed_differs nat nat
  | Declared_size_differs nat nat
  | Reader_rejected mcl_wire_status
  | Expect_missing
  | Negative_status mcl_wire_status mcl_wire_status

text \<open>The loop over the extensions of a decoded block; it gives the status it stops with. The
  \<open>extension\<close> of the C function is not initialised; the reader stores to it before it is used.\<close>

function walk_block :: "mcl_wire_extension_reader \<Rightarrow> mcl_wire_status" where
  "walk_block r =
     (case mcl_wire_extension_reader_next (Some r) (Some no_extension) (Some 0) of
        (st, r', e, h) \<Rightarrow>
          if st \<noteq> MCL_WIRE_OK then st
          else if the h = 0 then MCL_WIRE_OK
          else walk_block (the r'))"
  by pat_completeness auto
termination
  by (relation "measure (\<lambda>r. rdx_size r - rdx_offset r)")
     (auto dest: reader_next_progress [OF sym])

declare walk_block.simps [simp del]

definition declared_size :: "string \<Rightarrow> nat \<Rightarrow> nat \<Rightarrow> nat" where
  "declared_size buf after_name cursor =
     (if find_string_value buf after_name cursor ''size'' 64 = None then
        (case strstr_from buf after_name (QUOTE # ''size'' @ [QUOTE]) of
           None \<Rightarrow> 0
         | Some p \<Rightarrow>
             if p < cursor
             then strtoul (dropWhile (\<lambda>c. c = CHR '' '' \<or> c = CHR '':'') (drop (p + 6) buf))
             else 0)
      else 0)"

definition check_positive ::
    "mcl_wire_tier0 \<Rightarrow> mcl_wire_extension_reader \<Rightarrow> string \<Rightarrow> nat \<Rightarrow> nat \<Rightarrow> u8 list \<Rightarrow> vector_problem list"
  where
  "check_positive object0 reader0 buf after_name cursor bytes =
     (case mcl_wire_tier0_decode_ext (Some bytes) (length bytes) (Some object0) (Some reader0) (Some 0) of
        (status, object, reader, consumed) \<Rightarrow>
          if status \<noteq> MCL_WIRE_OK then [Positive_not_decoded status]
          else if the consumed \<noteq> length bytes then [Consumed_differs (the consumed) (length bytes)]
          else
            let expected_size = declared_size buf after_name cursor in
            if expected_size \<noteq> 0 \<and> expected_size \<noteq> length bytes
            then [Declared_size_differs (length bytes) expected_size]
            else
              let st = walk_block (the reader) in
              if st \<noteq> MCL_WIRE_OK then [Reader_rejected st] else [])"

text \<open>The search for \<open>"decoder"\<close> ends at the next vector's name.\<close>

definition use_plain :: "string \<Rightarrow> nat \<Rightarrow> nat \<Rightarrow> nat \<Rightarrow> bool" where
  "use_plain buf limit after_name cursor =
     (let bound = (case strstr_from buf cursor (QUOTE # ''name'' @ [QUOTE]) of
                     None \<Rightarrow> limit | Some next_name \<Rightarrow> if next_name < limit then next_name else limit)
      in map_option snd (find_string_value buf after_name bound ''decoder'' 64) = Some ''mcl_wire_tier0_decode'')"

definition check_negative ::
    "mcl_wire_tier0 \<Rightarrow> mcl_wire_extension_reader \<Rightarrow> u8 list \<Rightarrow> mcl_wire_status \<Rightarrow> bool \<Rightarrow> vector_problem list"
  where
  "check_negative object0 reader0 bytes wanted plain =
     (let status =
        (if plain then fst (mcl_wire_tier0_decode (Some bytes) (length bytes) (Some object0) (Some 0))
         else fst (mcl_wire_tier0_decode_ext (Some bytes) (length bytes) (Some object0) (Some reader0) (Some 0)))
      in if status \<noteq> wanted then [Negative_status status wanted] else [])"

text \<open>One pass of the loop behind \<open>bytes_hex\<close>: the new cursor and what fails.\<close>

definition check_vector ::
    "mcl_wire_tier0 \<Rightarrow> mcl_wire_extension_reader \<Rightarrow> string \<Rightarrow> nat \<Rightarrow> bool \<Rightarrow> nat \<Rightarrow> nat \<Rightarrow> string \<Rightarrow>
     nat \<times> vector_problem list" where
  "check_vector object0 reader0 buf limit positive after_name cursor hex =
     (case decode_hex hex 512 of
        None \<Rightarrow> (cursor, [Hex_invalid])
      | Some bytes \<Rightarrow>
          if positive then (cursor, check_positive object0 reader0 buf after_name cursor bytes)
          else
            (case find_string_value buf cursor limit ''expect'' 64 of
               None \<Rightarrow> (cursor, [Expect_missing])
             | Some (after_expect, expected) \<Rightarrow>
                 (after_expect,
                  check_negative object0 reader0 bytes (status_from_name expected)
                    (use_plain buf limit after_name after_expect))))"

section \<open>Checking a section\<close>

lemma opening_quote_bounds:
  "opening_quote buf limit key p = Some q \<Longrightarrow> p < q \<and> q < limit"
proof (induction buf limit key p rule: opening_quote.induct)
  case (1 buf limit key p)
  from "1.prems" obtain hit where hit: "strstr_from buf p (QUOTE # key @ [QUOTE]) = Some hit" "hit < limit"
    by (subst (asm) opening_quote.simps) (auto split: option.splits if_splits)
  let ?q = "skip_while buf limit separator (hit + length key + 2)"
  have lower: "p < ?q"
    using strstr_from_Some(1) [OF hit(1)] skip_while_bounds(1) [of "hit + length key + 2" buf limit separator] by simp
  show ?case
  proof (cases "?q < limit \<and> buf ! ?q = QUOTE")
    case True
    with "1.prems" hit lower show ?thesis by (subst (asm) opening_quote.simps) (simp add: Let_def)
  next
    case False
    with "1.prems" hit have "opening_quote buf limit key ?q = Some q"
      by (subst (asm) opening_quote.simps) (auto simp: Let_def)
    with "1.IH" [OF hit(1) _ refl False] hit(2) lower show ?thesis by simp
  qed
qed

lemma find_string_value_bounds:
  assumes "find_string_value buf start limit key out_size = Some (p, s)"
  shows "start < p" "p \<le> limit"
proof -
  obtain q where q: "opening_quote buf limit key start = Some q"
      "skip_while buf limit (\<lambda>c. c \<noteq> QUOTE) (q + 1) < limit" "p = skip_while buf limit (\<lambda>c. c \<noteq> QUOTE) (q + 1) + 1"
    using assms by (auto simp: find_string_value_def Let_def split: option.splits if_splits)
  with opening_quote_bounds [OF q(1)] skip_while_bounds(1) [of "q + 1" buf limit "\<lambda>c. c \<noteq> QUOTE"]
  show "start < p" "p \<le> limit" by simp_all
qed

lemma check_vector_cursor: "cursor \<le> fst (check_vector object0 reader0 buf limit positive after_name cursor hex)"
  using find_string_value_bounds(1) by (auto simp: check_vector_def split: option.split) (metis less_imp_le)

function check_section ::
    "mcl_wire_tier0 \<Rightarrow> mcl_wire_extension_reader \<Rightarrow> string \<Rightarrow> nat \<Rightarrow> bool \<Rightarrow> nat \<Rightarrow>
     nat \<Rightarrow> (string \<times> vector_problem) list \<Rightarrow> nat \<times> (string \<times> vector_problem) list" where
  "check_section object0 reader0 buf limit positive cursor checked failed =
     (case find_string_value buf cursor limit ''name'' 128 of
        None \<Rightarrow> (checked, failed)
      | Some (after_name, name) \<Rightarrow>
          (case find_string_value buf after_name limit ''bytes_hex'' 1024 of
             None \<Rightarrow> (checked, failed)
           | Some (after_hex, hex) \<Rightarrow>
               let result = check_vector object0 reader0 buf limit positive after_name after_hex hex
               in check_section object0 reader0 buf limit positive (fst result) (checked + 1)
                    (failed @ map (\<lambda>problem. (name, problem)) (snd result))))"
  by pat_completeness auto
termination
proof (relation "measure (\<lambda>(object0, reader0, buf, limit, positive, cursor, checked, failed). limit - cursor)",
    simp, goal_cases)
  case (1 object0 reader0 buf limit positive cursor checked failed a after_name name b after_hex hex result)
  then have "cursor < after_name" "after_name < after_hex" "after_hex \<le> limit"
    using find_string_value_bounds by blast+
  with 1 check_vector_cursor [of after_hex object0 reader0 buf limit positive after_name hex] show ?case
    by simp
qed

declare check_section.simps [simp del]

section \<open>The program\<close>

definition extension_vectors_main ::
    "mcl_wire_tier0 \<Rightarrow> mcl_wire_extension_reader \<Rightarrow> (string \<Rightarrow> string option) \<Rightarrow> string list \<Rightarrow>
     int \<times> (string \<times> vector_problem) list" where
  "extension_vectors_main object0 reader0 fopen argv =
     (if length argv < 2 then (2, [])
      else case fopen (argv ! 1) of
        None \<Rightarrow> (2, [])
      | Some file \<Rightarrow>
          let buf = take (MAX_FILE_SIZE - 1) file in
          if length buf = 0 \<or> length buf \<ge> MAX_FILE_SIZE - 1 then (2, [])
          else
            (case (strstr_from buf 0 (QUOTE # ''positive'' @ [QUOTE]), strstr_from buf 0 (QUOTE # ''negative'' @ [QUOTE])) of
               (Some positive_start, Some negative_start) \<Rightarrow>
                 if negative_start \<le> positive_start then (2, [])
                 else
                   (case check_section object0 reader0 buf negative_start True positive_start 0 [] of
                      (checked, failed) \<Rightarrow>
                        (case check_section object0 reader0 buf (length buf) False negative_start checked failed of
                           (checked, failed) \<Rightarrow>
                             if checked = 0 then (2, failed)
                             else (if failed = [] then 0 else 1, failed)))
             | _ \<Rightarrow> (2, [])))"

end
