(* ===== verification/Wire_Extension_Vectors_Spec.thy ===== *)
theory Wire_Extension_Vectors_Spec
  imports Wire_Extension_Vectors Wire_Tier0_Ext_Spec
begin

text \<open>
  What the validator of the extension vectors decides: it exits with 0 if and only if every vector it
  visits holds what its section promises. A positive vector that passes is canonical, and the loop over
  its extensions, which the program runs as a cross-check of the decoder, never fails.
\<close>

unbundle bit_operations_syntax

section \<open>The vectors of a file\<close>

type_synonym scanned_vector = "string \<times> nat \<times> nat \<times> string"

text \<open>The vectors a section visits: the name, the positions behind name and bytes, and the bytes' text.\<close>

function section_vectors ::
    "mcl_wire_tier0 \<Rightarrow> mcl_wire_extension_reader \<Rightarrow> string \<Rightarrow> nat \<Rightarrow> bool \<Rightarrow> nat \<Rightarrow> scanned_vector list" where
  "section_vectors object0 reader0 buf limit positive cursor =
     (case find_string_value buf cursor limit ''name'' 128 of
        None \<Rightarrow> []
      | Some (after_name, name) \<Rightarrow>
          (case find_string_value buf after_name limit ''bytes_hex'' 1024 of
             None \<Rightarrow> []
           | Some (after_hex, hex) \<Rightarrow>
               (name, after_name, after_hex, hex) #
               section_vectors object0 reader0 buf limit positive
                 (fst (check_vector object0 reader0 buf limit positive after_name after_hex hex))))"
  by pat_completeness auto
termination
proof (relation "measure (\<lambda>(object0, reader0, buf, limit, positive, cursor). limit - cursor)", simp, goal_cases)
  case (1 object0 reader0 buf limit positive cursor a after_name name b after_hex hex)
  then have "cursor < after_name" "after_name < after_hex" "after_hex \<le> limit"
    using find_string_value_bounds by blast+
  with 1 check_vector_cursor [of after_hex object0 reader0 buf limit positive after_name hex] show ?case
    by simp
qed

declare section_vectors.simps [simp del]

lemma check_section_vectors:
  "check_section object0 reader0 buf limit positive cursor checked failed =
     (checked + length (section_vectors object0 reader0 buf limit positive cursor),
      failed @ concat (map (\<lambda>(name, after_name, after_hex, hex).
          map (\<lambda>problem. (name, problem))
            (snd (check_vector object0 reader0 buf limit positive after_name after_hex hex)))
        (section_vectors object0 reader0 buf limit positive cursor)))"
proof (induction object0 reader0 buf limit positive cursor checked failed rule: check_section.induct)
  case (1 object0 reader0 buf limit positive cursor checked failed)
  note unfold = check_section.simps [of object0 reader0 buf limit positive cursor checked failed]
    section_vectors.simps [of object0 reader0 buf limit positive cursor]
  show ?case
  proof (cases "find_string_value buf cursor limit ''name'' 128")
    case None
    then show ?thesis by (simp add: unfold Let_def)
  next
    case (Some an)
    obtain after_name name where an: "an = (after_name, name)" by (cases an)
    show ?thesis
    proof (cases "find_string_value buf after_name limit ''bytes_hex'' 1024")
      case None
      with Some an show ?thesis by (simp add: unfold Let_def)
    next
      case (Some ah)
      obtain after_hex hex where ah: "ah = (after_hex, hex)" by (cases ah)
      show ?thesis
        using "1.IH" [OF \<open>find_string_value buf cursor limit _ _ = _\<close> an [symmetric] Some ah [symmetric] refl]
          Some \<open>find_string_value buf cursor limit _ _ = _\<close> an ah
        by (simp add: unfold Let_def)
    qed
  qed
qed

definition file_vectors ::
    "mcl_wire_tier0 \<Rightarrow> mcl_wire_extension_reader \<Rightarrow> string \<Rightarrow> (scanned_vector list \<times> scanned_vector list) option" where
  "file_vectors object0 reader0 buf =
     (case (strstr_from buf 0 (QUOTE # ''positive'' @ [QUOTE]), strstr_from buf 0 (QUOTE # ''negative'' @ [QUOTE])) of
        (Some positive_start, Some negative_start) \<Rightarrow>
          if positive_start < negative_start \<and> length buf < MAX_FILE_SIZE - 1
          then Some (section_vectors object0 reader0 buf negative_start True positive_start,
                     section_vectors object0 reader0 buf (length buf) False negative_start)
          else None
      | _ \<Rightarrow> None)"

section \<open>What a vector promises\<close>

definition canonical_encoding :: "u8 list \<Rightarrow> mcl_wire_tier0 \<Rightarrow> mcl_wire_extension list \<Rightarrow> bool" where
  "canonical_encoding bytes obj es \<longleftrightarrow>
     mcl_wire_tier0_encode_ext (Some obj) (Some es) (length es) (Some (replicate (length bytes) 0))
       (length bytes) (Some 0) = (MCL_WIRE_OK, Some bytes, Some (length bytes))"

text \<open>A positive vector decodes as a whole, without a critical extension, and at major 0 it is canonical.\<close>

definition positive_vector_ok ::
    "mcl_wire_tier0 \<Rightarrow> mcl_wire_extension_reader \<Rightarrow> string \<Rightarrow> scanned_vector \<Rightarrow> bool" where
  "positive_vector_ok object0 reader0 buf = (\<lambda>(name, after_name, after_hex, hex).
     \<exists>bytes obj r es. decode_hex hex 512 = Some bytes \<and>
       mcl_wire_tier0_decode_ext (Some bytes) (length bytes) (Some object0) (Some reader0) (Some 0) =
         (MCL_WIRE_OK, Some obj, Some r, Some (length bytes)) \<and>
       drain_reader r = (MCL_WIRE_OK, es) \<and> list_all (\<lambda>e. ext_critical e = 0) es \<and>
       (wire_major bytes = MCL_WIRE_EXPERIMENTAL_MAJOR \<longrightarrow> canonical_encoding bytes obj es) \<and>
       declared_size buf after_name after_hex \<in> {0, length bytes})"

text \<open>A negative vector is refused, with the status it names, by the decoder it names.\<close>

definition negative_vector_ok ::
    "mcl_wire_tier0 \<Rightarrow> mcl_wire_extension_reader \<Rightarrow> string \<Rightarrow> scanned_vector \<Rightarrow> bool" where
  "negative_vector_ok object0 reader0 buf = (\<lambda>(name, after_name, after_hex, hex).
     \<exists>bytes after_expect expected. decode_hex hex 512 = Some bytes \<and>
       find_string_value buf after_hex (length buf) ''expect'' 64 = Some (after_expect, expected) \<and>
       status_from_name expected \<noteq> MCL_WIRE_OK \<and>
       (if use_plain buf (length buf) after_name after_expect
        then fst (mcl_wire_tier0_decode (Some bytes) (length bytes) (Some object0) (Some 0))
        else fst (mcl_wire_tier0_decode_ext (Some bytes) (length bytes) (Some object0) (Some reader0) (Some 0)))
         = status_from_name expected)"

lemma walk_drain: "walk_block r = fst (drain_reader r)"
proof (induction r rule: walk_block.induct)
  case (1 r)
  obtain st r' e h where step: "mcl_wire_extension_reader_next (Some r) (Some no_extension) (Some 0) = (st, r', e, h)"
    by (cases "mcl_wire_extension_reader_next (Some r) (Some no_extension) (Some 0)")
  show ?case
  proof (cases "st = MCL_WIRE_OK \<and> the h \<noteq> 0")
    case True
    with "1.IH" [OF step [symmetric] refl refl] step show ?thesis
      by (subst walk_block.simps, subst drain_reader.simps) (simp split: prod.split)
  next
    case False
    with step show ?thesis by (subst walk_block.simps, subst drain_reader.simps) auto
  qed
qed

lemma decoded_vector:
  assumes "mcl_wire_tier0_decode_ext (Some bytes) (length bytes) (Some object0) (Some reader0) (Some 0) =
      (MCL_WIRE_OK, object, reader, consumed)" and "the consumed = length bytes"
  shows "\<exists>obj r es. object = Some obj \<and> reader = Some r \<and> consumed = Some (length bytes) \<and>
    drain_reader r = (MCL_WIRE_OK, es) \<and> list_all (\<lambda>e. ext_critical e = 0) es \<and>
    (wire_major bytes = MCL_WIRE_EXPERIMENTAL_MAJOR \<longrightarrow> canonical_encoding bytes obj es)"
proof -
  have run: "mcl_wire_tier0_decode_ext_accept (Some bytes) (length bytes) (Some object0) (Some reader0) None () (Some 0)
      = (MCL_WIRE_OK, object, reader, consumed, ())"
    using assms(1) by (simp add: mcl_wire_tier0_decode_ext_def split: prod.splits)
  obtain obj c where some: "object = Some obj" "consumed = Some c"
    using decode_ext_shape [OF order_refl run] .
  obtain ts rest where dec: "ext_encodable (wire_major bytes) obj ts" "bytes = ext_wire (wire_major bytes) obj ts @ rest"
      "c = length (ext_wire (wire_major bytes) obj ts)" "reader = Some (suffix_reader (ext_suffix ts @ rest) ts)"
      "accept_all None () (rdx_views (suffix_reader (ext_suffix ts @ rest) ts) ts) = (True, ())"
    using decode_ext_OK_bytes [OF order_refl run [unfolded some]] by metis
  obtain r where r: "r = suffix_reader (ext_suffix ts @ rest) ts" by simp
  note drain = drain_ext_wire [OF dec(1), of rest, folded r]
  have rest: "rest = []" using dec(2,3) assms(2) some by (metis append_self_conv length_append add_cancel_right_right length_0_conv option.sel)
  have "canonical_encoding bytes obj (rdx_views r ts)" if "wire_major bytes = 0"
  proof -
    have "mcl_wire_tier0_encode_ext (Some obj) (Some (rdx_views r ts)) (length (rdx_views r ts))
        (Some (replicate (length bytes) 0)) (length bytes) (Some 0) =
      (MCL_WIRE_OK, Some (ext_wire 0 obj ts @ drop (length (ext_wire 0 obj ts)) (replicate (length bytes) 0)),
       Some (length (ext_wire 0 obj ts)))"
      using encode_ext_success [of obj "length (rdx_views r ts)" "rdx_views r ts" "length bytes" "replicate (length bytes) 0" 0]
        drain(2-4) dec(1-3) that rest by simp
    then show ?thesis using dec(2) that rest by (simp add: canonical_encoding_def)
  qed
  moreover have "list_all (\<lambda>e. ext_critical e = 0) (rdx_views r ts)"
    using dec(5) by (simp add: accept_all_none r)
  ultimately show ?thesis using some dec(4) drain(1) r assms(2) by auto
qed

lemma check_positive_OK:
  "snd (check_vector object0 reader0 buf limit True after_name after_hex hex) = [] \<longleftrightarrow>
     positive_vector_ok object0 reader0 buf (name, after_name, after_hex, hex)"
proof (cases "decode_hex hex 512")
  case (Some bytes)
  obtain st object reader consumed where run:
    "mcl_wire_tier0_decode_ext (Some bytes) (length bytes) (Some object0) (Some reader0) (Some 0) = (st, object, reader, consumed)"
    by (cases "mcl_wire_tier0_decode_ext (Some bytes) (length bytes) (Some object0) (Some reader0) (Some 0)")
  show ?thesis
  proof (cases "st = MCL_WIRE_OK \<and> the consumed = length bytes")
    case True
    with decoded_vector [of bytes object0 reader0 object reader consumed] run
    obtain obj r es where "object = Some obj" "reader = Some r" "consumed = Some (length bytes)"
        "drain_reader r = (MCL_WIRE_OK, es)" "list_all (\<lambda>e. ext_critical e = 0) es"
        "wire_major bytes = MCL_WIRE_EXPERIMENTAL_MAJOR \<longrightarrow> canonical_encoding bytes obj es" by auto
    with True Some run show ?thesis
      by (simp add: check_vector_def check_positive_def positive_vector_ok_def Let_def walk_drain)
  next
    case False
    with Some run show ?thesis
      by (auto simp: check_vector_def check_positive_def positive_vector_ok_def)
  qed
qed (simp add: check_vector_def positive_vector_ok_def)

lemma status_from_name_error: "status_from_name name \<noteq> MCL_WIRE_OK"
  by (simp add: status_from_name_def)

lemma check_negative_OK:
  "snd (check_vector object0 reader0 buf (length buf) False after_name after_hex hex) = [] \<longleftrightarrow>
     negative_vector_ok object0 reader0 buf (name, after_name, after_hex, hex)"
  using status_from_name_error
  by (auto simp: check_vector_def check_negative_def negative_vector_ok_def Let_def split: option.split)

text \<open>
  C35: The program exits with 0 on a file if and only if the file fits the buffer and has the section of
  positive vectors before that of negative ones, there is at least one vector, every positive vector
  decodes without a callback to an object with its extensions, as a whole and, at major 0, as the very
  bytes the encoder writes for them, and records that size or none (or 0), and every negative vector
  names an error status and is refused with it by the decoder it names. The cross-check of the reader
  against the decoder never fails.
\<close>

theorem extension_vectors_verdict:
  assumes "fopen path = Some file"
  shows "fst (extension_vectors_main object0 reader0 fopen [program, path]) = 0 \<longleftrightarrow>
    (\<exists>ps ns. file_vectors object0 reader0 file = Some (ps, ns) \<and> ps @ ns \<noteq> [] \<and>
       list_all (positive_vector_ok object0 reader0 file) ps \<and> list_all (negative_vector_ok object0 reader0 file) ns)"
proof (cases "file_vectors object0 reader0 file")
  case None
  then have "fst (extension_vectors_main object0 reader0 fopen [program, path]) = 2"
    using assms by (auto simp: extension_vectors_main_def file_vectors_def Let_def min_def
        split: option.splits if_splits)
  with None show ?thesis by simp
next
  case (Some vs)
  obtain ps ns where vs: "vs = (ps, ns)" by (cases vs)
  obtain pstart nstart where sections: "strstr_from file 0 (QUOTE # ''positive'' @ [QUOTE]) = Some pstart"
      "strstr_from file 0 (QUOTE # ''negative'' @ [QUOTE]) = Some nstart" "pstart < nstart"
      "length file < MAX_FILE_SIZE - 1" "ps = section_vectors object0 reader0 file nstart True pstart"
      "ns = section_vectors object0 reader0 file (length file) False nstart"
    using Some vs by (auto simp: file_vectors_def split: option.splits if_splits)
  have "length file \<noteq> 0" using sections(1) by (auto simp: strstr_from_def)
  then have run: "extension_vectors_main object0 reader0 fopen [program, path] =
      (case check_section object0 reader0 file nstart True pstart 0 [] of (checked, failed) \<Rightarrow>
         (case check_section object0 reader0 file (length file) False nstart checked failed of (checked, failed) \<Rightarrow>
            if checked = 0 then (2, failed) else (if failed = [] then 0 else 1, failed)))"
    using assms sections(1-4) by (simp add: extension_vectors_main_def)
  have "concat (map (\<lambda>(name, after_name, after_hex, hex). map (\<lambda>problem. (name, problem))
      (snd (check_vector object0 reader0 file nstart True after_name after_hex hex))) ps) = []
      \<longleftrightarrow> list_all (positive_vector_ok object0 reader0 file) ps"
    using check_positive_OK [of object0 reader0 "file" nstart] by (auto simp: list_all_iff)
  moreover have "concat (map (\<lambda>(name, after_name, after_hex, hex). map (\<lambda>problem. (name, problem))
      (snd (check_vector object0 reader0 file (length file) False after_name after_hex hex))) ns) = []
      \<longleftrightarrow> list_all (negative_vector_ok object0 reader0 file) ns"
    using check_negative_OK [of object0 reader0 "file"] by (auto simp: list_all_iff)
  ultimately show ?thesis
    using Some vs by (simp add: run check_section_vectors flip: sections(5,6))
qed

definition sample_vectors :: string where
  \<open>sample_vectors = ''{"positive": [{"name": "a", "size": 14, "bytes_hex": "00030000a17c03abcdef3c020200"}], "negative": [{"name": "b", "bytes_hex": "00", "expect": "TRUNCATED"}]}''\<close>

abbreviation sample_reader :: mcl_wire_extension_reader where "sample_reader \<equiv> block_reader [] 0"

lemma sample_sections:
  "length sample_vectors = 157"
  "strstr_from sample_vectors 0 (QUOTE # ''positive'' @ [QUOTE]) = Some 1"
  "strstr_from sample_vectors 0 (QUOTE # ''negative'' @ [QUOTE]) = Some 87"
  by code_simp+

lemma sample_strings:
  "find_string_value sample_vectors 1 87 ''name'' 128 = Some (26, ''a'')"
  "find_string_value sample_vectors 26 87 ''bytes_hex'' 1024 = Some (83, ''00030000a17c03abcdef3c020200'')"
  "find_string_value sample_vectors 83 87 ''name'' 128 = None"
  "find_string_value sample_vectors 87 157 ''name'' 128 = Some (112, ''b'')"
  "find_string_value sample_vectors 112 157 ''bytes_hex'' 1024 = Some (131, ''00'')"
  "find_string_value sample_vectors 131 157 ''expect'' 64 = Some (154, ''TRUNCATED'')"
  "find_string_value sample_vectors 154 157 ''name'' 128 = None"
  "find_string_value sample_vectors 26 83 ''size'' 64 = None"
  "strstr_from sample_vectors 26 (QUOTE # ''size'' @ [QUOTE]) = Some 28"
  "use_plain sample_vectors 157 112 154 = False"
  by code_simp+

lemma sample_size: "declared_size sample_vectors 26 83 = 14"
proof -
  have "drop 34 sample_vectors = '': 14, '' @ drop 40 sample_vectors" by code_simp
  then show ?thesis
    unfolding declared_size_def sample_strings(8,9)
    by (simp add: strtoul_def is_space_def is_digit_def digit_value_def)
qed

lemma sample_hex: "decode_hex ''00030000a17c03abcdef3c020200'' 512 =
    Some [0x00, 0x03, 0x00, 0x00, 0xa1, 0x7c, 0x03, 0xab, 0xcd, 0xef, 0x3c, 0x02, 0x02, 0x00]"
  "decode_hex ''00'' 512 = Some [0]"
  by (simp_all add: decode_hex_def hex_value_def)

lemma sample_decoded:
  "case mcl_wire_tier0_decode_ext (Some [0x00, 0x03, 0x00, 0x00, 0xa1, 0x7c, 0x03, 0xab, 0xcd, 0xef, 0x3c, 0x02, 0x02, 0x00]) 14
     (Some zero_object) (Some sample_reader) (Some 0) of
   (st, obj, r, c) \<Rightarrow> st = MCL_WIRE_OK \<and> c = Some 14 \<and> walk_block (the r) = MCL_WIRE_OK"
  by code_simp

lemma sample_refused:
  "fst (mcl_wire_tier0_decode_ext (Some [0]) 1 (Some zero_object) (Some sample_reader) (Some 0)) = MCL_WIRE_ERR_TRUNCATED"
  by code_simp

lemma sample_checks:
  "check_vector zero_object sample_reader sample_vectors 87 True 26 83 ''00030000a17c03abcdef3c020200'' = (83, [])"
  "check_vector zero_object sample_reader sample_vectors 157 False 112 131 ''00'' = (154, [])"
proof -
  obtain bytes :: "u8 list" where bytes:
    "bytes = [0x00, 0x03, 0x00, 0x00, 0xa1, 0x7c, 0x03, 0xab, 0xcd, 0xef, 0x3c, 0x02, 0x02, 0x00]" by simp
  then have length: "length bytes = 14" by simp
  obtain st obj r c where run: "mcl_wire_tier0_decode_ext (Some bytes) 14 (Some zero_object) (Some sample_reader) (Some 0)
      = (st, obj, r, c)"
    by (cases "mcl_wire_tier0_decode_ext (Some bytes) 14 (Some zero_object) (Some sample_reader) (Some 0)")
  then show "check_vector zero_object sample_reader sample_vectors 87 True 26 83 ''00030000a17c03abcdef3c020200'' = (83, [])"
    using sample_decoded [folded bytes] unfolding check_vector_def check_positive_def sample_hex [folded bytes]
    by (simp add: length sample_size)
  have "length [0 :: u8] = 1" by simp
  then show "check_vector zero_object sample_reader sample_vectors 157 False 112 131 ''00'' = (154, [])"
    unfolding check_vector_def check_negative_def sample_hex sample_strings
    using sample_refused by (simp add: sample_strings status_from_name_def)
qed

theorem extension_vectors_verdict_witness:
  "fst (extension_vectors_main zero_object sample_reader (\<lambda>_. Some sample_vectors) [''validate'', ''vectors.json'']) = 0"
proof -
  let ?p = "(''a'', 26, 83, ''00030000a17c03abcdef3c020200'')" and ?n = "(''b'', 112, 131, ''00'')"
  have "section_vectors zero_object sample_reader sample_vectors 87 True 1 = [?p]"
    by (subst section_vectors.simps, subst (1) section_vectors.simps) (simp add: sample_strings [unfolded One_nat_def] sample_checks)
  moreover have "section_vectors zero_object sample_reader sample_vectors 157 False 87 = [?n]"
    by (subst section_vectors.simps, subst (1) section_vectors.simps) (simp add: sample_strings [unfolded One_nat_def] sample_checks)
  ultimately have "file_vectors zero_object sample_reader sample_vectors = Some ([?p], [?n])"
    unfolding file_vectors_def sample_sections by simp
  moreover have "positive_vector_ok zero_object sample_reader sample_vectors ?p"
    using check_positive_OK [of zero_object sample_reader sample_vectors 87 26 83] sample_checks(1) by simp
  moreover have "negative_vector_ok zero_object sample_reader sample_vectors ?n"
    using check_negative_OK [of zero_object sample_reader sample_vectors 112 131] sample_checks(2)
    by (simp add: sample_sections)
  ultimately show ?thesis
    using extension_vectors_verdict [of "\<lambda>_. Some sample_vectors" "''vectors.json''" sample_vectors zero_object
        sample_reader "''validate''"]
    by simp
qed

end
