(* ===== verification/Wire_Major1_Vectors.thy ===== *)
theory Wire_Major1_Vectors
  imports Wire_Scan Wire_Tier0
begin

text \<open>
  The validator of the major-1 vectors, \<open>tools/validate_major1_vectors.c\<close>: its scanner, \<open>from_hex\<close>,
  \<open>check_field\<close> and \<open>main\<close>. \<open>(size_t)-1\<close> is \<open>None\<close>. Each message \<open>FAIL\<close> is a value of \<open>major1_problem\<close>;
  \<open>g_failures\<close> is their number, and \<open>g_checks\<close>, which is printed only, is left out. The object the C code
  leaves uninitialised before decoding is the parameter \<open>object0\<close>. What the program decides is in
  \<open>Wire_Major1_Vectors_Spec\<close>.
\<close>

unbundle bit_operations_syntax

section \<open>The scanner\<close>

definition find_from :: "string \<Rightarrow> string \<Rightarrow> nat \<Rightarrow> nat option" where
  "find_from buf needle start =
     (if start \<ge> length buf then None else strstr_from buf start needle)"

text \<open>The position of the opening quote behind a key; a comma or a brace before it ends the search.\<close>

definition value_quote :: "string \<Rightarrow> nat \<Rightarrow> nat option" where
  "value_quote buf p =
     (let q = skip_while buf (length buf) (\<lambda>c. c \<noteq> QUOTE \<and> c \<noteq> CHR '','' \<and> c \<noteq> CHR ''}'') p
      in if q < length buf \<and> buf ! q = QUOTE then Some q else None)"

definition read_string :: "string \<Rightarrow> string \<Rightarrow> nat \<Rightarrow> nat \<Rightarrow> nat \<Rightarrow> string option" where
  "read_string buf key start limit out_size =
     (let pattern = quoted_pattern 64 key in
      case find_from buf pattern start of
        None \<Rightarrow> None
      | Some pos \<Rightarrow>
          if pos > limit then None
          else
            (case value_quote buf (pos + length pattern) of
               None \<Rightarrow> None
             | Some q \<Rightarrow>
                 Some (c_string (take (out_size - 1) (takeWhile (\<lambda>c. c \<noteq> QUOTE) (drop (q + 1) buf))))))"

definition read_number :: "string \<Rightarrow> string \<Rightarrow> nat \<Rightarrow> nat \<Rightarrow> nat option" where
  "read_number buf key start limit =
     (let pattern = quoted_pattern 64 key in
      case find_from buf pattern start of
        None \<Rightarrow> None
      | Some pos \<Rightarrow>
          if pos > limit then None
          else
            let p = skip_while buf (length buf) (\<lambda>c. c = CHR '':'' \<or> c = CHR '' '') (pos + length pattern)
            in if p \<ge> length buf \<or> \<not> is_digit (buf ! p) then None else Some (strtoul (drop p buf)))"

section \<open>Hexadecimal\<close>

definition xdigit_value :: "char \<Rightarrow> int option" where
  "xdigit_value c =
     (let n = of_char c :: int in
      if 48 \<le> n \<and> n \<le> 57 then Some (n - 48)
      else if 97 \<le> n \<and> n \<le> 102 then Some (n - 87)
      else if 65 \<le> n \<and> n \<le> 70 then Some (n - 55)
      else None)"

text \<open>
  \<open>sscanf(s, "%2x", &value)\<close>: white space is skipped, then at most two characters are read as a number
  that \<open>strtoul\<close> takes, with its sign and its prefix; \<open>0x\<close> alone is no number (ISO C; some libraries read it as 0).
\<close>

definition sscanf_2x :: "string \<Rightarrow> int option" where
  "sscanf_2x s =
     (case dropWhile is_space s of
        [] \<Rightarrow> None
      | [c] \<Rightarrow> xdigit_value c
      | c # d # _ \<Rightarrow>
          if c = CHR ''+'' then xdigit_value d
          else if c = CHR ''-'' then map_option uminus (xdigit_value d)
          else if c = CHR ''0'' \<and> (d = CHR ''x'' \<or> d = CHR ''X'') then None
          else (case xdigit_value c of
                  None \<Rightarrow> None
                | Some v \<Rightarrow> (case xdigit_value d of None \<Rightarrow> Some v | Some w \<Rightarrow> Some (16 * v + w))))"

fun from_hex_loop :: "string \<Rightarrow> u8 list option" where
  "from_hex_loop (c # d # cs) =
     (case sscanf_2x (c # d # cs) of
        None \<Rightarrow> None
      | Some v \<Rightarrow> map_option (\<lambda>bs. word_of_int v # bs) (from_hex_loop cs))"
| "from_hex_loop _ = Some []"

text \<open>The bytes stored; the length 0, which a failure returns, is the empty list.\<close>

definition from_hex :: "string \<Rightarrow> nat \<Rightarrow> u8 list" where
  "from_hex s capacity =
     (if length s mod 2 \<noteq> 0 \<or> length s div 2 > capacity then []
      else case from_hex_loop s of None \<Rightarrow> [] | Some bs \<Rightarrow> bs)"

section \<open>Checking the fields of an object\<close>

datatype major1_problem =
    No_negative_vectors
  | No_hex string
  | Unreadable_hex string
  | Length_disagrees string
  | Does_not_decode string
  | Bytes_left string nat nat
  | No_fields string
  | Field_not_recorded string string
  | Field_differs string string nat nat
  | Machine_class_present string
  | Not_stable string
  | Negative_accepted string

definition check_recorded_field ::
    "string \<Rightarrow> string \<Rightarrow> string \<Rightarrow> nat \<Rightarrow> nat \<Rightarrow> nat \<Rightarrow> major1_problem list" where
  "check_recorded_field buf object field block_start block_end actual =
     (case read_number buf field block_start block_end of
        None \<Rightarrow> [Field_not_recorded object field]
      | Some expected \<Rightarrow> if expected \<noteq> actual then [Field_differs object field actual expected] else [])"

text \<open>The fields the switch over the kind compares, in its order; \<open>None\<close> where the kind is not Stable.\<close>

definition stable_fields :: "mcl_wire_tier0 \<Rightarrow> (string \<times> nat) list option" where
  "stable_fields obj =
     (let body = obj_body obj in
      if obj_kind obj = MCL_WIRE_KIND_PRESENCE then
        Some [(''capability_tag'', unat (presence_capability_tag (body_presence body))),
              (''ttl'', unat (presence_ttl (body_presence body)))]
      else if obj_kind obj = MCL_WIRE_KIND_TRANSPORT_OFFER then
        Some [(''migration_ref'', unat (transport_offer_migration_ref (body_transport_offer body))),
              (''transport_id'', unat (transport_offer_transport_id (body_transport_offer body))),
              (''profile_id'', unat (transport_offer_profile_id (body_transport_offer body))),
              (''endpoint_token'', unat (transport_offer_endpoint_token (body_transport_offer body))),
              (''validity'', unat (transport_offer_validity (body_transport_offer body)))]
      else if obj_kind obj = MCL_WIRE_KIND_TRANSPORT_ACCEPT then
        Some [(''migration_ref'', unat (transport_accept_migration_ref (body_transport_accept body))),
              (''transport_id'', unat (transport_accept_transport_id (body_transport_accept body))),
              (''profile_id'', unat (transport_accept_profile_id (body_transport_accept body))),
              (''session_ref'', unat (transport_accept_session_ref (body_transport_accept body)))]
      else None)"

definition check_fields :: "string \<Rightarrow> string \<Rightarrow> nat \<Rightarrow> nat \<Rightarrow> mcl_wire_tier0 \<Rightarrow> major1_problem list" where
  "check_fields buf name fields_pos block_end obj =
     (let check = (\<lambda>(field, actual). check_recorded_field buf name field fields_pos block_end actual) in
      check (''priority'', unat (obj_priority obj)) @ check (''source_ref'', unat (obj_source_ref obj)) @
      (case stable_fields obj of
         None \<Rightarrow> [Not_stable name]
       | Some fs \<Rightarrow>
           concat (map check fs) @
           (if obj_kind obj = MCL_WIRE_KIND_PRESENCE \<and>
               presence_machine_class (body_presence (obj_body obj)) \<noteq> 0
            then [Machine_class_present name] else [])))"

section \<open>Checking one vector\<close>

definition check_decoded ::
    "mcl_wire_tier0 \<Rightarrow> string \<Rightarrow> string \<Rightarrow> nat \<Rightarrow> nat \<Rightarrow> u8 list \<Rightarrow> major1_problem list" where
  "check_decoded object0 buf name name_pos block_end bytes =
     (case mcl_wire_tier0_decode (Some bytes) (length bytes) (Some object0) (Some 0) of
        (status, obj, consumed) \<Rightarrow>
          if status \<noteq> MCL_WIRE_OK then [Does_not_decode name]
          else
            (if the consumed \<noteq> length bytes then [Bytes_left name (the consumed) (length bytes)] else []) @
            (case find_from buf (QUOTE # ''fields'' @ [QUOTE]) name_pos of
               None \<Rightarrow> [No_fields name]
             | Some fields_pos \<Rightarrow>
                 if fields_pos > block_end then [No_fields name]
                 else check_fields buf name fields_pos block_end (the obj)))"

text \<open>Whether the vector counts, and what fails.\<close>

definition check_positive_vector ::
    "mcl_wire_tier0 \<Rightarrow> string \<Rightarrow> string \<Rightarrow> nat \<Rightarrow> nat \<Rightarrow> nat \<times> major1_problem list" where
  "check_positive_vector object0 buf name name_pos block_end =
     (case read_string buf ''hex'' name_pos block_end 256 of
        None \<Rightarrow> (0, [No_hex name])
      | Some hex \<Rightarrow>
          let bytes = from_hex hex 64 in
          if length bytes = 0 then (1, [Unreadable_hex name])
          else
            (1,
             (if read_number buf ''length'' name_pos block_end \<noteq> Some (length bytes)
              then [Length_disagrees name] else []) @
             check_decoded object0 buf name name_pos block_end bytes))"

definition check_negative_vector ::
    "mcl_wire_tier0 \<Rightarrow> string \<Rightarrow> string \<Rightarrow> nat \<Rightarrow> nat \<Rightarrow> nat \<times> major1_problem list" where
  "check_negative_vector object0 buf name name_pos block_end =
     (case read_string buf ''hex'' name_pos block_end 256 of
        None \<Rightarrow> (0, [])
      | Some hex \<Rightarrow>
          let bytes = from_hex hex 64 in
          if length bytes = 0 then (1, [Unreadable_hex name])
          else
            (case mcl_wire_tier0_decode (Some bytes) (length bytes) (Some object0) (Some 0) of
               (status, obj, consumed) \<Rightarrow>
                 (1, if status = MCL_WIRE_OK \<and> the consumed = length bytes
                     then [Negative_accepted name] else [])))"

section \<open>The loops over the vectors\<close>

text \<open>\<open>read_string("name", name_pos - 1u, name_pos + 64u, ..)\<close>: the search starts in front of the key.\<close>

definition read_name :: "string \<Rightarrow> nat \<Rightarrow> string option" where
  "read_name buf name_pos =
     (if name_pos = 0 then None else read_string buf ''name'' (name_pos - 1) (name_pos + 64) 64)"

definition name_key :: string where
  "name_key = QUOTE # ''name'' @ [QUOTE]"

lemma find_from_bounds:
  assumes "find_from buf name_key p = Some q"
  shows "p \<le> q" "q + 6 \<le> length buf"
proof -
  have hit: "strstr_from buf p name_key = Some q"
    using assms by (simp add: find_from_def split: if_splits)
  show "p \<le> q" using strstr_from_Some(1) [OF hit] .
  show "q + 6 \<le> length buf"
    using strstr_from_Some(2) [OF hit] by (auto simp: name_key_def dest!: prefix_length_le)
qed

function positive_loop ::
    "mcl_wire_tier0 \<Rightarrow> string \<Rightarrow> nat \<Rightarrow> nat \<Rightarrow> nat \<Rightarrow> major1_problem list \<Rightarrow> nat \<times> major1_problem list" where
  "positive_loop object0 buf negatives_start pos positives problems =
     (case find_from buf name_key pos of
        None \<Rightarrow> (positives, problems)
      | Some name_pos \<Rightarrow>
          if name_pos > negatives_start then (positives, problems)
          else
            (case read_name buf name_pos of
               None \<Rightarrow> (positives, problems)
             | Some name \<Rightarrow>
                 let block_end = (case find_from buf name_key (name_pos + 6) of
                                    None \<Rightarrow> negatives_start
                                  | Some q \<Rightarrow> if q > negatives_start then negatives_start else q);
                     result = check_positive_vector object0 buf name name_pos block_end
                 in positive_loop object0 buf negatives_start (name_pos + 6) (positives + fst result)
                      (problems @ snd result)))"
  by pat_completeness auto
termination
proof (relation "measure (\<lambda>(object0, buf, negatives_start, pos, positives, problems). length buf - pos)",
    simp, goal_cases)
  case (1 object0 buf negatives_start pos positives problems name_pos)
  then show ?case using find_from_bounds [of buf pos name_pos] by simp
qed

declare positive_loop.simps [simp del]

function negative_loop ::
    "mcl_wire_tier0 \<Rightarrow> string \<Rightarrow> nat \<Rightarrow> nat \<Rightarrow> major1_problem list \<Rightarrow> nat \<times> major1_problem list" where
  "negative_loop object0 buf pos negatives problems =
     (case find_from buf name_key pos of
        None \<Rightarrow> (negatives, problems)
      | Some name_pos \<Rightarrow>
          (case read_name buf name_pos of
             None \<Rightarrow> (negatives, problems)
           | Some name \<Rightarrow>
               let block_end = (case find_from buf name_key (name_pos + 6) of
                                  None \<Rightarrow> length buf | Some q \<Rightarrow> q);
                   result = check_negative_vector object0 buf name name_pos block_end
               in negative_loop object0 buf (name_pos + 6) (negatives + fst result) (problems @ snd result)))"
  by pat_completeness auto
termination
proof (relation "measure (\<lambda>(object0, buf, pos, negatives, problems). length buf - pos)", simp, goal_cases)
  case (1 object0 buf pos negatives problems name_pos)
  then show ?case using find_from_bounds [of buf pos name_pos] by simp
qed

declare negative_loop.simps [simp del]

section \<open>The program\<close>

definition major1_vectors_main ::
    "mcl_wire_tier0 \<Rightarrow> (string \<Rightarrow> string option) \<Rightarrow> string list \<Rightarrow> int \<times> major1_problem list" where
  "major1_vectors_main object0 fopen argv =
     (let path = (if length argv > 1 then argv ! 1 else ''conformance/vectors/tier0-major1-v1.0.json'') in
      case fopen path of
        None \<Rightarrow> (1, [])
      | Some file \<Rightarrow>
          let buf = take (MAX_FILE_SIZE - 1) file;
              negatives = find_from buf (QUOTE # ''negative_vectors'' @ [QUOTE]) 0;
              missing = (if negatives = None then [No_negative_vectors] else []);
              negatives_start = (case negatives of None \<Rightarrow> length buf | Some p \<Rightarrow> p)
          in case find_from buf (QUOTE # ''vectors'' @ [QUOTE]) 0 of
               None \<Rightarrow> (1, missing)
             | Some pos \<Rightarrow>
                 (case positive_loop object0 buf negatives_start pos 0 missing of
                    (positives, problems) \<Rightarrow>
                      (case negative_loop object0 buf negatives_start 0 problems of
                         (negatives, problems) \<Rightarrow>
                           (if positives = 0 then 1
                            else if negatives = 0 then 1
                            else if problems = [] then 0 else 1, problems))))"

end
