(* ===== verification/Wire_Major1_Vectors_Spec.thy ===== *)
theory Wire_Major1_Vectors_Spec
  imports Wire_Major1_Vectors Wire_Tier0_Spec
begin

text \<open>
  What the validator of the major-1 vectors decides: it exits with 0 if and only if every positive vector
  is the exact encoding of the Stable object whose fields it records, and every negative vector is refused.
  The major of a positive vector is not looked at.
\<close>

unbundle bit_operations_syntax

section \<open>The vectors of a file\<close>

text \<open>The vectors a loop visits: the name, its position, and where the vector ends.\<close>

function vector_blocks :: "string \<Rightarrow> nat \<Rightarrow> nat \<Rightarrow> (string \<times> nat \<times> nat) list" where
  "vector_blocks buf stop pos =
     (case find_from buf name_key pos of
        None \<Rightarrow> []
      | Some name_pos \<Rightarrow>
          if name_pos > stop then []
          else
            (case read_name buf name_pos of
               None \<Rightarrow> []
             | Some name \<Rightarrow>
                 (name, name_pos,
                  case find_from buf name_key (name_pos + 6) of None \<Rightarrow> stop | Some q \<Rightarrow> min q stop) #
                 vector_blocks buf stop (name_pos + 6)))"
  by pat_completeness auto
termination
proof (relation "measure (\<lambda>(buf, stop, pos). length buf - pos)", simp, goal_cases)
  case (1 buf stop pos name_pos)
  then show ?case using find_from_bounds [of buf pos name_pos] by simp
qed

declare vector_blocks.simps [simp del]

lemma positive_loop_blocks:
  "positive_loop object0 buf stop pos n problems =
     (n + sum_list (map (\<lambda>(name, p, e). fst (check_positive_vector object0 buf name p e)) (vector_blocks buf stop pos)),
      problems @ concat (map (\<lambda>(name, p, e). snd (check_positive_vector object0 buf name p e)) (vector_blocks buf stop pos)))"
proof (induction object0 buf stop pos n problems rule: positive_loop.induct)
  case (1 object0 buf stop pos n problems)
  note unfold = positive_loop.simps [of object0 buf stop pos n problems] vector_blocks.simps [of buf stop pos]
  show ?case
  proof (cases "find_from buf name_key pos")
    case None
    then show ?thesis by (simp add: unfold)
  next
    case (Some p)
    show ?thesis
    proof (cases "p > stop \<or> read_name buf p = None")
      case True
      with Some show ?thesis by (auto simp: unfold)
    next
      case False
      then obtain name where name: "read_name buf p = Some name" "\<not> p > stop" by auto
      have "(case find_from buf name_key (p + 6) of None \<Rightarrow> stop | Some q \<Rightarrow> if q > stop then stop else q) =
          (case find_from buf name_key (p + 6) of None \<Rightarrow> stop | Some q \<Rightarrow> min q stop)"
        by (auto split: option.split)
      with "1.IH" [OF Some name(2,1) refl refl] Some name show ?thesis by (simp add: unfold Let_def)
    qed
  qed
qed

lemma negative_loop_blocks:
  "negative_loop object0 buf pos n problems =
     (n + sum_list (map (\<lambda>(name, p, e). fst (check_negative_vector object0 buf name p e)) (vector_blocks buf (length buf) pos)),
      problems @ concat (map (\<lambda>(name, p, e). snd (check_negative_vector object0 buf name p e)) (vector_blocks buf (length buf) pos)))"
proof (induction object0 buf pos n problems rule: negative_loop.induct)
  case (1 object0 buf pos n problems)
  note unfold = negative_loop.simps [of object0 buf pos n problems] vector_blocks.simps [of buf "length buf" pos]
  show ?case
  proof (cases "find_from buf name_key pos")
    case None
    then show ?thesis by (simp add: unfold)
  next
    case (Some p)
    then have p: "p \<le> length buf" using find_from_bounds(2) by force
    show ?thesis
    proof (cases "read_name buf p")
      case None
      with Some p show ?thesis by (simp add: unfold)
    next
      case name: (Some name)
      have "(case find_from buf name_key (p + 6) of None \<Rightarrow> length buf | Some q \<Rightarrow> q) =
          (case find_from buf name_key (p + 6) of None \<Rightarrow> length buf | Some q \<Rightarrow> min q (length buf))"
        using find_from_bounds(2) by (force split: option.split)
      with "1.IH" [OF Some name refl refl] Some name p show ?thesis by (simp add: unfold Let_def)
    qed
  qed
qed

section \<open>What a vector promises\<close>

text \<open>The fields a positive vector has to record: those of a Stable object, with their values.\<close>

definition recorded_fields :: "mcl_wire_tier0 \<Rightarrow> (string \<times> nat) list option" where
  "recorded_fields obj =
     map_option (\<lambda>fs. [(''priority'', unat (obj_priority obj)), (''source_ref'', unat (obj_source_ref obj))] @ fs)
       (stable_fields obj)"

definition positive_vector_holds :: "mcl_wire_tier0 \<Rightarrow> string \<Rightarrow> string \<times> nat \<times> nat \<Rightarrow> bool" where
  "positive_vector_holds object0 buf = (\<lambda>(name, start, stop).
     \<exists>hex bytes obj fields_pos fs.
       read_string buf ''hex'' start stop 256 = Some hex \<and> bytes = from_hex hex 64 \<and>
       read_number buf ''length'' start stop = Some (length bytes) \<and>
       mcl_wire_tier0_decode (Some bytes) (length bytes) (Some object0) (Some 0) =
         (MCL_WIRE_OK, Some obj, Some (length bytes)) \<and>
       mcl_wire_tier0_encode_at_major (drop_bit 4 (bytes ! 0)) (Some obj) (Some (replicate (length bytes) 0))
           (length bytes) (Some 0) = (MCL_WIRE_OK, Some bytes, Some (length bytes)) \<and>
       find_from buf (QUOTE # ''fields'' @ [QUOTE]) start = Some fields_pos \<and> fields_pos \<le> stop \<and>
       recorded_fields obj = Some fs \<and>
       list_all (\<lambda>(field, v). read_number buf field fields_pos stop = Some v) fs \<and>
       (obj_kind obj = MCL_WIRE_KIND_PRESENCE \<longrightarrow> presence_machine_class (body_presence (obj_body obj)) = 0))"

definition negative_vector_holds :: "mcl_wire_tier0 \<Rightarrow> string \<Rightarrow> string \<times> nat \<times> nat \<Rightarrow> bool" where
  "negative_vector_holds object0 buf = (\<lambda>(name, start, stop).
     \<forall>hex. read_string buf ''hex'' start stop 256 = Some hex \<longrightarrow>
       (let bytes = from_hex hex 64 in
        bytes \<noteq> [] \<and>
        (\<nexists>obj. mcl_wire_tier0_decode (Some bytes) (length bytes) (Some object0) (Some 0) =
           (MCL_WIRE_OK, Some obj, Some (length bytes)))))"

definition carries_bytes :: "string \<Rightarrow> string \<times> nat \<times> nat \<Rightarrow> bool" where
  "carries_bytes buf = (\<lambda>(name, start, stop). read_string buf ''hex'' start stop 256 \<noteq> None)"

lemma decode_some:
  assumes "mcl_wire_tier0_decode (Some bs) n (Some o0) (Some c0) = (st, obj, c)"
  shows "\<exists>o1 c1. obj = Some o1 \<and> c = Some c1"
  using assms
  by (auto simp: mcl_wire_tier0_decode_def mcl_wire_tier0_decode_body_def Let_def split: if_splits prod.splits)

lemma check_recorded_field_OK:
  "check_recorded_field buf name field p q v = [] \<longleftrightarrow> read_number buf field p q = Some v"
  by (auto simp: check_recorded_field_def split: option.split)

lemma check_fields_OK:
  "check_fields buf name p q obj = [] \<longleftrightarrow>
     (\<exists>fs. recorded_fields obj = Some fs \<and> list_all (\<lambda>(field, v). read_number buf field p q = Some v) fs) \<and>
     (obj_kind obj = MCL_WIRE_KIND_PRESENCE \<longrightarrow> presence_machine_class (body_presence (obj_body obj)) = 0)"
  by (auto simp: check_fields_def Let_def recorded_fields_def check_recorded_field_OK list_all_iff split: option.split)

lemma decode_empty: "fst (mcl_wire_tier0_decode (Some []) 0 (Some o0) (Some c0)) \<noteq> MCL_WIRE_OK"
  by (simp add: mcl_wire_tier0_decode_def)

lemma check_positive_vector_OK:
  "snd (check_positive_vector object0 buf name p e) = [] \<longleftrightarrow> positive_vector_holds object0 buf (name, p, e)"
proof (cases "read_string buf ''hex'' p e 256")
  case (Some hex)
  obtain bytes where bytes: "bytes = from_hex hex 64" by simp
  obtain st obj c where run: "mcl_wire_tier0_decode (Some bytes) (length bytes) (Some object0) (Some 0) = (st, obj, c)"
    by (cases "mcl_wire_tier0_decode (Some bytes) (length bytes) (Some object0) (Some 0)")
  obtain o1 c1 where some: "obj = Some o1" "c = Some c1" using decode_some [OF run] by blast
  show ?thesis
  proof (cases "bytes \<noteq> [] \<and> st = MCL_WIRE_OK \<and> c1 = length bytes")
    case True
    then have "mcl_wire_tier0_encode_at_major (drop_bit 4 (bytes ! 0)) (Some o1) (Some (replicate (length bytes) 0))
        (length bytes) (Some 0) = (MCL_WIRE_OK, Some bytes, Some (length bytes))"
      using decode_reencodes [OF order_refl, of bytes object0 0 o1 c1 "length bytes" "replicate (length bytes) 0" 0]
        run some by simp
    with True Some run some show ?thesis
      by (auto simp: check_positive_vector_def check_decoded_def positive_vector_holds_def Let_def check_fields_OK
          simp flip: bytes split: option.splits)
  next
    case False
    with Some run some show ?thesis
      using decode_empty [of object0 0]
      by (auto simp: check_positive_vector_def check_decoded_def positive_vector_holds_def Let_def
          simp flip: bytes split: option.splits if_splits)
  qed
qed (simp add: check_positive_vector_def positive_vector_holds_def)

lemma check_negative_vector_OK:
  "snd (check_negative_vector object0 buf name p e) = [] \<longleftrightarrow> negative_vector_holds object0 buf (name, p, e)"
proof (cases "read_string buf ''hex'' p e 256")
  case (Some hex)
  obtain bytes where bytes: "bytes = from_hex hex 64" by simp
  obtain st obj c where run: "mcl_wire_tier0_decode (Some bytes) (length bytes) (Some object0) (Some 0) = (st, obj, c)"
    by (cases "mcl_wire_tier0_decode (Some bytes) (length bytes) (Some object0) (Some 0)")
  obtain o1 c1 where some: "obj = Some o1" "c = Some c1" using decode_some [OF run] by blast
  show ?thesis
    using Some run some
    by (auto simp: check_negative_vector_def negative_vector_holds_def Let_def simp flip: bytes)
qed (simp add: check_negative_vector_def negative_vector_holds_def)

section \<open>The verdict\<close>

lemma negative_count:
  "0 < sum_list (map (\<lambda>(name, p, e). fst (check_negative_vector object0 buf name p e)) vs) \<longleftrightarrow>
     list_ex (carries_bytes buf) vs"
proof -
  have "fst (check_negative_vector object0 buf name p e) = (if carries_bytes buf (name, p, e) then 1 else 0)" for name p e
    by (auto simp: check_negative_vector_def carries_bytes_def Let_def split: option.split prod.split)
  then show ?thesis by (induction vs) auto
qed

lemma positive_count:
  "list_all (positive_vector_holds object0 buf) vs \<Longrightarrow>
     sum_list (map (\<lambda>(name, p, e). fst (check_positive_vector object0 buf name p e)) vs) = length vs"
  by (induction vs) (auto simp: positive_vector_holds_def check_positive_vector_def Let_def)

text \<open>
  C36: The program exits with 0 on a file if and only if the file has both lists, there is a positive vector,
  every positive vector is the exact encoding, at the major of its bytes, of a Stable object whose fields
  and length it records, there is a negative vector with a byte string, and every such byte string can be
  read and does not decode as a whole. A negative vector that decodes and leaves bytes over is not
  refused. The major of a positive vector is not required to be 1: the file of the witness passes with a
  major-0 object.
\<close>

theorem major1_vectors_verdict:
  assumes "fopen path = Some buf" and "length buf < MAX_FILE_SIZE"
  shows "fst (major1_vectors_main object0 fopen [program, path]) = 0 \<longleftrightarrow>
    (\<exists>negatives positives.
       find_from buf (QUOTE # ''negative_vectors'' @ [QUOTE]) 0 = Some negatives \<and>
       find_from buf (QUOTE # ''vectors'' @ [QUOTE]) 0 = Some positives \<and>
       vector_blocks buf negatives positives \<noteq> [] \<and>
       list_all (positive_vector_holds object0 buf) (vector_blocks buf negatives positives) \<and>
       list_ex (carries_bytes buf) (vector_blocks buf (length buf) negatives) \<and>
       list_all (negative_vector_holds object0 buf) (vector_blocks buf (length buf) negatives))"
proof (cases "find_from buf (QUOTE # ''negative_vectors'' @ [QUOTE]) 0")
  case None
  with assms show ?thesis
    by (auto simp: major1_vectors_main_def Let_def positive_loop_blocks negative_loop_blocks split: option.split)
next
  case neg: (Some n)
  show ?thesis
  proof (cases "find_from buf (QUOTE # ''vectors'' @ [QUOTE]) 0")
    case None
    with neg assms show ?thesis by (simp add: major1_vectors_main_def Let_def)
  next
    case pos: (Some p)
    let ?ps = "vector_blocks buf n p" and ?ns = "vector_blocks buf (length buf) n"
    obtain cp P cn N where loops:
      "cp = sum_list (map (\<lambda>(name, p, e). fst (check_positive_vector object0 buf name p e)) ?ps)"
      "P = concat (map (\<lambda>(name, p, e). snd (check_positive_vector object0 buf name p e)) ?ps)"
      "cn = sum_list (map (\<lambda>(name, p, e). fst (check_negative_vector object0 buf name p e)) ?ns)"
      "N = concat (map (\<lambda>(name, p, e). snd (check_negative_vector object0 buf name p e)) ?ns)" by simp
    have positives: "P = [] \<longleftrightarrow> list_all (positive_vector_holds object0 buf) ?ps"
      using check_positive_vector_OK [of object0 buf] by (auto simp: list_all_iff loops)
    have negatives: "N = [] \<longleftrightarrow> list_all (negative_vector_holds object0 buf) ?ns"
      using check_negative_vector_OK [of object0 buf] by (auto simp: list_all_iff loops)
    have counts: "0 < cn \<longleftrightarrow> list_ex (carries_bytes buf) ?ns"
        "list_all (positive_vector_holds object0 buf) ?ps \<Longrightarrow> cp = length ?ps"
      unfolding loops by (rule negative_count, rule positive_count)
    have "positive_loop object0 buf n p 0 [] = (cp, P)" "negative_loop object0 buf n 0 P = (cn, P @ N)"
      unfolding positive_loop_blocks negative_loop_blocks loops by simp_all
    then have "fst (major1_vectors_main object0 fopen [program, path]) = 0 \<longleftrightarrow>
        cp \<noteq> 0 \<and> 0 < cn \<and> P = [] \<and> N = []"
      using assms neg pos by (simp add: major1_vectors_main_def Let_def)
    also have "\<dots> \<longleftrightarrow> ?ps \<noteq> [] \<and> list_ex (carries_bytes buf) ?ns \<and>
        list_all (positive_vector_holds object0 buf) ?ps \<and> list_all (negative_vector_holds object0 buf) ?ns"
      using positives negatives counts by auto
    finally show ?thesis using neg pos by auto
  qed
qed

text \<open>An offer of major 0 as the positive vector, and a truncated one as the negative.\<close>

definition major1_sample :: string where
  \<open>major1_sample = ''{"vectors": [{"name": "OFFER", "length": 17, "hex": "0800000000010000000207080000000900", "fields": {"major": 1, "priority": 0, "source_ref": 1, "migration_ref": 2, "transport_id": 7, "profile_id": 8, "endpoint_token": 9, "validity": 0}}], "negative_vectors": [{"name": "SHORT", "hex": "08"}]}''\<close>

lemma major1_positions:
  "find_from major1_sample (QUOTE # ''negative_vectors'' @ [QUOTE]) 0 = Some 240"
  "find_from major1_sample (QUOTE # ''vectors'' @ [QUOTE]) 0 = Some 1"
  "find_from major1_sample name_key 1 = Some 14"
  "find_from major1_sample name_key 20 = Some 262"
  "find_from major1_sample name_key 240 = Some 262"
  "find_from major1_sample name_key 268 = None"
  "read_name major1_sample 14 = Some ''OFFER''"
  "read_name major1_sample 262 = Some ''SHORT''"
  "length major1_sample = 293"
  by code_simp+

lemma major1_strings:
  "read_string major1_sample ''hex'' 14 240 256 = Some ''0800000000010000000207080000000900''"
  "read_number major1_sample ''length'' 14 240 = Some 17"
  "read_string major1_sample ''hex'' 262 293 256 = Some ''08''"
  by code_simp+

lemma major1_major: "read_number major1_sample ''major'' 90 240 = Some 1"
  by code_simp

lemma major1_bytes:
  "from_hex ''0800000000010000000207080000000900'' 64 = [8, 0, 0, 0, 0, 1, 0, 0, 0, 2, 7, 8, 0, 0, 0, 9, 0]"
  "from_hex ''08'' 64 = [8]"
  by code_simp+

lemma major1_decoded:
  "check_decoded zero_object major1_sample ''OFFER'' 14 240
     [8, 0, 0, 0, 0, 1, 0, 0, 0, 2, 7, 8, 0, 0, 0, 9, 0] = []"
  by code_simp

lemma major1_refused: "fst (mcl_wire_tier0_decode (Some [8]) 1 (Some zero_object) (Some 0)) \<noteq> MCL_WIRE_OK"
  by code_simp

lemma major1_positive: "check_positive_vector zero_object major1_sample ''OFFER'' 14 240 = (1, [])"
  by (simp add: check_positive_vector_def major1_strings major1_bytes major1_decoded)

lemma major1_negative: "check_negative_vector zero_object major1_sample ''SHORT'' 262 293 = (1, [])"
  using major1_refused
  by (auto simp: check_negative_vector_def major1_strings major1_bytes split: prod.split)

lemma major1_blocks:
  "vector_blocks major1_sample 240 1 = [(''OFFER'', 14, 240)]"
  "vector_blocks major1_sample 293 240 = [(''SHORT'', 262, 293)]"
proof -
  have last: "vector_blocks major1_sample stop 268 = []" for stop
    by (subst vector_blocks.simps) (simp add: major1_positions)
  have "vector_blocks major1_sample 240 20 = []"
    by (subst vector_blocks.simps) (simp add: major1_positions)
  then show "vector_blocks major1_sample 240 1 = [(''OFFER'', 14, 240)]"
    unfolding vector_blocks.simps [of major1_sample 240 1] major1_positions by (simp add: major1_positions)
  show "vector_blocks major1_sample 293 240 = [(''SHORT'', 262, 293)]"
    unfolding vector_blocks.simps [of major1_sample 293 240] major1_positions by (simp add: major1_positions last)
qed

theorem major1_vectors_verdict_witness:
  "fst (major1_vectors_main zero_object (\<lambda>_. Some major1_sample) [''validate'', ''vectors.json'']) = 0 \<and>
   read_number major1_sample ''major'' 90 240 = Some 1 \<and>
   read_string major1_sample ''hex'' 14 240 256 = Some ''0800000000010000000207080000000900''"
proof -
  have size: "length major1_sample < MAX_FILE_SIZE" by (simp add: major1_positions)
  have "positive_vector_holds zero_object major1_sample (''OFFER'', 14, 240)"
      "negative_vector_holds zero_object major1_sample (''SHORT'', 262, 293)"
    using check_positive_vector_OK major1_positive check_negative_vector_OK major1_negative by (metis snd_conv)+
  moreover have "carries_bytes major1_sample (''SHORT'', 262, 293)" by (simp add: carries_bytes_def major1_strings)
  ultimately have "\<exists>negatives positives. negatives = 240 \<and> positives = 1 \<and>
      vector_blocks major1_sample negatives positives \<noteq> [] \<and>
      list_all (positive_vector_holds zero_object major1_sample) (vector_blocks major1_sample negatives positives) \<and>
      list_ex (carries_bytes major1_sample) (vector_blocks major1_sample (length major1_sample) negatives) \<and>
      list_all (negative_vector_holds zero_object major1_sample)
        (vector_blocks major1_sample (length major1_sample) negatives)"
    unfolding ex_simps simp_thms major1_positions major1_blocks by simp
  then show ?thesis
    using major1_vectors_verdict [where fopen = "\<lambda>_. Some major1_sample" and buf = major1_sample, OF refl size]
    unfolding major1_positions option.inject major1_strings by (simp only: major1_major) metis
qed

end
