(* ===== verification/Wire_Bench.thy ===== *)
theory Wire_Bench
  imports Wire_Scan Wire_Tier0 "HOL-Library.Monad_Syntax"
begin

text \<open>
  The size benchmark, \<open>benchmarks/benchmark_source.c\<close>: its parser of events, the sizes of an event as compact
  JSON, as CBOR and as protobuf, \<open>populate_object\<close> and \<open>main\<close>. A pointer between \<open>p\<close> and \<open>end\<close> is the
  list of the bytes from \<open>p\<close> up to \<open>end\<close>. \<open>int64_t\<close> values are integers, each checked to be in range where it is
  stored; \<open>uint64_t\<close> magnitudes are words. A failed \<open>BENCH_REQUIRE\<close> ends the process: it is \<open>None\<close> in a
  helper and the exit code 1 of \<open>main\<close>. What the program decides is in \<open>Wire_Bench_Spec\<close>.
\<close>

unbundle bit_operations_syntax

section \<open>Data\<close>

type_synonym u64 = "64 word"

abbreviation (input) MCL_BENCH_FILE_CAPACITY :: nat where "MCL_BENCH_FILE_CAPACITY \<equiv> 16384"
abbreviation (input) MCL_BENCH_MAX_FIELDS :: nat where "MCL_BENCH_MAX_FIELDS \<equiv> 16"
abbreviation (input) MCL_BENCH_MAX_KEY :: nat where "MCL_BENCH_MAX_KEY \<equiv> 32"
abbreviation (input) INT64_MAX :: u64 where "INT64_MAX \<equiv> 0x7FFFFFFFFFFFFFFF"
abbreviation (input) EXIT_FAILURE :: int where "EXIT_FAILURE \<equiv> 1"

record bench_field_t =
  bench_key :: string
  bench_value :: int

text \<open>The first \<open>count\<close> fields.\<close>

type_synonym bench_event_t = "bench_field_t list"

record field_info_t =
  info_name :: string
  info_protobuf_number :: u8
  info_protobuf_signed :: u8

abbreviation (input) info :: "string \<Rightarrow> u8 \<Rightarrow> u8 \<Rightarrow> field_info_t" where
  "info n k s \<equiv> \<lparr>info_name = n, info_protobuf_number = k, info_protobuf_signed = s\<rparr>"

definition field_info :: "field_info_t list" where
  "field_info =
     [info ''type'' 1 0, info ''priority'' 2 0, info ''source_ref'' 3 0,
      info ''machine_class'' 4 0, info ''capability_tag'' 5 0, info ''ttl'' 6 0,
      info ''hazard_class'' 7 0, info ''severity'' 8 0, info ''confidence'' 9 0,
      info ''x'' 10 1, info ''y'' 11 1, info ''z'' 12 1, info ''radius'' 13 0,
      info ''request_class'' 14 0, info ''target_ref'' 15 0,
      info ''authority_class'' 16 0, info ''jurisdiction'' 17 0,
      info ''credential_ref'' 18 0, info ''validity'' 19 0,
      info ''affected_capability'' 20 0, info ''health'' 21 0,
      info ''transport_id'' 23 0, info ''profile_id'' 24 0, info ''endpoint_token'' 25 0]"

definition lookup_field :: "string \<Rightarrow> field_info_t option" where
  "lookup_field name = List.find (\<lambda>i. name = info_name i) field_info"

definition get_bench_field :: "bench_event_t \<Rightarrow> string \<Rightarrow> bench_field_t option" where
  "get_bench_field event name = List.find (\<lambda>f. bench_key f = name) event"

definition require_value :: "bench_event_t \<Rightarrow> string \<Rightarrow> int option" where
  "require_value event name = map_option bench_value (get_bench_field event name)"

section \<open>Parsing an event\<close>

definition skip_ws :: "string \<Rightarrow> string" where
  "skip_ws p = dropWhile is_space p"

text \<open>The characters of a string up to its closing quote, and what follows that.\<close>

fun parse_characters :: "string \<Rightarrow> nat \<Rightarrow> nat \<Rightarrow> (string \<times> string) option" where
  "parse_characters [] n out_size = None"
| "parse_characters (c # p) n out_size =
     (if c = QUOTE then Some ([], p)
      else if c = CHR 0x5C \<or> n + 1 \<ge> out_size then None
      else map_option (\<lambda>(out, p). (c # out, p)) (parse_characters p (n + 1) out_size))"

definition parse_string :: "string \<Rightarrow> nat \<Rightarrow> (string \<times> string) option" where
  "parse_string p out_size =
     (case skip_ws p of
        [] \<Rightarrow> None
      | c # p \<Rightarrow>
          if c \<noteq> QUOTE then None
          else map_option (\<lambda>(out, p). (c_string out, p)) (parse_characters p 0 out_size))"

fun parse_digits :: "string \<Rightarrow> u64 \<Rightarrow> u64 \<times> string" where
  "parse_digits [] magnitude = (magnitude, [])"
| "parse_digits (c # p) magnitude =
     (if is_digit c then parse_digits p (magnitude * 10 + word_of_int (digit_value c)) else (magnitude, c # p))"

definition parse_integer :: "string \<Rightarrow> (int \<times> string) option" where
  "parse_integer p =
     (let p = skip_ws p;
          (negative, p) = (case p of c # q \<Rightarrow> if c = CHR ''-'' then (True, q) else (False, p) | [] \<Rightarrow> (False, p))
      in case p of
           [] \<Rightarrow> None
         | c # _ \<Rightarrow>
             if \<not> is_digit c then None
             else
               let (magnitude, p) = parse_digits p 0 in
               if negative then
                 (if magnitude > 9223372036854775808 then None
                  else if magnitude = 9223372036854775808 then Some (- 0x8000000000000000, p)
                  else Some (- uint magnitude, p))
               else if magnitude > INT64_MAX then None
               else Some (uint magnitude, p))"

text \<open>The \<open>for (;;)\<close> loop of \<open>parse_event\<close>; each round adds a field or ends it.\<close>

function parse_fields :: "string \<Rightarrow> bench_event_t \<Rightarrow> (bench_event_t \<times> string) option" where
  "parse_fields p event =
     (let p = skip_ws p in
      if p \<noteq> [] \<and> hd p = CHR ''}'' then Some (event, tl p)
      else if length event \<ge> MCL_BENCH_MAX_FIELDS then None
      else do {
        (key, p) \<leftarrow> parse_string p MCL_BENCH_MAX_KEY;
        lookup_field key;
        let p = skip_ws p;
        if p = [] \<or> hd p \<noteq> CHR '':'' then None
        else do {
          (v, p) \<leftarrow> parse_integer (tl p);
          let event = event @ [\<lparr>bench_key = key, bench_value = v\<rparr>];
          let p = skip_ws p;
          if p = [] then None
          else if hd p = CHR '','' then parse_fields (tl p) event
          else if hd p = CHR ''}'' then Some (event, tl p)
          else None
        }
      })"
  by pat_completeness auto
termination
  by (relation "measure (\<lambda>(p, event). MCL_BENCH_MAX_FIELDS - length event)") auto

declare parse_fields.simps [simp del]

definition parse_event :: "string \<Rightarrow> (bench_event_t \<times> string) option" where
  "parse_event p =
     (let p = skip_ws p in
      if p = [] \<or> hd p \<noteq> CHR ''{'' then None else parse_fields (tl p) [])"

section \<open>The size of an event in four formats\<close>

function decimal_size_loop :: "u64 \<Rightarrow> nat \<Rightarrow> nat" where
  "decimal_size_loop magnitude sz =
     (if magnitude \<ge> 10 then decimal_size_loop (magnitude div 10) (sz + 1) else sz)"
  by pat_completeness auto
termination
  by (relation "measure (\<lambda>(magnitude, _). unat magnitude)") (auto simp: unat_div word_le_nat_alt)

declare decimal_size_loop.simps [simp del]

definition decimal_size :: "int \<Rightarrow> nat" where
  "decimal_size v =
     (if v < 0 then decimal_size_loop (word_of_int (- (v + 1)) + 1) 2
      else decimal_size_loop (word_of_int v) 1)"

definition cbor_head_size :: "u64 \<Rightarrow> nat" where
  "cbor_head_size v =
     (if v < 24 then 1 else if v \<le> 0xFF then 2 else if v \<le> 0xFFFF then 3 else if v \<le> 0xFFFFFFFF then 5 else 9)"

definition cbor_int_size :: "int \<Rightarrow> nat" where
  "cbor_int_size v = cbor_head_size (if v \<ge> 0 then word_of_int v else word_of_int (- (v + 1)))"

definition cbor_text_size :: "string \<Rightarrow> nat" where
  "cbor_text_size s = (let len = length s in cbor_head_size (of_nat len) + len)"

function varint_size_loop :: "u64 \<Rightarrow> nat \<Rightarrow> nat" where
  "varint_size_loop v sz = (if v \<ge> 0x80 then varint_size_loop (drop_bit 7 v) (sz + 1) else sz)"
  by pat_completeness auto
termination
  by (relation "measure (\<lambda>(v, _). unat v)") (auto simp: drop_bit_eq_div unat_div word_le_nat_alt)

declare varint_size_loop.simps [simp del]

definition varint_size :: "u64 \<Rightarrow> nat" where
  "varint_size v = varint_size_loop v 1"

definition zigzag32 :: "int \<Rightarrow> u64" where
  "zigzag32 v =
     (let narrowed = (word_of_int v :: s32) in
      if sint narrowed < 0 then (let magnitude = - narrowed in ucast (push_bit 1 magnitude - 1))
      else ucast (push_bit 1 narrowed))"

definition json_size :: "bench_event_t \<Rightarrow> nat" where
  "json_size event =
     fold (\<lambda>i sz.
         let sz = (if i \<noteq> 0 then sz + 1 else sz)
         in sz + (2 + length (bench_key (event ! i)) + 1 + decimal_size (bench_value (event ! i))))
       [0..<length event] 2"

fun cbor_fields_size :: "bench_event_t \<Rightarrow> int \<Rightarrow> nat \<Rightarrow> nat option" where
  "cbor_fields_size [] integer_keys sz = Some sz"
| "cbor_fields_size (f # fs) integer_keys sz = do {
     i \<leftarrow> lookup_field (bench_key f);
     let sz = sz + (if integer_keys \<noteq> 0 then cbor_head_size (ucast (info_protobuf_number i))
                    else cbor_text_size (info_name i));
     cbor_fields_size fs integer_keys (sz + cbor_int_size (bench_value f))
   }"

definition cbor_size :: "bench_event_t \<Rightarrow> int \<Rightarrow> nat option" where
  "cbor_size event integer_keys = cbor_fields_size event integer_keys (cbor_head_size (of_nat (length event)))"

fun protobuf_fields_size :: "bench_event_t \<Rightarrow> nat \<Rightarrow> nat option" where
  "protobuf_fields_size [] sz = Some sz"
| "protobuf_fields_size (f # fs) sz = do {
     i \<leftarrow> lookup_field (bench_key f);
     if bench_value f = 0 then protobuf_fields_size fs sz
     else
       let sz = sz + varint_size (ucast (push_bit 3 (ucast (info_protobuf_number i) :: u32)));
           v = (if info_protobuf_signed i \<noteq> 0 then zigzag32 (bench_value f) else word_of_int (bench_value f))
       in protobuf_fields_size fs (sz + varint_size v)
   }"

definition protobuf_size :: "bench_event_t \<Rightarrow> nat option" where
  "protobuf_size event = protobuf_fields_size event 0"

section \<open>The object of an event\<close>

text \<open>The \<open>switch\<close> of \<open>populate_object\<close>: the body member of the kind, with the casts of the C code.\<close>

definition populate_body :: "bench_event_t \<Rightarrow> mcl_wire_kind \<Rightarrow> (mcl_wire_body \<Rightarrow> mcl_wire_body) option" where
  "populate_body event kind =
     (if kind = MCL_WIRE_KIND_PRESENCE then do {
        a \<leftarrow> require_value event ''machine_class'';
        b \<leftarrow> require_value event ''capability_tag'';
        c \<leftarrow> require_value event ''ttl'';
        Some (body_presence_update (\<lambda>_. \<lparr>presence_machine_class = word_of_int a,
          presence_capability_tag = word_of_int b, presence_ttl = word_of_int c\<rparr>))
      }
      else if kind = MCL_WIRE_KIND_HAZARD then do {
        a \<leftarrow> require_value event ''hazard_class'';
        b \<leftarrow> require_value event ''severity'';
        c \<leftarrow> require_value event ''confidence'';
        x \<leftarrow> require_value event ''x'';
        y \<leftarrow> require_value event ''y'';
        z \<leftarrow> require_value event ''z'';
        r \<leftarrow> require_value event ''radius'';
        t \<leftarrow> require_value event ''ttl'';
        Some (body_hazard_update (\<lambda>_. \<lparr>hazard_hazard_class = word_of_int a, hazard_severity = word_of_int b,
          hazard_confidence = word_of_int c, hazard_x = word_of_int x, hazard_y = word_of_int y,
          hazard_z = word_of_int z, hazard_radius = word_of_int r, hazard_ttl = word_of_int t\<rparr>))
      }
      else if kind = MCL_WIRE_KIND_REQUEST then do {
        a \<leftarrow> require_value event ''request_class'';
        b \<leftarrow> require_value event ''target_ref'';
        x \<leftarrow> require_value event ''x'';
        y \<leftarrow> require_value event ''y'';
        r \<leftarrow> require_value event ''radius'';
        t \<leftarrow> require_value event ''ttl'';
        Some (body_request_update (\<lambda>_. \<lparr>request_request_class = word_of_int a, request_target_ref = word_of_int b,
          request_x = word_of_int x, request_y = word_of_int y, request_radius = word_of_int r,
          request_ttl = word_of_int t\<rparr>))
      }
      else if kind = MCL_WIRE_KIND_AUTHORITY_CLAIM then do {
        a \<leftarrow> require_value event ''authority_class'';
        b \<leftarrow> require_value event ''jurisdiction'';
        c \<leftarrow> require_value event ''credential_ref'';
        d \<leftarrow> require_value event ''validity'';
        Some (body_authority_claim_update (\<lambda>_. \<lparr>authority_claim_authority_class = word_of_int a,
          authority_claim_jurisdiction = word_of_int b, authority_claim_credential_ref = word_of_int c,
          authority_claim_validity = word_of_int d\<rparr>))
      }
      else if kind = MCL_WIRE_KIND_DEGRADED_STATE then do {
        a \<leftarrow> require_value event ''affected_capability'';
        b \<leftarrow> require_value event ''health'';
        c \<leftarrow> require_value event ''severity'';
        d \<leftarrow> require_value event ''ttl'';
        Some (body_degraded_state_update (\<lambda>_. \<lparr>degraded_state_affected_capability = word_of_int a,
          degraded_state_health = word_of_int b, degraded_state_severity = word_of_int c,
          degraded_state_ttl = word_of_int d\<rparr>))
      }
      else if kind = MCL_WIRE_KIND_TRANSPORT_OFFER then do {
        b \<leftarrow> require_value event ''transport_id'';
        c \<leftarrow> require_value event ''profile_id'';
        d \<leftarrow> require_value event ''endpoint_token'';
        e \<leftarrow> require_value event ''validity'';
        Some (body_transport_offer_update (\<lambda>_. \<lparr>transport_offer_migration_ref = 1,
          transport_offer_transport_id = word_of_int b, transport_offer_profile_id = word_of_int c,
          transport_offer_endpoint_token = word_of_int d, transport_offer_validity = word_of_int e\<rparr>))
      }
      else None)"

definition populate_object :: "bench_event_t \<Rightarrow> mcl_wire_tier0 option" where
  "populate_object event = do {
     type \<leftarrow> require_value event ''type'';
     priority \<leftarrow> require_value event ''priority'';
     source_ref \<leftarrow> require_value event ''source_ref'';
     let object = zero_object\<lparr>obj_kind := word_of_int type, obj_priority := word_of_int priority,
                              obj_source_ref := word_of_int source_ref\<rparr>;
     body \<leftarrow> populate_body event (obj_kind object);
     Some (object\<lparr>obj_body := body (obj_body object)\<rparr>)
   }"

section \<open>The program\<close>

record bench_totals =
  json_total :: nat
  cbor_string_total :: nat
  cbor_integer_total :: nat
  protobuf_total :: nat
  fixed_total :: nat
  context_total :: nat
  case_count :: nat

text \<open>
  One round of the loop of \<open>main\<close> behind \<open>parse_event\<close>. The arrays and objects C leaves uninitialised
  are the parameters \<open>encoded0\<close> and \<open>decoded0\<close>; \<open>memcmp\<close> compares two objects that were both zeroed before
  their members were stored, and is equality here.
\<close>

definition bench_case ::
    "u8 list \<Rightarrow> mcl_wire_tier0 \<Rightarrow> bench_event_t \<Rightarrow> bench_totals \<Rightarrow> bench_totals option" where
  "bench_case encoded0 decoded0 event t = do {
     object \<leftarrow> populate_object event;
     let fixed_size = mcl_wire_tier0_encoded_size (obj_kind object);
     case mcl_wire_tier0_encode (Some object) (Some encoded0) MCL_WIRE_TIER0_MAX_SIZE (Some 0) of
       (status, encoded, written) \<Rightarrow>
         if status \<noteq> MCL_WIRE_OK then None
         else if the written \<noteq> fixed_size then None
         else
           (case mcl_wire_tier0_decode encoded (the written) (Some decoded0) (Some 0) of
              (status, decoded, consumed) \<Rightarrow>
                if status \<noteq> MCL_WIRE_OK then None
                else if the consumed \<noteq> the written then None
                else if the decoded \<noteq> object then None
                else do {
                  cbor_string \<leftarrow> cbor_size event 0;
                  cbor_integer \<leftarrow> cbor_size event 1;
                  protobuf \<leftarrow> protobuf_size event;
                  Some \<lparr>json_total = json_total t + json_size event,
                        cbor_string_total = cbor_string_total t + cbor_string,
                        cbor_integer_total = cbor_integer_total t + cbor_integer,
                        protobuf_total = protobuf_total t + protobuf,
                        fixed_total = fixed_total t + fixed_size,
                        context_total = context_total t + (fixed_size - 3),
                        case_count = case_count t + 1\<rparr>
                })
   }"

text \<open>\<open>Inl\<close> is the exit code where the loop ends the process.\<close>

function bench_loop ::
    "u8 list \<Rightarrow> mcl_wire_tier0 \<Rightarrow> string \<Rightarrow> bench_totals \<Rightarrow> int + bench_totals" where
  "bench_loop encoded0 decoded0 p t =
     (let p = skip_ws p in
      if p = [] then Inl 4
      else if hd p = CHR '']'' then Inr t
      else
        (case parse_event p of
           None \<Rightarrow> Inl 5
         | Some (event, p) \<Rightarrow>
             (case bench_case encoded0 decoded0 event t of
                None \<Rightarrow> Inl EXIT_FAILURE
              | Some t \<Rightarrow>
                  let p = skip_ws p;
                      p = (if p \<noteq> [] \<and> hd p = CHR '','' then tl p else p)
                  in bench_loop encoded0 decoded0 p t)))"
  by pat_completeness auto

text \<open>Every parser leaves a suffix that is not longer, and \<open>parse_event\<close> one that is shorter.\<close>

lemma length_skip_ws [simp]: "length (skip_ws p) \<le> length p"
  by (simp add: skip_ws_def length_dropWhile_le)

lemma length_tl_skip_ws: "length (tl (skip_ws p)) \<le> length p"
  using length_skip_ws [of p] by (simp only: length_tl)

lemma parse_characters_length: "parse_characters p n k = Some (out, q) \<Longrightarrow> length q \<le> length p"
  by (induction p n k arbitrary: out q rule: parse_characters.induct) (auto split: if_splits intro: le_SucI)

lemma parse_string_length:
  assumes "parse_string p k = Some (out, q)"
  shows "length q \<le> length p"
proof -
  from assms obtain c p' out' where "skip_ws p = c # p'" "parse_characters p' 0 k = Some (out', q)"
    by (auto simp: parse_string_def split: list.splits if_splits)
  with length_skip_ws [of p] parse_characters_length show ?thesis by fastforce
qed

lemma parse_digits_length: "parse_digits p m = (m', q) \<Longrightarrow> length q \<le> length p"
  by (induction p m rule: parse_digits.induct) (auto split: if_splits)

lemma parse_integer_length:
  assumes "parse_integer p = Some (v, q)"
  shows "length q \<le> length p"
proof -
  from assms obtain p' m where "p' = skip_ws p \<or> p' = tl (skip_ws p)" "parse_digits p' 0 = (m, q)"
    by (auto simp: parse_integer_def Let_def simp del: parse_digits.simps split: list.splits if_splits prod.splits)
  then have "length p' \<le> length p" "length q \<le> length p'"
    using length_skip_ws [of p] length_tl_skip_ws [of p] parse_digits_length by blast+
  then show ?thesis by simp
qed

lemma parse_fields_round:
  assumes "skip_ws p = [] \<or> hd (skip_ws p) \<noteq> CHR ''}''" and "length event < MCL_BENCH_MAX_FIELDS"
    and "parse_string (skip_ws p) MCL_BENCH_MAX_KEY = Some (key, r)" and "lookup_field key = Some i"
    and "skip_ws r \<noteq> []" and "hd (skip_ws r) = CHR '':''"
    and "parse_integer (tl (skip_ws r)) = Some (v, s)" and "skip_ws s \<noteq> []"
    and "event' = event @ [\<lparr>bench_key = key, bench_value = v\<rparr>]"
  shows "parse_fields p event =
    (if hd (skip_ws s) = CHR '','' then parse_fields (tl (skip_ws s)) event'
     else if hd (skip_ws s) = CHR ''}'' then Some (event', tl (skip_ws s)) else None)"
  using assms by (subst parse_fields.simps) (auto simp: Let_def)

lemma parse_fields_length: "parse_fields p event = Some (event', q) \<Longrightarrow> length q \<le> length p"
proof (induction p event rule: parse_fields.induct)
  case (1 p event)
  note skip = length_tl_skip_ws
  show ?case
  proof (cases "skip_ws p \<noteq> [] \<and> hd (skip_ws p) = CHR ''}''")
    case True
    with "1.prems" have "q = tl (skip_ws p)" by (subst (asm) parse_fields.simps) (simp add: Let_def)
    then show ?thesis using skip [of p] by simp
  next
    case False
    with "1.prems" obtain key r i v s where round:
      "length event < 16" "parse_string (skip_ws p) MCL_BENCH_MAX_KEY = Some (key, r)" "lookup_field key = Some i"
      "skip_ws r \<noteq> []" "hd (skip_ws r) = CHR '':''" "parse_integer (tl (skip_ws r)) = Some (v, s)"
      "skip_ws s \<noteq> []"
      by (subst (asm) parse_fields.simps)
         (auto simp: Let_def bind_eq_Some_conv split: if_splits)
    let ?event = "event @ [\<lparr>bench_key = key, bench_value = v\<rparr>]"
    have eq: "parse_fields p event =
        (if hd (skip_ws s) = CHR '','' then parse_fields (tl (skip_ws s)) ?event
         else if hd (skip_ws s) = CHR ''}'' then Some (?event, tl (skip_ws s)) else None)"
      by (rule parse_fields_round [OF _ round refl]) (use False in blast)
    have "length s \<le> length p"
      using parse_string_length [OF round(2)] parse_integer_length [OF round(6)] length_skip_ws [of p] skip [of r]
      by linarith
    moreover have "length q \<le> length s"
    proof (cases "hd (skip_ws s) = CHR '',''")
      case True
      with "1.IH" [OF refl False _ round(2) refl round(3) refl _ round(6) refl refl refl round(7) True]
        eq "1.prems" round skip [of s] show ?thesis by simp
    next
      case False
      with eq "1.prems" have "q = tl (skip_ws s)" by (simp split: if_splits)
      then show ?thesis using skip by simp
    qed
    ultimately show ?thesis by simp
  qed
qed

lemma parse_event_length:
  assumes "parse_event p = Some (event, q)"
  shows "length q < length p"
proof -
  from assms have "skip_ws p \<noteq> []" "parse_fields (tl (skip_ws p)) [] = Some (event, q)"
    by (simp_all add: parse_event_def Let_def split: if_splits)
  moreover from this have "length (tl (skip_ws p)) < length (skip_ws p)" by simp
  ultimately show ?thesis using parse_fields_length length_skip_ws [of p] by (meson le_less_trans less_le_trans)
qed

termination bench_loop
proof (relation "measure (\<lambda>(encoded0, decoded0, p, t). length p)", goal_cases)
  case (2 encoded0 decoded0 p t q pe event r t' s s')
  have "length r < length (skip_ws p)" using parse_event_length [of q event r] 2(1,4,5) by simp
  then have "length r < length p" using length_skip_ws [of p] by (rule less_le_trans)
  moreover have "length s' \<le> length r"
    using length_skip_ws [of r] length_tl_skip_ws [of r] 2(7,8) by (simp split: if_splits)
  ultimately show ?case by simp
qed simp

declare bench_loop.simps [simp del]

definition bench_main ::
    "u8 list \<Rightarrow> mcl_wire_tier0 \<Rightarrow> (string \<Rightarrow> string option) \<Rightarrow> bool \<Rightarrow> string list \<Rightarrow> int" where
  "bench_main encoded0 decoded0 fopen read_failed argv =
     (let path = (if length argv > 1 then argv ! 1 else ''benchmarks/cases-v0.1.json'') in
      case fopen path of
        None \<Rightarrow> 1
      | Some file \<Rightarrow>
          let buffer = take (MCL_BENCH_FILE_CAPACITY - 1) file in
          if read_failed \<or> length buffer = MCL_BENCH_FILE_CAPACITY - 1 then 2
          else
            (case strstr (QUOTE # ''events'' @ QUOTE # '':['') buffer of
               None \<Rightarrow> 3
             | Some events \<Rightarrow>
                 (case bench_loop encoded0 decoded0
                         (drop (events + length (QUOTE # ''events'' @ QUOTE # '':['')) buffer)
                         \<lparr>json_total = 0, cbor_string_total = 0, cbor_integer_total = 0, protobuf_total = 0,
                          fixed_total = 0, context_total = 0, case_count = 0\<rparr> of
                    Inl code \<Rightarrow> code
                  | Inr t \<Rightarrow>
                      if case_count t = 41 \<and> json_total t = 4999 \<and> cbor_string_total t = 3585 \<and>
                         cbor_integer_total t = 1085 \<and> protobuf_total t = 922 \<and>
                         fixed_total t = 618 \<and> context_total t = 495
                      then 0 else EXIT_FAILURE)))"

end
