(* ===== verification/Wire_Bench_Text.thy ===== *)
theory Wire_Bench_Text
  imports Wire_Bench
begin

text \<open>
  What the parser of the benchmark reads and what its size functions count: an event printed as compact
  JSON is parsed back, integers are read modulo \<open>2\<^sup>6\<^sup>4\<close>, and each size is the length of the event's
  encoding in that format.
\<close>

unbundle bit_operations_syntax

section \<open>Integers\<close>

lemma parse_digits_decimal_value:
  "parse_digits xs (word_of_int m) = (word_of_int (decimal_value m xs), dropWhile is_digit xs)"
proof (induction xs arbitrary: m)
  case (Cons c xs)
  have "word_of_int m * 10 + word_of_int (digit_value c) = (word_of_int (10 * m + digit_value c) :: u64)"
    by (simp add: mult.commute flip: wi_hom_syms)
  then have "parse_digits (c # xs) (word_of_int m) =
      (if is_digit c then parse_digits xs (word_of_int (10 * m + digit_value c)) else (word_of_int m, c # xs))"
    by (simp only: parse_digits.simps)
  then show ?case unfolding Cons by simp
qed simp

abbreviation (input) no_digit :: "string \<Rightarrow> bool" where
  "no_digit rest \<equiv> rest = [] \<or> \<not> is_digit (hd rest)"

lemma parse_digits_decimal:
  assumes "no_digit rest"
  shows "parse_digits (decimal n @ rest) 0 = (of_nat n, rest)"
proof -
  have "parse_digits (decimal n @ rest) (word_of_int 0) = (word_of_int (int n), rest)"
    unfolding parse_digits_decimal_value
    using assms decimal_digits [of _ n] by (cases rest) (auto simp: dropWhile_append3 dropWhile_append decimal_value_decimal)
  then show ?thesis by simp
qed

lemma decimal_first: "\<exists>c cs. decimal n = c # cs \<and> is_digit c"
  using decimal_digits [of _ n] by (cases "decimal n") auto

lemma skip_ws_stop [simp]: "\<not> is_space c \<Longrightarrow> skip_ws (c # p) = c # p"
  by (simp add: skip_ws_def)

lemma int64_cases:
  "(of_nat n :: u64) > 0x7FFFFFFFFFFFFFFF \<longleftrightarrow> int n mod 2 ^ 64 \<ge> 2 ^ 63"
  "(of_nat n :: u64) > 9223372036854775808 \<longleftrightarrow> int n mod 2 ^ 64 > 2 ^ 63"
  "(of_nat n :: u64) = 9223372036854775808 \<longleftrightarrow> int n mod 2 ^ 64 = 2 ^ 63"
  "uint (of_nat n :: u64) = int n mod 2 ^ 64"
  by (auto simp: word_less_def uint_nat unat_of_nat zmod_int word_uint_eq_iff)

lemma parse_integer_decimal:
  assumes "no_digit rest"
  shows "parse_integer (decimal n @ rest) =
      (if int n mod 2 ^ 64 \<ge> 2 ^ 63 then None else Some (int n mod 2 ^ 64, rest))"
    "parse_integer (CHR ''-'' # decimal n @ rest) =
      (if int n mod 2 ^ 64 > 2 ^ 63 then None else Some (- (int n mod 2 ^ 64), rest))"
proof -
  obtain c cs where c: "decimal n = c # cs" "is_digit c" using decimal_first by blast
  note digits = parse_digits_decimal [OF assms, of n]
  have pos: "parse_integer (decimal n @ rest) =
      (let m = of_nat n :: u64 in if m > INT64_MAX then None else Some (uint m, rest))"
    using c digits digit_no_space [OF c(2)] digit_no_sign [OF c(2)]
    by (simp add: parse_integer_def Let_def del: parse_digits.simps)
  have neg: "parse_integer (CHR ''-'' # decimal n @ rest) =
      (let m = of_nat n :: u64 in if m > 9223372036854775808 then None
       else if m = 9223372036854775808 then Some (- 0x8000000000000000, rest) else Some (- uint m, rest))"
    using c digits digit_no_space [OF c(2)] digit_no_sign [OF c(2)]
    by (simp add: parse_integer_def Let_def is_space_def del: parse_digits.simps)
  show "parse_integer (decimal n @ rest) =
      (if int n mod 2 ^ 64 \<ge> 2 ^ 63 then None else Some (int n mod 2 ^ 64, rest))"
    unfolding pos Let_def int64_cases by simp
  show "parse_integer (CHR ''-'' # decimal n @ rest) =
      (if int n mod 2 ^ 64 > 2 ^ 63 then None else Some (- (int n mod 2 ^ 64), rest))"
    unfolding neg Let_def int64_cases by auto
qed

abbreviation (input) int64 :: "int \<Rightarrow> bool" where
  "int64 v \<equiv> - 0x8000000000000000 \<le> v \<and> v < 0x8000000000000000"

lemma parse_integer_decimal_int:
  assumes "int64 v" and "no_digit rest"
  shows "parse_integer (decimal_int v @ rest) = Some (v, rest)"
  using assms parse_integer_decimal [OF assms(2), of "nat v"] parse_integer_decimal [OF assms(2), of "nat (- v)"]
  by (auto simp: decimal_int_def)

section \<open>Events as compact JSON\<close>

definition json_field :: "bench_field_t \<Rightarrow> string" where
  "json_field f = QUOTE # bench_key f @ QUOTE # CHR '':'' # decimal_int (bench_value f)"

fun json_fields :: "bench_event_t \<Rightarrow> string" where
  "json_fields [] = []"
| "json_fields [f] = json_field f"
| "json_fields (f # fs) = json_field f @ CHR '','' # json_fields fs"

definition json_event :: "bench_event_t \<Rightarrow> string" where
  "json_event event = CHR ''{'' # json_fields event @ ''}''"

definition field_ok :: "bench_field_t \<Rightarrow> bool" where
  "field_ok f \<longleftrightarrow> lookup_field (bench_key f) \<noteq> None \<and> int64 (bench_value f)"

definition event_ok :: "bench_event_t \<Rightarrow> bool" where
  "event_ok event \<longleftrightarrow> length event \<le> MCL_BENCH_MAX_FIELDS \<and> list_all field_ok event"

text \<open>The names of the table need no escape and fit a key.\<close>

definition key_ok :: "string \<Rightarrow> bool" where
  "key_ok k \<longleftrightarrow> length k < MCL_BENCH_MAX_KEY \<and> list_all (\<lambda>c. c \<noteq> QUOTE \<and> c \<noteq> CHR 0x5C \<and> c \<noteq> NUL) k"

lemma field_info_keys: "list_all (\<lambda>i. key_ok (info_name i)) field_info"
  by code_simp

lemma lookup_field_SomeD:
  assumes "lookup_field k = Some i"
  shows "i \<in> set field_info" "info_name i = k"
  using assms by (auto simp: lookup_field_def find_Some_iff)

lemma lookup_field_key: "lookup_field k = Some i \<Longrightarrow> key_ok k"
  using lookup_field_SomeD [of k i] field_info_keys by (auto simp: list_all_iff)

lemma parse_characters_key:
  assumes "list_all (\<lambda>c. c \<noteq> QUOTE \<and> c \<noteq> CHR 0x5C \<and> c \<noteq> NUL) k" and "n + length k < size_out"
  shows "parse_characters (k @ QUOTE # rest) n size_out = Some (k, rest)"
  using assms by (induction k arbitrary: n) auto

lemma parse_string_key:
  assumes "key_ok k"
  shows "parse_string (skip_ws (QUOTE # k @ QUOTE # rest)) MCL_BENCH_MAX_KEY = Some (k, rest)"
proof -
  have "\<not> is_space QUOTE" by (simp add: is_space_def)
  moreover have "parse_characters (k @ QUOTE # rest) 0 MCL_BENCH_MAX_KEY = Some (k, rest)"
    using parse_characters_key assms by (simp add: key_ok_def)
  moreover have "c_string k = k"
    using assms by (simp add: key_ok_def c_string_def list_all_iff takeWhile_eq_all_conv)
  ultimately show ?thesis by (simp add: parse_string_def)
qed

lemma parse_fields_field:
  assumes "field_ok f" and "length event < MCL_BENCH_MAX_FIELDS" and "c = CHR '','' \<or> c = CHR ''}''"
  shows "parse_fields (json_field f @ c # rest) event =
    (if c = CHR '','' then parse_fields rest (event @ [f]) else Some (event @ [f], rest))"
proof -
  let ?number = "decimal_int (bench_value f) @ c # rest"
  obtain i where i: "lookup_field (bench_key f) = Some i" and v: "int64 (bench_value f)"
    using assms(1) by (auto simp: field_ok_def)
  have c: "\<not> is_space c" "\<not> is_digit c" "\<not> is_space (CHR '':'')" "\<not> is_space QUOTE"
    using assms(3) by (auto simp: is_space_def is_digit_def)
  have "parse_string (skip_ws (json_field f @ c # rest)) MCL_BENCH_MAX_KEY = Some (bench_key f, CHR '':'' # ?number)"
    using parse_string_key [OF lookup_field_key [OF i], of "CHR '':'' # ?number"] by (simp add: json_field_def)
  moreover have "parse_integer (tl (skip_ws (CHR '':'' # ?number))) = Some (bench_value f, c # rest)"
    using parse_integer_decimal_int [OF v, of "c # rest"] c by simp
  ultimately have "parse_fields (json_field f @ c # rest) event =
      (if hd (skip_ws (c # rest)) = CHR '','' then parse_fields (tl (skip_ws (c # rest))) (event @ [f])
       else if hd (skip_ws (c # rest)) = CHR ''}'' then Some (event @ [f], tl (skip_ws (c # rest))) else None)"
    using i c assms(2)
    by (intro parse_fields_round [where r = "CHR '':'' # ?number" and i = i and key = "bench_key f" and v = "bench_value f"])
       (simp_all add: json_field_def)
  with assms(3) c show ?thesis by auto
qed

lemma parse_fields_json:
  "fs \<noteq> [] \<Longrightarrow> list_all field_ok fs \<Longrightarrow> length event + length fs \<le> MCL_BENCH_MAX_FIELDS \<Longrightarrow>
     parse_fields (json_fields fs @ CHR ''}'' # rest) event = Some (event @ fs, rest)"
proof (induction fs arbitrary: event rule: json_fields.induct)
  case (3 f g fs)
  then show ?case using parse_fields_field [of f event "CHR '',''"] by simp
qed (simp_all add: parse_fields_field)

lemma parse_event_json:
  assumes "event_ok event"
  shows "parse_event (json_event event @ rest) = Some (event, rest)"
proof -
  have brace: "\<not> is_space (CHR ''{'')" "\<not> is_space (CHR ''}'')" by (simp_all add: is_space_def)
  show ?thesis
  proof (cases "event = []")
    case True
    have "parse_fields (CHR ''}'' # rest) [] = Some ([], rest)"
      using brace by (subst parse_fields.simps) simp
    with True brace show ?thesis by (simp add: parse_event_def json_event_def)
  next
    case False
    with assms brace parse_fields_json [of event "[]" rest] show ?thesis
      by (simp add: parse_event_def json_event_def event_ok_def)
  qed
qed

section \<open>The size as JSON\<close>

lemma decimal_size_loop: "decimal_size_loop m sz + 1 = sz + length (decimal (unat m))"
proof (induction m sz rule: decimal_size_loop.induct)
  case (1 m sz)
  show ?case
  proof (cases "m \<ge> 10")
    case True
    then have "10 \<le> unat m" by (simp add: word_le_nat_alt)
    with True 1 show ?thesis
      by (subst decimal_size_loop.simps, subst decimal.simps) (simp add: unat_div)
  next
    case False
    then have "unat m < 10" by (simp add: word_le_nat_alt)
    with False show ?thesis by (subst decimal_size_loop.simps, subst decimal.simps) simp
  qed
qed

lemma unat_word_of_int:
  assumes "0 \<le> a" and "a < 2 ^ LENGTH('a)"
  shows "unat (word_of_int a :: 'a::len word) = nat a"
proof -
  have "uint (word_of_int a :: 'a word) = a"
    using assms by (simp only: uint_word_of_int_eq take_bit_int_eq_self_iff)
  then show ?thesis by (simp only: unat_eq_nat_uint)
qed

lemma decimal_size_length:
  assumes "int64 v"
  shows "decimal_size v = length (decimal_int v)"
proof (cases "v < 0")
  case True
  have "word_of_int (- (v + 1)) + 1 = (word_of_int (- v) :: u64)" by simp
  moreover have "unat (word_of_int (- v) :: u64) = nat (- v)"
    by (rule unat_word_of_int) (use True assms in simp_all)
  ultimately show ?thesis
    using True decimal_size_loop [of "word_of_int (- v)" 2]
    by (simp only: decimal_size_def decimal_int_def if_True) simp
next
  case False
  have "unat (word_of_int v :: u64) = nat v"
    by (rule unat_word_of_int) (use False assms in simp_all)
  then show ?thesis
    using False decimal_size_loop [of "word_of_int v" 1]
    by (simp only: decimal_size_def decimal_int_def if_False)
qed

lemma json_size_snoc:
  "json_size (event @ [f]) = json_size event + (if event = [] then 0 else 1) +
     (3 + length (bench_key f) + decimal_size (bench_value f))"
proof -
  let ?step = "\<lambda>ev i sz. let sz = (if i \<noteq> 0 then sz + 1 else sz)
      in sz + (2 + length (bench_key (ev ! i)) + 1 + decimal_size (bench_value (ev ! i)))"
  have "fold (?step (event @ [f])) [0..<length event] (2::nat) = fold (?step event) [0..<length event] 2"
    by (rule fold_cong) (simp_all add: nth_append)
  then show ?thesis by (simp add: json_size_def Let_def)
qed

lemma length_json_fields_snoc:
  "length (json_fields (event @ [f])) =
     length (json_fields event) + (if event = [] then 0 else 1) + length (json_field f)"
  by (induction event rule: json_fields.induct) auto

lemma json_size_length:
  "list_all field_ok event \<Longrightarrow> json_size event = length (json_event event)"
proof (induction event rule: rev_induct)
  case (snoc f event)
  then have "field_ok f" and IH: "json_size event = length (json_event event)" by simp_all
  then have size: "decimal_size (bench_value f) = length (decimal_int (bench_value f))"
    unfolding field_ok_def by (intro decimal_size_length) blast
  have "length (json_field f) = 3 + length (bench_key f) + decimal_size (bench_value f)"
    by (simp add: json_field_def size)
  with IH show ?case
    by (simp add: json_size_snoc length_json_fields_snoc json_event_def)
qed (simp add: json_size_def json_event_def)

section \<open>The sizes as CBOR and protobuf\<close>

text \<open>The encodings of RFC 8949 and of the protobuf wire format, as far as events need them.\<close>

fun be_bytes :: "nat \<Rightarrow> nat \<Rightarrow> u8 list" where
  "be_bytes 0 v = []"
| "be_bytes (Suc n) v = be_bytes n (v div 256) @ [of_nat (v mod 256)]"

definition cbor_head :: "nat \<Rightarrow> nat \<Rightarrow> u8 list" where
  "cbor_head major v =
     (if v < 24 then [of_nat (32 * major + v)]
      else if v < 2 ^ 8 then of_nat (32 * major + 24) # be_bytes 1 v
      else if v < 2 ^ 16 then of_nat (32 * major + 25) # be_bytes 2 v
      else if v < 2 ^ 32 then of_nat (32 * major + 26) # be_bytes 4 v
      else of_nat (32 * major + 27) # be_bytes 8 v)"

definition cbor_int :: "int \<Rightarrow> u8 list" where
  "cbor_int v = (if v \<ge> 0 then cbor_head 0 (nat v) else cbor_head 1 (nat (- v - 1)))"

definition cbor_text :: "string \<Rightarrow> u8 list" where
  "cbor_text s = cbor_head 3 (length s) @ map of_char s"

definition cbor_event :: "bool \<Rightarrow> bench_event_t \<Rightarrow> u8 list" where
  "cbor_event integer_keys event =
     cbor_head 5 (length event) @
     concat (map (\<lambda>f. (if integer_keys then cbor_head 0 (unat (info_protobuf_number (the (lookup_field (bench_key f)))))
                       else cbor_text (bench_key f)) @ cbor_int (bench_value f)) event)"

fun varint :: "nat \<Rightarrow> u8 list" where
  "varint v = (if v < 128 then [of_nat v] else of_nat (128 + v mod 128) # varint (v div 128))"

declare varint.simps [simp del]

definition zigzag :: "int \<Rightarrow> nat" where
  "zigzag v = nat (if v \<ge> 0 then 2 * v else - 2 * v - 1)"

definition protobuf_field :: "bench_field_t \<Rightarrow> u8 list" where
  "protobuf_field f =
     (let i = the (lookup_field (bench_key f)) in
      if bench_value f = 0 then []
      else varint (8 * unat (info_protobuf_number i)) @
           varint (if info_protobuf_signed i \<noteq> 0 then zigzag (bench_value f) else nat (bench_value f mod 2 ^ 64)))"

definition protobuf_event :: "bench_event_t \<Rightarrow> u8 list" where
  "protobuf_event event = concat (map protobuf_field event)"

lemma length_be_bytes [simp]: "length (be_bytes n v) = n"
  by (induction n arbitrary: v) simp_all

lemma cbor_head_size_length: "cbor_head_size v = length (cbor_head major (unat v))"
  by (simp add: cbor_head_size_def cbor_head_def word_less_nat_alt word_le_nat_alt)

lemma cbor_head_size_nat:
  assumes "int n < 2 ^ 64"
  shows "cbor_head_size (of_nat n) = length (cbor_head major n)"
proof -
  have "unat (word_of_int (int n) :: u64) = nat (int n)"
    by (rule unat_word_of_int) (use assms in simp_all)
  then have "unat (of_nat n :: u64) = n" by (simp only: of_int_of_nat_eq nat_int)
  then show ?thesis by (simp only: cbor_head_size_length [of _ major])
qed

lemma cbor_int_size_length:
  assumes "int64 v"
  shows "cbor_int_size v = length (cbor_int v)"
proof (cases "v \<ge> 0")
  case True
  have "unat (word_of_int v :: u64) = nat v" by (rule unat_word_of_int) (use True assms in simp_all)
  with True show ?thesis by (simp only: cbor_int_size_def cbor_int_def cbor_head_size_length [of _ 0] if_True)
next
  case False
  have "unat (word_of_int (- (v + 1)) :: u64) = nat (- (v + 1))"
    by (rule unat_word_of_int) (use False assms in simp_all)
  moreover have "- (v + 1) = - v - 1" by simp
  ultimately show ?thesis
    using False by (simp only: cbor_int_size_def cbor_int_def cbor_head_size_length [of _ 1] if_False)
qed

lemma cbor_text_size_length: "int (length s) < 2 ^ 64 \<Longrightarrow> cbor_text_size s = length (cbor_text s)"
  by (simp only: cbor_text_size_def cbor_text_def Let_def cbor_head_size_nat [of _ 3] length_append length_map)

lemma varint_size_loop: "varint_size_loop v sz + 1 = sz + length (varint (unat v))"
proof (induction v sz rule: varint_size_loop.induct)
  case (1 v sz)
  have div: "unat (drop_bit 7 v) = unat v div 128" by (simp add: drop_bit_eq_div unat_div)
  show ?case
  proof (cases "v \<ge> 0x80")
    case True
    then have "128 \<le> unat v" by (simp add: word_le_nat_alt)
    with True 1 div show ?thesis by (subst varint_size_loop.simps, subst varint.simps) simp
  next
    case False
    then have "unat v < 128" by (simp add: word_le_nat_alt)
    with False show ?thesis by (subst varint_size_loop.simps, subst varint.simps) simp
  qed
qed

lemma varint_size_length: "varint_size v = length (varint (unat v))"
  using varint_size_loop [of v 1] by (simp add: varint_size_def)

abbreviation (input) int32 :: "int \<Rightarrow> bool" where
  "int32 v \<equiv> - 0x80000000 \<le> v \<and> v < 0x80000000"

lemma ucast_s32: "0 \<le> a \<Longrightarrow> a < 2 ^ 32 \<Longrightarrow> unat (ucast (word_of_int a :: s32) :: u64) = nat a"
  using unat_word_of_int [of a, where ?'a = 32] unsigned_less [of "word_of_int a :: s32"]
  by (simp add: unsigned_ucast_eq take_bit_nat_eq_self_iff)

lemma zigzag32_zigzag:
  assumes "int32 v"
  shows "unat (zigzag32 v) = zigzag v"
proof -
  have s: "sint (word_of_int v :: s32) = v"
    using assms by (simp add: signed_of_int signed_take_bit_int_eq_self_iff)
  have "- (word_of_int v :: s32) = word_of_int (- v)" by simp
  moreover have "push_bit 1 (word_of_int (- v) :: s32) - 1 = word_of_int (- 2 * v - 1)" by simp
  moreover have "push_bit 1 (word_of_int v :: s32) = word_of_int (2 * v)" by simp
  ultimately show ?thesis
    using assms ucast_s32 [of "2 * v"] ucast_s32 [of "- 2 * v - 1"]
    by (simp only: zigzag32_def zigzag_def Let_def s split: if_split) auto
qed

lemma unat_ucast_up:
  assumes "LENGTH('a::len) \<le> LENGTH('b::len)"
  shows "unat (ucast (w :: 'a word) :: 'b word) = unat w"
proof -
  have "unat w < 2 ^ LENGTH('a)" by (rule unsigned_less)
  also have "\<dots> \<le> 2 ^ LENGTH('b)" using assms by (simp add: power_increasing)
  finally have "unat w < 2 ^ LENGTH('b)" .
  then show ?thesis by (simp add: unsigned_ucast_eq take_bit_nat_eq_self_iff)
qed

lemma tag_number: "unat (ucast (push_bit 3 (ucast (n :: u8) :: u32)) :: u64) = 8 * unat n"
proof -
  have n: "unat (ucast n :: u32) = unat n" by (rule unat_ucast_up) simp
  have "unat (push_bit 3 (ucast n :: u32)) = (unat (ucast n :: u32) * 8) mod 2 ^ 32"
    by (simp add: push_bit_eq_mult unat_word_ariths)
  also have "\<dots> = 8 * unat n" using unat_u8_less [of n] by (simp add: n)
  finally have push: "unat (push_bit 3 (ucast n :: u32)) = 8 * unat n" .
  have "unat (ucast (push_bit 3 (ucast n :: u32)) :: u64) = unat (push_bit 3 (ucast n :: u32))"
    by (rule unat_ucast_up) simp
  then show ?thesis unfolding push .
qed

lemma cbor_fields_size_length:
  "list_all field_ok fs \<Longrightarrow>
     cbor_fields_size fs k sz =
       Some (sz + length (concat (map (\<lambda>f.
         (if k \<noteq> 0 then cbor_head 0 (unat (info_protobuf_number (the (lookup_field (bench_key f)))))
          else cbor_text (bench_key f)) @ cbor_int (bench_value f)) fs)))"
proof (induction fs arbitrary: sz)
  case (Cons f fs)
  obtain i where i: "lookup_field (bench_key f) = Some i" and v: "int64 (bench_value f)"
    using Cons.prems by (auto simp: field_ok_def)
  have name: "info_name i = bench_key f" "int (length (bench_key f)) < 2 ^ 64"
    using lookup_field_SomeD [OF i] lookup_field_key [OF i] by (simp_all add: key_ok_def)
  have head: "cbor_head_size (ucast (info_protobuf_number i)) = length (cbor_head 0 (unat (info_protobuf_number i)))"
    by (subst cbor_head_size_length [of _ 0], subst unat_ucast_up) simp_all
  have label: "cbor_text_size (bench_key f) = length (cbor_text (bench_key f))"
    by (rule cbor_text_size_length) (rule name)
  show ?case
    using Cons.IH Cons.prems by (simp add: i name head label cbor_int_size_length [OF v] Let_def)
qed simp

definition signed_field_ok :: "bench_field_t \<Rightarrow> bool" where
  "signed_field_ok f \<longleftrightarrow>
     (info_protobuf_signed (the (lookup_field (bench_key f))) \<noteq> 0 \<longrightarrow> int32 (bench_value f))"

lemma protobuf_fields_size_length:
  "list_all field_ok fs \<Longrightarrow> list_all signed_field_ok fs \<Longrightarrow>
     protobuf_fields_size fs sz = Some (sz + length (protobuf_event fs))"
proof (induction fs arbitrary: sz)
  case (Cons f fs)
  obtain i where i: "lookup_field (bench_key f) = Some i" and v: "info_protobuf_signed i \<noteq> 0 \<longrightarrow> int32 (bench_value f)"
    using Cons.prems by (auto simp: field_ok_def signed_field_ok_def)
  have "unat (word_of_int (bench_value f) :: u64) = nat (bench_value f mod 2 ^ 64)"
    by (simp add: unat_eq_nat_uint uint_word_of_int_eq take_bit_eq_mod)
  then have value_size: "varint_size (if info_protobuf_signed i \<noteq> 0 then zigzag32 (bench_value f) else word_of_int (bench_value f)) =
      length (varint (if info_protobuf_signed i \<noteq> 0 then zigzag (bench_value f) else nat (bench_value f mod 2 ^ 64)))"
    using v zigzag32_zigzag [of "bench_value f"] by (simp only: varint_size_length split: if_split) simp
  have tag_size: "varint_size (ucast (push_bit 3 (ucast (info_protobuf_number i) :: u32))) =
      length (varint (8 * unat (info_protobuf_number i)))"
    by (simp only: varint_size_length tag_number)
  show ?case
  proof (cases "bench_value f = 0")
    case True
    with Cons i show ?thesis by (simp add: protobuf_event_def protobuf_field_def)
  next
    case False
    then have field: "protobuf_field f = varint (8 * unat (info_protobuf_number i)) @
        varint (if info_protobuf_signed i \<noteq> 0 then zigzag (bench_value f) else nat (bench_value f mod 2 ^ 64))"
      by (simp only: protobuf_field_def i option.sel Let_def if_False)
    have "protobuf_fields_size (f # fs) sz = protobuf_fields_size fs
        (sz + varint_size (ucast (push_bit 3 (ucast (info_protobuf_number i) :: u32))) +
         varint_size (if info_protobuf_signed i \<noteq> 0 then zigzag32 (bench_value f) else word_of_int (bench_value f)))"
      by (simp only: protobuf_fields_size.simps i Option.bind.bind_lunit False Let_def if_False)
    then have "protobuf_fields_size (f # fs) sz = protobuf_fields_size fs (sz + length (protobuf_field f))"
      by (simp only: value_size tag_size field length_append add.assoc)
    then show ?thesis using Cons.IH Cons.prems by (simp add: protobuf_event_def)
  qed
qed (simp add: protobuf_event_def)

lemma cbor_size_length:
  assumes "event_ok event"
  shows "cbor_size event k = Some (length (cbor_event (k \<noteq> 0) event))"
proof -
  have "int (length event) < 2 ^ 64" using assms by (simp add: event_ok_def)
  then show ?thesis
    using assms by (simp add: cbor_size_def cbor_event_def event_ok_def cbor_fields_size_length cbor_head_size_nat [of _ 5])
qed

lemma protobuf_size_length:
  assumes "event_ok event" and "list_all signed_field_ok event"
  shows "protobuf_size event = Some (length (protobuf_event event))"
  using protobuf_fields_size_length [of event 0] assms by (simp add: protobuf_size_def event_ok_def)

end
