(* ===== verification/Wire_Bench_Spec.thy ===== *)
theory Wire_Bench_Spec
  imports Wire_Bench_Text Wire_Tier0_Spec
begin

text \<open>
  What the benchmark decides: on a file of events in compact JSON it exits with 0 if and only if every event
  gives an object that the encoder accepts and the totals are the ones it expects; its checks of the codec
  never fail.
\<close>

section \<open>One event\<close>

text \<open>The object of an event is a wire view of itself: only the member of its kind is not zero.\<close>

lemma populate_body_kind: "populate_body event k = Some body \<Longrightarrow> k \<in> {0, 1, 2, 3, 4, 5}"
  by (simp add: populate_body_def split: if_split_asm)

lemma populate_body_view:
  assumes "populate_body event k = Some body"
  shows "wire_view 0 (obj\<lparr>obj_kind := k, obj_body := body zero_body\<rparr>) = obj\<lparr>obj_kind := k, obj_body := body zero_body\<rparr>"
proof -
  consider "k = 0" | "k = 1" | "k = 2" | "k = 3" | "k = 4" | "k = 5"
    using populate_body_kind [OF assms] by auto
  then show ?thesis
    by cases (use assms in \<open>auto simp: populate_body_def bind_eq_Some_conv wire_view_def zero_body_def\<close>)
qed

lemma populate_object_SomeD:
  assumes "populate_object event = Some obj"
  shows "obj_kind obj \<in> {0, 1, 2, 3, 4, 5}" "wire_view 0 obj = obj"
proof -
  from assms obtain k p s body where body: "populate_body event k = Some body"
    and obj: "obj = zero_object\<lparr>obj_kind := k, obj_priority := p, obj_source_ref := s, obj_body := body zero_body\<rparr>"
    by (auto simp: populate_object_def bind_eq_Some_conv Let_def zero_object_def)
  then show "obj_kind obj \<in> {0, 1, 2, 3, 4, 5}" "wire_view 0 obj = obj"
    using populate_body_kind [OF body] populate_body_view [OF body, of "zero_object\<lparr>obj_priority := p, obj_source_ref := s\<rparr>"]
    by (simp_all add: zero_object_def)
qed

definition add_case :: "bench_event_t \<Rightarrow> mcl_wire_tier0 \<Rightarrow> bench_totals \<Rightarrow> bench_totals" where
  "add_case event obj t =
     \<lparr>json_total = json_total t + length (json_event event),
      cbor_string_total = cbor_string_total t + length (cbor_event False event),
      cbor_integer_total = cbor_integer_total t + length (cbor_event True event),
      protobuf_total = protobuf_total t + length (protobuf_event event),
      fixed_total = fixed_total t + mcl_wire_tier0_encoded_size (obj_kind obj),
      context_total = context_total t + (mcl_wire_tier0_encoded_size (obj_kind obj) - 3),
      case_count = case_count t + 1\<rparr>"

text \<open>The object of an event the encoder accepts.\<close>

definition event_object :: "bench_event_t \<Rightarrow> mcl_wire_tier0 option" where
  "event_object event =
     (case populate_object event of None \<Rightarrow> None | Some obj \<Rightarrow> if tier0_encodable 0 obj then Some obj else None)"

definition bench_event_ok :: "bench_event_t \<Rightarrow> bool" where
  "bench_event_ok event \<longleftrightarrow> event_ok event \<and> list_all signed_field_ok event"

lemma bench_case_eq:
  assumes "length encoded0 = 17" and "bench_event_ok event"
  shows "bench_case encoded0 decoded0 event t = map_option (\<lambda>obj. add_case event obj t) (event_object event)"
proof (cases "populate_object event")
  case None
  then show ?thesis by (simp add: bench_case_def event_object_def)
next
  case (Some obj)
  note view = populate_object_SomeD [OF Some]
  note sizes = json_size_length cbor_size_length protobuf_size_length
  show ?thesis
  proof (cases "tier0_encodable 0 obj")
    case False
    then have "fst (mcl_wire_tier0_encode (Some obj) (Some encoded0) 17 (Some 0)) \<noteq> MCL_WIRE_OK"
      using assms(1) by (simp add: mcl_wire_tier0_encode_def encode_status)
    then show ?thesis using Some False
      by (cases "mcl_wire_tier0_encode (Some obj) (Some encoded0) 17 (Some 0)")
         (simp add: bench_case_def event_object_def)
  next
    case True
    let ?wire = "tier0_wire 0 obj"
    have carried: "kind_carried 0 (obj_kind obj)" using True by (simp add: tier0_encodable_def)
    have size: "mcl_wire_tier0_encoded_size_at_major 0 (obj_kind obj) = mcl_wire_tier0_encoded_size (obj_kind obj)"
      using view(1) by (auto simp: mcl_wire_tier0_encoded_size_at_major_def mcl_wire_kind_allowed_at_major_def)
    have len: "length ?wire = mcl_wire_tier0_encoded_size (obj_kind obj)" "length ?wire \<le> 17"
      using length_tier0_wire [OF carried] encoded_size_bounds [of 0 "obj_kind obj"] carried by (simp_all add: size)
    have "mcl_wire_tier0_encode (Some obj) (Some encoded0) 17 (Some 0) =
        (MCL_WIRE_OK, Some (?wire @ drop (length ?wire) encoded0), Some (length ?wire))"
      using encode_success [OF True refl, of 17 encoded0 0] assms(1) len size
      by (simp add: mcl_wire_tier0_encode_def)
    moreover have "mcl_wire_tier0_decode (Some (?wire @ drop (length ?wire) encoded0)) (length ?wire) (Some decoded0) (Some 0) =
        (MCL_WIRE_OK, Some obj, Some (length ?wire))"
      using decode_tier0_wire [OF True order_refl, of "drop (length ?wire) encoded0" decoded0 0] view(2) by simp
    ultimately show ?thesis
      using assms(2) Some True len(1)
      by (simp add: bench_case_def event_object_def add_case_def bench_event_ok_def sizes event_ok_def Let_def)
  qed
qed

section \<open>The file\<close>

text \<open>The events of a file, between the brackets.\<close>

fun json_events :: "bench_event_t list \<Rightarrow> string" where
  "json_events [] = []"
| "json_events [e] = json_event e"
| "json_events (e # es) = json_event e @ CHR '','' # json_events es"

abbreviation events_key :: string where
  "events_key \<equiv> QUOTE # ''events'' @ QUOTE # '':[''"

definition bench_file :: "string \<Rightarrow> bench_event_t list \<Rightarrow> string \<Rightarrow> string" where
  "bench_file front events after = front @ events_key @ json_events events @ CHR '']'' # after"

primrec add_cases :: "bench_event_t list \<Rightarrow> bench_totals \<Rightarrow> bench_totals option" where
  "add_cases [] t = Some t"
| "add_cases (e # es) t = (case event_object e of None \<Rightarrow> None | Some obj \<Rightarrow> add_cases es (add_case e obj t))"

lemma no_space [simp]:
  "\<not> is_space (CHR ''{'')" "\<not> is_space (CHR '']'')" "\<not> is_space (CHR '','')"
  by (simp_all add: is_space_def)

lemma bench_loop_event:
  assumes "length encoded0 = 17" and "bench_event_ok e" and "c = CHR '','' \<or> c = CHR '']''"
  shows "bench_loop encoded0 decoded0 (json_event e @ c # rest) t =
     (case event_object e of
        None \<Rightarrow> Inl EXIT_FAILURE
      | Some obj \<Rightarrow> bench_loop encoded0 decoded0 (if c = CHR '','' then rest else c # rest) (add_case e obj t))"
proof -
  have parse: "parse_event (json_event e @ c # rest) = Some (e, c # rest)"
    using assms(2) by (intro parse_event_json) (simp add: bench_event_ok_def)
  have skip: "skip_ws (json_event e @ c # rest) = json_event e @ c # rest"
      "json_event e @ c # rest \<noteq> []" "hd (json_event e @ c # rest) \<noteq> CHR '']''" "skip_ws (c # rest) = c # rest"
    using assms(3) by (auto simp: json_event_def)
  show ?thesis
    unfolding bench_loop.simps [of encoded0 decoded0 "json_event e @ c # rest" t] Let_def skip(1) parse
    using skip assms(3) by (cases "event_object e") (auto simp: bench_case_eq [OF assms(1,2)])
qed

lemma bench_loop_json:
  assumes "length encoded0 = 17" and "list_all bench_event_ok events"
  shows "bench_loop encoded0 decoded0 (json_events events @ CHR '']'' # after) t =
     (case add_cases events t of None \<Rightarrow> Inl EXIT_FAILURE | Some t' \<Rightarrow> Inr t')"
proof -
  have last: "bench_loop encoded0 decoded0 (CHR '']'' # after) t = Inr t" for t
    by (subst bench_loop.simps) simp
  show ?thesis
    using assms(2)
  proof (induction events arbitrary: t rule: json_events.induct)
    case (2 e)
    then show ?case using bench_loop_event [OF assms(1), of e "CHR '']''"] by (simp add: last split: option.split)
  next
    case (3 e f es)
    then show ?case using bench_loop_event [OF assms(1), of e "CHR '',''"] by (simp split: option.split)
  qed (simp add: last)
qed

section \<open>The totals\<close>

text \<open>The totals over the events, where every event gives an object that the encoder accepts.\<close>

definition event_size :: "bench_event_t \<Rightarrow> nat" where
  "event_size event = mcl_wire_tier0_encoded_size (obj_kind (the (event_object event)))"

lemma event_size_bounds: "event_object e \<noteq> None \<Longrightarrow> 10 \<le> event_size e"
  using populate_object_SomeD(1) [of e]
  by (auto simp: event_size_def event_object_def mcl_wire_tier0_encoded_size_def split: option.splits if_splits)

lemma add_cases_total:
  "add_cases events t =
     (if list_all (\<lambda>e. event_object e \<noteq> None) events
      then Some \<lparr>json_total = json_total t + (\<Sum>e\<leftarrow>events. length (json_event e)),
                 cbor_string_total = cbor_string_total t + (\<Sum>e\<leftarrow>events. length (cbor_event False e)),
                 cbor_integer_total = cbor_integer_total t + (\<Sum>e\<leftarrow>events. length (cbor_event True e)),
                 protobuf_total = protobuf_total t + (\<Sum>e\<leftarrow>events. length (protobuf_event e)),
                 fixed_total = fixed_total t + (\<Sum>e\<leftarrow>events. event_size e),
                 context_total = context_total t + (\<Sum>e\<leftarrow>events. event_size e - 3),
                 case_count = case_count t + length events\<rparr>
      else None)"
  by (induction events arbitrary: t) (auto simp: add_case_def event_size_def split: option.split)

end
