(* ===== verification/Wire_Bench_Verdict.thy ===== *)
theory Wire_Bench_Verdict
  imports Wire_Bench_Spec
begin

text \<open>
  The properties of the benchmark, with the file \<open>benchmarks/cases-v0.1.json\<close> of the repository as the
  witness of its verdict.
\<close>

section \<open>Parsing and sizes\<close>

text \<open>
  An event printed as compact JSON, with keys of the field table and values of 64 bits, is parsed back
  to itself up to whatever follows it, and \<open>json_size\<close> is the length of that text.
\<close>

theorem bench_event_round_trip:
  assumes "event_ok event"
  shows "parse_event (json_event event @ rest) = Some (event, rest) \<and> json_size event = length (json_event event)"
  using parse_event_json [OF assms] json_size_length assms by (simp add: event_ok_def)

text \<open>
  \<open>cbor_size\<close> is the length of the event as a CBOR map, with text keys or with the protobuf numbers as
  keys, and \<open>protobuf_size\<close> that of the event as a protobuf message, where fields of value 0 are left out and
  the signed fields are zigzag codes of 32 bits.
\<close>

theorem bench_sizes_exact:
  assumes "event_ok event" and "list_all signed_field_ok event"
  shows "cbor_size event k = Some (length (cbor_event (k \<noteq> 0) event)) \<and>
     protobuf_size event = Some (length (protobuf_event event))"
  using cbor_size_length protobuf_size_length assms by blast

text \<open>
  C40: \<open>parse_integer\<close> reads a decimal number modulo \<open>2\<^sup>6\<^sup>4\<close>: its range check sees the magnitude after it
  has wrapped around, so a number that no \<open>int64_t\<close> holds is taken for a small one.
\<close>

theorem parse_integer_wraps:
  assumes "rest = [] \<or> \<not> is_digit (hd rest)"
  shows "parse_integer (decimal n @ rest) =
      (if int n mod 2 ^ 64 \<ge> 2 ^ 63 then None else Some (int n mod 2 ^ 64, rest)) \<and>
    parse_integer (CHR ''-'' # decimal n @ rest) =
      (if int n mod 2 ^ 64 > 2 ^ 63 then None else Some (- (int n mod 2 ^ 64), rest))"
  using parse_integer_decimal [OF assms] by blast

section \<open>The verdict\<close>

text \<open>
  C39: On a file of events in compact JSON, with known keys and 64-bit values, the benchmark exits with 0 if
  and only if every event gives an object that the encoder accepts, there are 41 of them, and the sums of
  their lengths as JSON, as CBOR with text and with integer keys, as protobuf and as Wire objects are the
  expected ones. The checks of the codec in its loop never fail on an object that the encoder accepts, and
  the expected total without the three context bytes follows from the others.
\<close>

theorem benchmark_verdict:
  assumes "fopen path = Some (bench_file front events after)"
    and "length (bench_file front events after) < MCL_BENCH_FILE_CAPACITY - 1"
    and "strstr events_key (bench_file front events after) = Some (length front)"
    and "list_all bench_event_ok events" and "length encoded0 = MCL_WIRE_TIER0_MAX_SIZE"
  shows "bench_main encoded0 decoded0 fopen False [program, path] = 0 \<longleftrightarrow>
     list_all (\<lambda>e. event_object e \<noteq> None) events \<and> length events = 41 \<and>
     (\<Sum>e\<leftarrow>events. length (json_event e)) = 4999 \<and> (\<Sum>e\<leftarrow>events. length (cbor_event False e)) = 3585 \<and>
     (\<Sum>e\<leftarrow>events. length (cbor_event True e)) = 1085 \<and> (\<Sum>e\<leftarrow>events. length (protobuf_event e)) = 922 \<and>
     (\<Sum>e\<leftarrow>events. event_size e) = 618"
proof -
  have bytes_left: "(\<Sum>e\<leftarrow>events. event_size e - 3) + 3 * length events = (\<Sum>e\<leftarrow>events. event_size e)"
    if "list_all (\<lambda>e. event_object e \<noteq> None) events"
    using that
  proof (induction events)
    case (Cons e es)
    then show ?case using event_size_bounds [of e] by simp
  qed simp
  have rest: "drop (length front + length events_key) (bench_file front events after) =
      json_events events @ CHR '']'' # after"
    by (simp add: bench_file_def)
  have "bench_main encoded0 decoded0 fopen False [program, path] =
      (case add_cases events \<lparr>json_total = 0, cbor_string_total = 0, cbor_integer_total = 0, protobuf_total = 0,
                              fixed_total = 0, context_total = 0, case_count = 0\<rparr> of
         None \<Rightarrow> EXIT_FAILURE
       | Some t \<Rightarrow> if case_count t = 41 \<and> json_total t = 4999 \<and> cbor_string_total t = 3585 \<and>
                      cbor_integer_total t = 1085 \<and> protobuf_total t = 922 \<and>
                      fixed_total t = 618 \<and> context_total t = 495 then 0 else EXIT_FAILURE)"
    using assms(1,2,3) rest bench_loop_json [OF assms(5,4)]
    by (simp add: bench_main_def split: option.split)
  then show ?thesis using bytes_left by (auto simp: add_cases_total)
qed

section \<open>The published cases\<close>

definition published_head :: string where
  \<open>published_head = ''{"source_corpus_sha256":"305b16c96d951404066f686533be00e9f4dc199daeec0e618a04f2385aebe4ec","status":"derived non-normative Tier-0 benchmark cases; Tier-1 STATUS event excluded",''\<close>

definition published_events :: "bench_event_t list" where
  "published_events = map (map (\<lambda>(k, v). \<lparr>bench_key = k, bench_value = v\<rparr>))
     [
      [(''type'', 1), (''priority'', 3), (''source_ref'', 2701131777), (''hazard_class'', 1),
       (''severity'', 3), (''confidence'', 124), (''x'', 26), (''y'', 4), (''z'', 0), (''radius'', 10),
       (''ttl'', 30)],
      [(''type'', 2), (''priority'', 2), (''source_ref'', 2701131777), (''request_class'', 2),
       (''target_ref'', 2969567234), (''x'', 16), (''y'', 0), (''radius'', 12), (''ttl'', 57)],
      [(''type'', 1), (''priority'', 3), (''source_ref'', 2717908993), (''hazard_class'', 1),
       (''severity'', 3), (''confidence'', 121), (''x'', 20), (''y'', 0), (''z'', 0), (''radius'', 8),
       (''ttl'', 52)],
      [(''type'', 2), (''priority'', 2), (''source_ref'', 2717908993), (''request_class'', 9),
       (''target_ref'', 2986344450), (''x'', 0), (''y'', 0), (''radius'', 24), (''ttl'', 84)],
      [(''type'', 3), (''priority'', 2), (''source_ref'', 2734686209), (''authority_class'', 1),
       (''jurisdiction'', 356), (''credential_ref'', 15770369), (''validity'', 191)],
      [(''type'', 2), (''priority'', 2), (''source_ref'', 2734686209), (''request_class'', 1),
       (''target_ref'', 0), (''x'', 0), (''y'', 0), (''radius'', 120), (''ttl'', 121)],
      [(''type'', 1), (''priority'', 3), (''source_ref'', 2734686209), (''hazard_class'', 7),
       (''severity'', 2), (''confidence'', 127), (''x'', 0), (''y'', 0), (''z'', 0), (''radius'', 160),
       (''ttl'', 159)],
      [(''type'', 3), (''priority'', 2), (''source_ref'', 2751463425), (''authority_class'', 3),
       (''jurisdiction'', 356), (''credential_ref'', 15770625), (''validity'', 191)],
      [(''type'', 2), (''priority'', 2), (''source_ref'', 2751463425), (''request_class'', 7),
       (''target_ref'', 3019898882), (''x'', 40), (''y'', - 16), (''radius'', 100), (''ttl'', 147)],
      [(''type'', 1), (''priority'', 3), (''source_ref'', 2768240641), (''hazard_class'', 6),
       (''severity'', 3), (''confidence'', 114), (''x'', 0), (''y'', 0), (''z'', 6), (''radius'', 32),
       (''ttl'', 115)],
      [(''type'', 1), (''priority'', 3), (''source_ref'', 2785017857), (''hazard_class'', 5),
       (''severity'', 3), (''confidence'', 119), (''x'', 12), (''y'', 8), (''z'', 32), (''radius'', 40),
       (''ttl'', 121)],
      [(''type'', 2), (''priority'', 2), (''source_ref'', 2801795073), (''request_class'', 2),
       (''target_ref'', 3070230530), (''x'', 8), (''y'', 0), (''radius'', 8), (''ttl'', 94)],
      [(''type'', 1), (''priority'', 3), (''source_ref'', 2818572289), (''hazard_class'', 2),
       (''severity'', 3), (''confidence'', 123), (''x'', 32), (''y'', - 4), (''z'', 0), (''radius'', 12),
       (''ttl'', 89)],
      [(''type'', 1), (''priority'', 3), (''source_ref'', 2835349505), (''hazard_class'', 4),
       (''severity'', 1), (''confidence'', 114), (''x'', 28), (''y'', 8), (''z'', 0), (''radius'', 8),
       (''ttl'', 147)],
      [(''type'', 0), (''priority'', 1), (''source_ref'', 2852126721), (''machine_class'', 1),
       (''capability_tag'', 31), (''ttl'', 121)],
      [(''type'', 2), (''priority'', 2), (''source_ref'', 2868903937), (''request_class'', 1),
       (''target_ref'', 0), (''x'', 0), (''y'', 0), (''radius'', 60), (''ttl'', 115)],
      [(''type'', 4), (''priority'', 2), (''source_ref'', 2885681153), (''affected_capability'', 2),
       (''health'', 75), (''severity'', 3), (''ttl'', 147)],
      [(''type'', 1), (''priority'', 3), (''source_ref'', 2902458369), (''hazard_class'', 9),
       (''severity'', 3), (''confidence'', 126), (''x'', 16), (''y'', 0), (''z'', 0), (''radius'', 32),
       (''ttl'', 81)],
      [(''type'', 5), (''priority'', 1), (''source_ref'', 2919235585), (''transport_id'', 2),
       (''profile_id'', 1), (''endpoint_token'', 3490512897), (''validity'', 159)],
      [(''type'', 5), (''priority'', 1), (''source_ref'', 2936012801), (''transport_id'', 3),
       (''profile_id'', 1), (''endpoint_token'', 3490512898), (''validity'', 159)],
      [(''type'', 5), (''priority'', 1), (''source_ref'', 2952790017), (''transport_id'', 4),
       (''profile_id'', 1), (''endpoint_token'', 3490512899), (''validity'', 191)],
      [(''type'', 1), (''priority'', 3), (''source_ref'', 2969567233), (''hazard_class'', 8),
       (''severity'', 3), (''confidence'', 124), (''x'', 0), (''y'', 0), (''z'', 0), (''radius'', 48),
       (''ttl'', 115)],
      [(''type'', 3), (''priority'', 2), (''source_ref'', 2986344449), (''authority_class'', 1),
       (''jurisdiction'', 356), (''credential_ref'', 15774209), (''validity'', 191)],
      [(''type'', 2), (''priority'', 2), (''source_ref'', 2986344449), (''request_class'', 8),
       (''target_ref'', 3254779906), (''x'', 0), (''y'', 0), (''radius'', 120), (''ttl'', 147)],
      [(''type'', 1), (''priority'', 3), (''source_ref'', 3003121665), (''hazard_class'', 3),
       (''severity'', 3), (''confidence'', 127), (''x'', 80), (''y'', 40), (''z'', 0), (''radius'', 140),
       (''ttl'', 159)],
      [(''type'', 3), (''priority'', 2), (''source_ref'', 3019898881), (''authority_class'', 3),
       (''jurisdiction'', 356), (''credential_ref'', 15774721), (''validity'', 191)],
      [(''type'', 2), (''priority'', 2), (''source_ref'', 3019898881), (''request_class'', 3),
       (''target_ref'', 0), (''x'', 0), (''y'', 0), (''radius'', 160), (''ttl'', 127)],
      [(''type'', 1), (''priority'', 3), (''source_ref'', 3036676097), (''hazard_class'', 10),
       (''severity'', 2), (''confidence'', 108), (''x'', 100), (''y'', 0), (''z'', 0), (''radius'', 120),
       (''ttl'', 159)],
      [(''type'', 2), (''priority'', 2), (''source_ref'', 3053453313), (''request_class'', 4),
       (''target_ref'', 3321888770), (''x'', 12), (''y'', 0), (''radius'', 16), (''ttl'', 94)],
      [(''type'', 2), (''priority'', 2), (''source_ref'', 3070230529), (''request_class'', 5),
       (''target_ref'', 3338665986), (''x'', - 12), (''y'', 0), (''radius'', 8), (''ttl'', 147)],
      [(''type'', 0), (''priority'', 1), (''source_ref'', 3087007745), (''machine_class'', 7),
       (''capability_tag'', 27), (''ttl'', 121)],
      [(''type'', 3), (''priority'', 2), (''source_ref'', 3103784961), (''authority_class'', 2),
       (''jurisdiction'', 1), (''credential_ref'', 15776001), (''validity'', 159)],
      [(''type'', 2), (''priority'', 2), (''source_ref'', 3103784961), (''request_class'', 3),
       (''target_ref'', 0), (''x'', 0), (''y'', 0), (''radius'', 100), (''ttl'', 57)],
      [(''type'', 4), (''priority'', 2), (''source_ref'', 3120562177), (''affected_capability'', 1),
       (''health'', 60), (''severity'', 2), (''ttl'', 147)],
      [(''type'', 2), (''priority'', 2), (''source_ref'', 3137339393), (''request_class'', 6),
       (''target_ref'', 3405774850), (''x'', 4), (''y'', 0), (''radius'', 8), (''ttl'', 89)],
      [(''type'', 3), (''priority'', 2), (''source_ref'', 3154116609), (''authority_class'', 4),
       (''jurisdiction'', 356), (''credential_ref'', 15776769), (''validity'', 191)],
      [(''type'', 2), (''priority'', 2), (''source_ref'', 3154116609), (''request_class'', 6),
       (''target_ref'', 0), (''x'', 60), (''y'', 0), (''radius'', 80), (''ttl'', 153)],
      [(''type'', 0), (''priority'', 1), (''source_ref'', 3170893825), (''machine_class'', 1),
       (''capability_tag'', 11), (''ttl'', 121)],
      [(''type'', 5), (''priority'', 1), (''source_ref'', 3170893825), (''transport_id'', 1),
       (''profile_id'', 1), (''endpoint_token'', 0), (''validity'', 159)],
      [(''type'', 2), (''priority'', 2), (''source_ref'', 3187671041), (''request_class'', 9),
       (''target_ref'', 0), (''x'', 48), (''y'', 4), (''radius'', 20), (''ttl'', 118)],
      [(''type'', 4), (''priority'', 2), (''source_ref'', 3204448258), (''affected_capability'', 2),
       (''health'', 40), (''severity'', 2), (''ttl'', 159)]
     ]"

text \<open>Behind the events the file ends with a brace and a line feed.\<close>

abbreviation published_file :: string where
  "published_file \<equiv> bench_file published_head published_events [CHR ''}'', CHR 0x0A]"

lemma strstr_append: "strstr p (xs @ p) = Some (length xs) \<Longrightarrow> strstr p (xs @ p @ ys) = Some (length xs)"
proof (induction xs)
  case Nil
  then show ?case by (cases p; cases ys) auto
next
  case (Cons x xs)
  then have "\<not> prefix p (x # xs @ p)" "x \<noteq> NUL" "strstr p (xs @ p) = Some (length xs)"
    by (auto split: if_splits)
  moreover have "prefix p (x # xs @ p)" if "prefix p ((x # xs @ p) @ ys)"
    by (rule prefix_length_prefix [OF that]) simp_all
  ultimately show ?case using Cons.IH by auto
qed

lemma published_events_ok: "list_all bench_event_ok published_events" by code_simp

lemma published_objects: "list_all (\<lambda>e. event_object e \<noteq> None) published_events" by code_simp

lemma published_json: "(\<Sum>e\<leftarrow>published_events. json_size e) = 4999" by code_simp

lemma published_cbor_text: "(\<Sum>e\<leftarrow>published_events. the (cbor_size e 0)) = 3585" by code_simp

lemma published_cbor_integer: "(\<Sum>e\<leftarrow>published_events. the (cbor_size e 1)) = 1085" by code_simp

lemma published_protobuf: "(\<Sum>e\<leftarrow>published_events. the (protobuf_size e)) = 922" by code_simp

lemma published_wire: "(\<Sum>e\<leftarrow>published_events. event_size e) = 618" by code_simp

lemma published_count: "length published_events = 41" by code_simp

lemma published_lengths:
  "(\<Sum>e\<leftarrow>published_events. length (json_event e)) = 4999"
  "(\<Sum>e\<leftarrow>published_events. length (cbor_event False e)) = 3585"
  "(\<Sum>e\<leftarrow>published_events. length (cbor_event True e)) = 1085"
  "(\<Sum>e\<leftarrow>published_events. length (protobuf_event e)) = 922"
proof -
  have "event_ok e" "list_all signed_field_ok e" "list_all field_ok e" if "e \<in> set published_events" for e
    using that published_events_ok by (simp_all add: list_all_iff bench_event_ok_def event_ok_def)
  note sizes = json_size_length [OF this(3)] cbor_size_length [OF this(1)] protobuf_size_length [OF this(1,2)]
  have "map json_size published_events = map (\<lambda>e. length (json_event e)) published_events"
    "map (\<lambda>e. the (cbor_size e 0)) published_events = map (\<lambda>e. length (cbor_event False e)) published_events"
    "map (\<lambda>e. the (cbor_size e 1)) published_events = map (\<lambda>e. length (cbor_event True e)) published_events"
    "map (\<lambda>e. the (protobuf_size e)) published_events = map (\<lambda>e. length (protobuf_event e)) published_events"
    using sizes by simp_all
  with published_json published_cbor_text published_cbor_integer published_protobuf show
    "(\<Sum>e\<leftarrow>published_events. length (json_event e)) = 4999"
    "(\<Sum>e\<leftarrow>published_events. length (cbor_event False e)) = 3585"
    "(\<Sum>e\<leftarrow>published_events. length (cbor_event True e)) = 1085"
    "(\<Sum>e\<leftarrow>published_events. length (protobuf_event e)) = 922"
    by simp_all
qed

lemma length_json_events: "length (json_events es) \<le> (\<Sum>e\<leftarrow>es. length (json_event e)) + length es"
  by (induction es rule: json_events.induct) auto

lemma published_head: "strstr events_key (published_head @ events_key) = Some (length published_head)"
    "length published_head = 177"
  by code_simp+

theorem benchmark_verdict_witness:
  "bench_main (replicate 17 0) zero_object (\<lambda>_. Some published_file) False [''benchmark'', ''cases-v0.1.json''] = 0"
proof -
  have "length published_file < MCL_BENCH_FILE_CAPACITY - 1"
    using length_json_events [of published_events] published_count published_lengths(1) published_head(2)
    by (simp add: bench_file_def)
  moreover have "strstr events_key published_file = Some (length published_head)"
    unfolding bench_file_def by (rule strstr_append [OF published_head(1)])
  ultimately have "bench_main (replicate 17 0) zero_object (\<lambda>_. Some published_file) False
      [''benchmark'', ''cases-v0.1.json''] = 0 \<longleftrightarrow> True"
    using benchmark_verdict [of "\<lambda>_. Some published_file" "''cases-v0.1.json''" published_head published_events
        "[CHR ''}'', CHR 0x0A]" "replicate 17 0" zero_object "''benchmark''"]
      published_events_ok published_objects published_wire published_count published_lengths by simp
  then show ?thesis by simp
qed

definition sample_event :: bench_event_t where
  "sample_event = [\<lparr>bench_key = ''type'', bench_value = 1\<rparr>, \<lparr>bench_key = ''z'', bench_value = - 16\<rparr>]"

lemma sample_event_ok: "event_ok sample_event" "list_all signed_field_ok sample_event"
  by code_simp+

definition sample_text :: string where
  \<open>sample_text = ''{"type":1,"z":-16}''\<close>

theorem bench_event_round_trip_witness: "parse_event (sample_text @ '', '') = Some (sample_event, '', '')"
proof -
  have "json_event sample_event = sample_text" by code_simp
  then show ?thesis using bench_event_round_trip [OF sample_event_ok(1), of "'', ''"] by simp
qed

theorem bench_sizes_exact_witness:
  "protobuf_size sample_event = Some (length [0x08, 1, 0x60, 31 :: u8])"
proof -
  have "protobuf_event sample_event = [0x08, 1, 0x60, 31]" by code_simp
  then show ?thesis using bench_sizes_exact [OF sample_event_ok, of 0] by simp
qed

theorem parse_integer_wraps_witness: "parse_integer ''18446744073709551617}'' = Some (1, ''}'')"
proof -
  have "decimal 18446744073709551617 = ''18446744073709551617''" by (simp add: decimal.simps) code_simp
  then show ?thesis using parse_integer_wraps [of "''}''" 18446744073709551617] by (simp add: is_digit_def)
qed

end
