(* ===== verification/Wire_Receiver.thy ===== *)
theory Wire_Receiver
  imports Wire_Tier0_Ext_Spec
begin

text \<open>
  What the decoders of \<open>src/wire.c\<close> and \<open>src/extension.c\<close> promise a receiver about its own control flow: the
  objects it gets are well-typed, its callback is called a bounded number of times, and it may wait for
  more bytes as long as the answer is \<open>MCL_WIRE_ERR_TRUNCATED\<close>.
\<close>

unbundle bit_operations_syntax

section \<open>Prefixes of an object\<close>

lemma uvarint_decode_short:
  assumes "m < length (uvarint_wire v)"
  shows "mcl_wire_uvarint_decode (Some (uvarint_wire v @ rest)) m (Some v0) (Some c0) =
     (MCL_WIRE_ERR_TRUNCATED, Some v0, Some c0)"
proof -
  obtain bs b where split: "uvarint_wire v = bs @ [b]" by (simp add: uvarint_wire_def)
  then have cont: "\<forall>c \<in> set bs. cont c" using uvarint_wire_iff [of bs b v] by simp
  have m: "m \<le> length bs" "m < 5" using assms split uvarint_len_bound [of v] length_uvarint_wire [of v] by simp_all
  then have "\<forall>c \<in> set (take m (uvarint_wire v @ rest)). cont c"
    using cont by (auto simp: split dest: in_set_takeD)
  then have "uvarint_end (uvarint_wire v @ rest) m = min m 5"
    using m assms by (intro uvarint_end_all) simp_all
  then show ?thesis
    using assms m(2) by (simp add: uvarint_decode_result uvarint_result_def Let_def)
qed

lemma decode_body_prefix:
  assumes "tier0_encodable major obj" and "x \<le> 1" and "m < length (object_bytes x major obj)"
  shows "mcl_wire_tier0_decode_body (Some (object_bytes x major obj @ rest)) m (Some o0) (Some c0) =
     (MCL_WIRE_ERR_TRUNCATED, Some o0, Some c0)"
proof (cases "m < 2")
  case True
  then show ?thesis by (simp add: decode_body_short)
next
  case False
  have kind: "wire_kind (object_bytes x major obj @ rest) = Some (obj_kind obj)"
    by (rule wire_kind_object_bytes [OF assms(1,2)])
  have size: "wire_size (object_bytes x major obj @ rest) (obj_kind obj) = length (object_bytes x major obj)"
    by (rule wire_padding_object_bytes(2) [OF assms(1,2)])
  show ?thesis using decode_body_accepted [OF kind _ _, of m o0 c0] False assms(3) by (simp add: size)
qed

text \<open>Every proper prefix of an object with its extensions is reported truncated; the callback is not called.\<close>

lemma ext_wire_prefix:
  assumes "ext_encodable major obj ts" and "m < length (ext_wire major obj ts)"
  shows "\<exists>o1. mcl_wire_tier0_decode_ext_accept (Some (ext_wire major obj ts @ rest)) m (Some o0) (Some r0)
      accept user (Some c0) = (MCL_WIRE_ERR_TRUNCATED, Some o1, Some r0, Some c0, user)"
proof -
  let ?x = "ext_bit ts"
  let ?body = "object_bytes ?x major obj" and ?bs = "ext_wire major obj ts @ rest"
  have enc: "tier0_encodable major obj" using assms(1) by (simp add: ext_encodable_def)
  have bs: "?bs = ?body @ ext_suffix ts @ rest" by (simp add: ext_wire_def)
  show ?thesis
  proof (cases "m < length ?body")
    case True
    from decode_ext_refused_body [OF decode_body_prefix [OF enc ext_bit_le True, of "ext_suffix ts @ rest" o0 0],
        of r0 accept user c0]
    show ?thesis by (simp add: bs)
  next
    case False
    let ?b = "length ?body" and ?v = "of_nat (length (block_wire ts)) :: u32"
    have ts: "ts \<noteq> []" using False assms(2) by (auto simp: ext_wire_def ext_suffix_def)
    have B: "length (block_wire ts) \<le> 256" using assms(1) by (simp add: ext_encodable_def)
    then have v: "unat ?v = length (block_wire ts)" "?v \<noteq> 0"
      using unat_block_length [OF B] ts by (auto simp: word_unat_eq_iff)
    have "2 \<le> ?b" by (simp add: object_bytes_def)
    then have n: "2 \<le> m" using False by simp
    have "mcl_wire_tier0_decode_body (Some ?bs) m (Some o0) (Some 0) =
        (MCL_WIRE_OK, Some (wire_view major obj), Some ?b)"
      using decode_body_object_bytes [OF enc ext_bit_le, of ts m "ext_suffix ts @ rest" o0 0] False assms(2)
      by (simp add: bs ext_wire_def)
    note body = decode_ext_block [OF this n]
    have bit: "hdr_extension_present (wire_header ?bs) \<noteq> 0"
      using wire_header_object_bytes [OF enc ext_bit_le, of ts "ext_suffix ts @ rest"] ts by (simp add: bs ext_bit_def)
    have suffix: "drop ?b ?bs = uvarint_wire ?v @ block_wire ts @ rest" using ts by (simp add: bs ext_suffix_def)
    show ?thesis
    proof (cases "m - ?b < length (uvarint_wire ?v)")
      case True
      from body [OF bit, unfolded suffix, OF uvarint_decode_short [OF True], of r0 accept user c0]
      show ?thesis by simp
    next
      case long: False
      have total: "m - ?b \<le> length (uvarint_wire ?v @ block_wire ts @ rest)"
        using assms(2) ts by (simp add: ext_wire_def ext_suffix_def)
      have short: "unat ?v > m - ?b - length (uvarint_wire ?v)"
        using assms(2) ts False long v(1) by (simp add: ext_wire_def ext_suffix_def)
      from body [OF bit, unfolded suffix, OF uvarint_decode_wire [OF _ total], of r0 accept user c0] long short v B
      show ?thesis by simp
    qed
  qed
qed

text \<open>
  C10: A receiver may wait for the rest of an object. For every object the decoder accepts, with any
  callback, every shorter prefix of it is answered with \<open>MCL_WIRE_ERR_TRUNCATED\<close>, without a call of the
  callback and with the reader and \<open>*consumed\<close> as they were; and as soon as its last byte has arrived,
  however many more follow, the answer is that object.
\<close>

theorem ext_decode_progress:
  assumes "n \<le> length bs"
    and "mcl_wire_tier0_decode_ext_accept (Some bs) n (Some o0) (Some r0) accept user (Some c0) =
      (MCL_WIRE_OK, Some obj, r, Some c, user')"
  shows "(\<forall>m < c. \<exists>o1. mcl_wire_tier0_decode_ext_accept (Some bs) m (Some o0) (Some r0) accept user (Some c0) =
       (MCL_WIRE_ERR_TRUNCATED, Some o1, Some r0, Some c0, user)) \<and>
     (\<forall>m. c \<le> m \<and> m \<le> length bs \<longrightarrow>
       mcl_wire_tier0_decode_ext_accept (Some bs) m (Some o0) (Some r0) accept user (Some c0) =
         (MCL_WIRE_OK, Some obj, r, Some c, user'))"
proof -
  obtain ts rest where dec: "ext_encodable (wire_major bs) obj ts" "bs = ext_wire (wire_major bs) obj ts @ rest"
    "c = length (ext_wire (wire_major bs) obj ts)" "wire_view (wire_major bs) obj = obj"
    "r = Some (suffix_reader (ext_suffix ts @ rest) ts)"
    "accept_all accept user (rdx_views (suffix_reader (ext_suffix ts @ rest) ts) ts) = (True, user')"
    using decode_ext_OK_bytes [OF assms] by blast
  from ext_wire_prefix [OF dec(1), of _ rest o0 r0 accept user c0]
    decode_ext_wire [OF dec(1) _ _ dec(6), of _ o0 r0 c0] dec(2-5)
  show ?thesis by metis
qed

section \<open>The objects a receiver gets\<close>

text \<open>
  \<open>fields_in_range\<close> speaks of the member of the body that the kind selects. The other members of the C
  union share its storage, so nothing is said of them.
\<close>

definition well_typed :: "u8 \<Rightarrow> mcl_wire_tier0 \<Rightarrow> bool" where
  "well_typed major obj \<longleftrightarrow>
     obj_kind obj \<in> (if major = 0 then {0, 1, 2, 3, 4, 5, 6} else if major = 1 then {0, 5, 6} else {}) \<and>
     obj_priority obj \<le> 3 \<and> fields_in_range obj \<and>
     (major = 1 \<and> obj_kind obj = MCL_WIRE_KIND_PRESENCE \<longrightarrow>
        presence_machine_class (body_presence (obj_body obj)) = 0)"

lemma well_typed_view:
  assumes "tier0_encodable major obj" and "wire_view major obj = obj"
  shows "well_typed major obj"
proof -
  have "presence_machine_class (body_presence (obj_body obj)) = 0"
    if "major = 1" "obj_kind obj = MCL_WIRE_KIND_PRESENCE"
    using that by (subst assms(2) [symmetric]) (simp add: wire_view_def)
  with assms(1) show ?thesis by (auto simp: well_typed_def tier0_encodable_iff kind_carried_cases)
qed

text \<open>
  C11: Whatever bytes arrive, an object that either decoder delivers is well-typed: its kind is one of
  those the major version of its first byte carries, its priority is at most 3, every member of its body
  is within the range of its field on the wire, and a presence at the Stable major has machine class 0;
  and each extension that the reader delivers with it has an id between 1 and \<open>0x7FFFFFFF\<close>, a
  criticality of 0 or 1, and its value in the buffer.
\<close>

theorem decoded_objects_well_typed:
  assumes "n \<le> length bs"
  shows "(mcl_wire_tier0_decode (Some bs) n (Some o0) (Some c0) = (MCL_WIRE_OK, Some obj, Some c) \<longrightarrow>
       well_typed (drop_bit 4 (bs ! 0)) obj) \<and>
     (mcl_wire_tier0_decode_ext_accept (Some bs) n (Some o0) (Some r0) accept user (Some c0) =
         (MCL_WIRE_OK, Some obj, Some r, Some c, user') \<longrightarrow>
       well_typed (drop_bit 4 (bs ! 0)) obj \<and>
       (\<exists>es. drain_reader r = (MCL_WIRE_OK, es) \<and>
         (\<forall>e \<in> set es. ext_id e \<noteq> 0 \<and> ext_id e \<le> 0x7FFFFFFF \<and> ext_critical e \<le> 1 \<and> readable e)))"
proof (intro conjI impI)
  assume "mcl_wire_tier0_decode (Some bs) n (Some o0) (Some c0) = (MCL_WIRE_OK, Some obj, Some c)"
  from decode_OK_bytes(1,4) [OF assms this] show "well_typed (drop_bit 4 (bs ! 0)) obj"
    by (simp add: well_typed_view wire_major_byte)
next
  assume run: "mcl_wire_tier0_decode_ext_accept (Some bs) n (Some o0) (Some r0) accept user (Some c0) =
    (MCL_WIRE_OK, Some obj, Some r, Some c, user')"
  obtain ts rest where dec: "ext_encodable (wire_major bs) obj ts" "wire_view (wire_major bs) obj = obj"
    "r = suffix_reader (ext_suffix ts @ rest) ts"
    using decode_ext_OK_bytes [OF assms run] by blast
  then show "well_typed (drop_bit 4 (bs ! 0)) obj"
    by (simp add: well_typed_view wire_major_byte ext_encodable_def)
  show "\<exists>es. drain_reader r = (MCL_WIRE_OK, es) \<and>
      (\<forall>e \<in> set es. ext_id e \<noteq> 0 \<and> ext_id e \<le> 0x7FFFFFFF \<and> ext_critical e \<le> 1 \<and> readable e)"
    using drain_ext_wire [OF dec(1), of rest] by (auto simp: dec(3) list_all_iff ext_ok_def)
qed

section \<open>The calls of the callback\<close>

definition counted :: "'u mcl_wire_extension_accept_fn \<Rightarrow> ('u \<times> nat) mcl_wire_extension_accept_fn" where
  "counted f = (\<lambda>(user, calls) i v n. case f user i v n of (answer, user') \<Rightarrow> (answer, user', Suc calls))"

lemma length_tlv_wire_ge: "2 \<le> length (tlv_wire t)"
  using length_block_wire_ge [of "[t]"] by simp

text \<open>The scan with the counter is the scan, and it calls at most once for every two bytes of the block.\<close>

lemma scan_counted:
  assumes "rdx_wf r"
  shows "\<exists>k. ext_scan (Some (counted f)) (user, calls) r e0 h0 =
      (case ext_scan (Some f) user r e0 h0 of (st, user') \<Rightarrow> (st, user', calls + k)) \<and>
    2 * k \<le> length (rdx_rest r)"
  using assms
proof (induction "rdx_size r - rdx_offset r" arbitrary: r user calls e0 h0 rule: less_induct)
  case less
  from less.prems show ?case
  proof (cases rule: reader_next_cases [of r e0 h0])
    case block_end
    then show ?thesis by (intro exI [of _ 0]) (simp add: ext_scan_end)
  next
    case (refused st r')
    then show ?thesis by (intro exI [of _ 0]) (simp add: ext_scan_refused)
  next
    case (extension t rest)
    note scan = ext_scan_extension [OF extension(4)]
    note after = rdx_after_wf [OF less.prems extension(1)]
    have "rdx_size (rdx_after t r) - rdx_offset (rdx_after t r) < rdx_size r - rdx_offset r"
      using reader_next_progress [OF extension(4)] by simp
    note IH = less.hyps [OF this after(1)]
    have size: "length (rdx_rest r) = length (tlv_wire t) + length (rdx_rest (rdx_after t r))"
      by (simp add: after(2) extension(1))
    let ?e = "rdx_view t r"
    obtain answer user1 where f: "f user (ext_id ?e) (ext_value ?e) (ext_value_size ?e) = (answer, user1)"
      by (cases "f user (ext_id ?e) (ext_value ?e) (ext_value_size ?e)")
    consider (optional) "ext_critical ?e = 0" | (rejected) "ext_critical ?e \<noteq> 0" "answer = 0"
      | (accepted) "ext_critical ?e \<noteq> 0" "answer \<noteq> 0" by blast
    then show ?thesis
    proof cases
      case optional
      with IH [of user calls ?e 1] size show ?thesis by (auto simp: scan)
    next
      case rejected
      with f size length_tlv_wire_ge [of t] show ?thesis
        by (intro exI [of _ 1]) (simp add: scan counted_def)
    next
      case accepted
      obtain k where "ext_scan (Some (counted f)) (user1, Suc calls) (rdx_after t r) ?e 1 =
          (case ext_scan (Some f) user1 (rdx_after t r) ?e 1 of (st, user') \<Rightarrow> (st, user', Suc calls + k))"
        "2 * k \<le> length (rdx_rest (rdx_after t r))"
        using IH [of user1 "Suc calls" ?e 1] by blast
      with accepted f size length_tlv_wire_ge [of t] show ?thesis
        by (intro exI [of _ "Suc k"]) (simp add: scan counted_def split: prod.splits)
    qed
  qed
qed

lemma decode_body_shape:
  assumes "n \<le> length bs" and "mcl_wire_tier0_decode_body (Some bs) n (Some o0) (Some 0) = (MCL_WIRE_OK, obj, b)"
  obtains obj' b' where "2 \<le> n" "obj = Some obj'" "b = Some b'"
proof -
  have n: "2 \<le> n" using assms(2) decode_body_short [of n bs o0 0] by (cases "n < 2") auto
  show thesis
  proof (cases "wire_kind bs")
    case None
    with assms(2) show thesis using decode_body_refused [OF n] by simp
  next
    case (Some kind)
    with assms n that decode_body_accepted [OF Some n assms(1), of o0 0] show thesis by (auto split: if_splits)
  qed
qed

text \<open>
  C12: The decoder returns after a bounded number of calls of the callback, whatever the callback does and
  whatever bytes arrive: counting its calls changes nothing in the outcome, and the count is at most one
  for every two bytes of the input and never above 128.
\<close>

theorem callback_calls_bounded:
  assumes "n \<le> length bs"
  shows "\<exists>st obj r c user' calls.
     mcl_wire_tier0_decode_ext_accept (Some bs) n (Some o0) (Some r0) (Some f) user (Some c0) = (st, obj, r, c, user') \<and>
     mcl_wire_tier0_decode_ext_accept (Some bs) n (Some o0) (Some r0) (Some (counted f)) (user, 0) (Some c0) =
       (st, obj, r, c, user', calls) \<and>
     2 * calls \<le> n \<and> calls \<le> 128"
proof -
  obtain st obj b where body: "mcl_wire_tier0_decode_body (Some bs) n (Some o0) (Some 0) = (st, obj, b)"
    by (cases "mcl_wire_tier0_decode_body (Some bs) n (Some o0) (Some 0)")
  show ?thesis
  proof (cases "st = MCL_WIRE_OK")
    case False
    show ?thesis by (simp add: decode_ext_refused_body [OF body False])
  next
    case True
    obtain obj' b' where n: "2 \<le> n" and shape: "obj = Some obj'" "b = Some b'"
      using decode_body_shape [OF assms body [unfolded True]] .
    note body = body [unfolded True shape]
    show ?thesis
    proof (cases "hdr_extension_present (wire_header bs) = 0")
      case True
      show ?thesis by (simp add: decode_ext_no_block [OF body n True])
    next
      case bit: False
      have "n - b' \<le> length (drop b' bs)" using assms by simp
      then obtain st v k where len: "mcl_wire_uvarint_decode (Some (drop b' bs)) (n - b') (Some 0) (Some 0) = (st, Some v, Some k)"
        using uvarint_decode_shape by blast
      note run = decode_ext_block [OF body n bit len, of r0]
      show ?thesis
      proof (cases "st = MCL_WIRE_OK \<and> v \<noteq> 0 \<and> unat v \<le> 256 \<and> unat v \<le> n - b' - k")
        case False
        then consider "st \<noteq> MCL_WIRE_OK" | "v = 0" | "unat v > 256" | "unat v > n - b' - k" by linarith
        then show ?thesis by cases (simp_all add: run)
      next
        case True
        let ?r = "block_reader (drop (b' + k) bs) (unat v)"
        have "unat v \<le> length bs - (b' + k)" using True assms by linarith
        then have "rdx_wf ?r" by simp
        from scan_counted [OF this, of f user 0 no_extension 0] obtain calls where
          calls: "ext_scan (Some (counted f)) (user, 0) ?r no_extension 0 =
            (case ext_scan (Some f) user ?r no_extension 0 of (st, user') \<Rightarrow> (st, user', calls))"
          "2 * calls \<le> length (rdx_rest ?r)" by auto
        moreover have "length (rdx_rest ?r) \<le> unat v" by simp
        ultimately have "2 * calls \<le> n" "calls \<le> 128" using True by linarith+
        with True calls(1) show ?thesis
          unfolding run no_extension_def [symmetric]
          by (cases "ext_scan (Some f) user ?r no_extension 0") auto
      qed
    qed
  qed
qed

section \<open>The statements at concrete inputs\<close>

theorem ext_decode_progress_witness:
  "\<exists>o1. mcl_wire_tier0_decode_ext_accept (Some sample_ext_bytes) 22 (Some zero_object) (Some (block_reader [] 0))
     (Some (accept_known (\<lambda>i. i = 3))) () (Some 99) =
       (MCL_WIRE_ERR_TRUNCATED, Some o1, Some (block_reader [] 0), Some 99, ())"
proof -
  have "23 \<le> length sample_ext_bytes" by (simp add: sample_ext_bytes_def sample_bytes_def sample_block_def)
  from ext_decode_progress [OF this sample_ext_decoding] show ?thesis by simp
qed

theorem decoded_objects_well_typed_witness:
  "well_typed 0 sample_hazard \<and>
   (\<exists>es. drain_reader (block_reader sample_block 7) = (MCL_WIRE_OK, es) \<and>
     list_all (\<lambda>e. ext_id e \<noteq> 0 \<and> ext_id e \<le> 0x7FFFFFFF \<and> ext_critical e \<le> 1 \<and> readable e) es)"
proof -
  have "23 \<le> length sample_ext_bytes" "drop_bit 4 (sample_ext_bytes ! 0) = 0"
    by (simp_all add: sample_ext_bytes_def sample_bytes_def sample_block_def)
  with decoded_objects_well_typed [THEN conjunct2, THEN mp, OF _ sample_ext_decoding]
  show ?thesis by (simp add: list_all_iff)
qed

theorem callback_calls_bounded_witness:
  "\<exists>r calls. mcl_wire_tier0_decode_ext_accept (Some sample_ext_bytes) 23 (Some zero_object) (Some (block_reader [] 0))
     (Some (counted (accept_known (\<lambda>i. i = 3)))) ((), 0) (Some 99) =
       (MCL_WIRE_OK, Some sample_hazard, r, Some 23, (), calls) \<and> 2 * calls \<le> 23"
proof -
  have "23 \<le> length sample_ext_bytes" by (simp add: sample_ext_bytes_def sample_bytes_def sample_block_def)
  from callback_calls_bounded [OF this, of zero_object "block_reader [] 0" "accept_known (\<lambda>i. i = 3)" "()" 99]
  show ?thesis by (auto simp: sample_ext_decoding)
qed

end
