(* ===== verification/Wire_Memory.thy ===== *)
theory Wire_Memory
  imports Wire_Receiver
begin

text \<open>
  The decoders depend on no byte behind \<open>data_size\<close>. A buffer of the model holds whatever lies behind the
  data in memory; here two buffers that agree on the data are shown to give the same answers, for any
  bytes behind it.
\<close>

unbundle bit_operations_syntax

section \<open>The fixed body\<close>

lemma bits_of_prefix:
  assumes "take n bs = take n bs'" and "m \<le> n"
  shows "bits_of (take m bs) = bits_of (take m bs')"
  using assms by (metis min.absorb1 take_take)

lemma wire_header_prefix:
  assumes "take n bs = take n bs'" and "2 \<le> n"
  shows "wire_header bs = wire_header bs'"
  using assms nth_take [of 0 n bs] nth_take [of 0 n bs'] nth_take [of 1 n bs] nth_take [of 1 n bs']
  by (simp add: wire_header_def)

lemma wire_object_take:
  assumes "kind_carried (wire_major bs) kind"
  shows "wire_object bs kind =
     slot_values (tier0_layout (wire_major bs) kind) (drop 16 (bits_of (take (wire_size bs kind) bs)))
       (zero_object\<lparr>obj_kind := kind, obj_priority := hdr_priority (wire_header bs)\<rparr>)"
proof -
  let ?l = "tier0_layout (wire_major bs) kind" and ?n = "wire_size bs kind"
  have "slots_width ?l \<le> 8 * ?n - 16"
    using layout_width_encoded_size(1) [OF assms] by (simp add: wire_size_def)
  moreover have "drop 16 (bits_of (take ?n bs)) = take (8 * ?n - 16) (drop 16 (bits_of bs))"
    by (simp add: bits_of_take drop_take mult.commute)
  ultimately show ?thesis by (simp add: wire_object_def slot_values_take)
qed

lemma decode_body_prefix_only:
  assumes "n \<le> length bs" and "n \<le> length bs'" and "take n bs = take n bs'"
  shows "mcl_wire_tier0_decode_body (Some bs) n (Some o0) (Some c0) =
     mcl_wire_tier0_decode_body (Some bs') n (Some o0) (Some c0)"
proof (cases "n < 2")
  case True
  then show ?thesis by (simp add: decode_body_short)
next
  case False
  then have n: "2 \<le> n" by simp
  note header = wire_header_prefix [OF assms(3) n]
  have kind: "wire_kind bs = wire_kind bs'" by (simp add: wire_kind_def header)
  show ?thesis
  proof (cases "wire_kind bs")
    case None
    with kind n show ?thesis by (simp add: decode_body_refused)
  next
    case (Some k)
    have size: "wire_size bs k = wire_size bs' k" by (simp add: wire_size_def header)
    have carried: "kind_carried (wire_major bs) k" "kind_carried (wire_major bs') k"
      using wire_kind_SomeD(1) [OF Some] by (simp_all add: header)
    show ?thesis
    proof (cases "n < wire_size bs k")
      case True
      then show ?thesis
        using decode_body_accepted [OF Some n assms(1), of o0 c0]
          decode_body_accepted [OF Some [unfolded kind] n assms(2), of o0 c0] by (simp add: size)
    next
      case False
      then have same: "bits_of (take (wire_size bs k) bs) = bits_of (take (wire_size bs' k) bs')"
        using bits_of_prefix [OF assms(3), of "wire_size bs k"] by (simp add: size)
      have "wire_padding_zero bs k = wire_padding_zero bs' k"
        unfolding wire_padding_zero_def same by (simp add: header)
      moreover have "wire_object bs k = wire_object bs' k"
        unfolding wire_object_take [OF carried(1)] wire_object_take [OF carried(2)] same by (simp add: header)
      ultimately show ?thesis
        using decode_body_accepted [OF Some n assms(1), of o0 c0]
          decode_body_accepted [OF Some [unfolded kind] n assms(2), of o0 c0] by (simp add: size)
    qed
  qed
qed

section \<open>Variable-length integers\<close>

lemma uvarint_decode_take:
  assumes "n \<le> length bs"
  shows "mcl_wire_uvarint_decode (Some (take n bs)) n (Some v0) (Some c0) =
     mcl_wire_uvarint_decode (Some bs) n (Some v0) (Some c0)"
proof -
  have e: "uvarint_end (take n bs) n = uvarint_end bs n"
    by (simp add: uvarint_end_def min_def)
  have "uvarint_end bs n \<le> min n 5" using assms by (rule uvarint_end_le)
  then have "take (Suc (uvarint_end bs n)) (take n bs) = take (Suc (uvarint_end bs n)) bs"
    if "uvarint_end bs n \<noteq> min n 5"
    using that by (simp add: min_def split: if_splits)
  then have "uvarint_result (take n bs) n = uvarint_result bs n"
    by (simp add: uvarint_result_def e Let_def)
  then show ?thesis using assms by (simp add: uvarint_decode_result)
qed

section \<open>The reader and the scan\<close>

text \<open>The reader over the same block with nothing behind it.\<close>

definition cut_reader :: "mcl_wire_extension_reader \<Rightarrow> mcl_wire_extension_reader" where
  "cut_reader r = r\<lparr>rdx_data := map_option (take (rdx_size r)) (rdx_data r)\<rparr>"

lemma cut_wf: "rdx_wf r \<Longrightarrow> rdx_wf (cut_reader r)" "rdx_rest (cut_reader r) = rdx_rest r" if "rdx_data r \<noteq> None"
  using that by (auto simp: cut_reader_def rdx_wf_def rdx_rest_def)

lemma cut_simps [simp]:
  "rdx_size (cut_reader r) = rdx_size r" "rdx_offset (cut_reader r) = rdx_offset r"
  "rdx_previous_id (cut_reader r) = rdx_previous_id r" "rdx_has_previous (cut_reader r) = rdx_has_previous r"
  "rdx_previous (cut_reader r) = rdx_previous r"
  "(cut_reader r)\<lparr>rdx_offset := k\<rparr> = cut_reader (r\<lparr>rdx_offset := k\<rparr>)" "rdx_data (cut_reader r) = None \<longleftrightarrow> rdx_data r = None"
  by (simp_all add: cut_reader_def rdx_previous_def)

lemma rdx_after_cut: "rdx_after t (cut_reader r) = cut_reader (rdx_after t r)"
  by (simp add: rdx_after_def cut_reader_def)

lemma reader_uvarint_cut:
  assumes "rdx_data r = Some data" and "rdx_size r \<le> length data"
  shows "reader_uvarint (cut_reader r) = reader_uvarint r"
  using uvarint_decode_take [of "rdx_size r - rdx_offset r" "drop (rdx_offset r) data" 0 0] assms
  by (simp add: reader_uvarint_def drop_take) (simp add: cut_reader_def drop_take)

lemma next_status_cut:
  assumes "rdx_data r = Some data" and "rdx_size r \<le> length data"
  shows "fst (mcl_wire_extension_reader_next (Some (cut_reader r)) (Some e0) (Some h0)) =
     fst (mcl_wire_extension_reader_next (Some r) (Some e1) (Some h1))"
proof -
  have "reader_uvarint (cut_reader (r\<lparr>rdx_offset := k\<rparr>)) = reader_uvarint (r\<lparr>rdx_offset := k\<rparr>)" for k
    by (rule reader_uvarint_cut) (use assms in simp_all)
  moreover note reader_uvarint_cut [OF assms]
  ultimately show ?thesis
    using assms(1) by (simp add: mcl_wire_extension_reader_next_def Let_def split: prod.splits)
qed

text \<open>A callback that keeps to the bytes of the value it is given.\<close>

definition keeps_to_value :: "'u mcl_wire_extension_accept_fn \<Rightarrow> bool" where
  "keeps_to_value f \<longleftrightarrow>
     (\<forall>user i v v' n. take n v = take n v' \<longrightarrow> f user i (Some v) n = f user i (Some v') n)"

lemma view_cut:
  assumes "rdx_wf r" and "rdx_rest r = tlv_wire t @ rest"
  obtains v v' where "rdx_view t r = \<lparr>ext_id = fst t, ext_critical = fst (snd t), ext_value = Some v,
      ext_value_size = length (snd (snd t))\<rparr>"
    and "rdx_view t (cut_reader r) = \<lparr>ext_id = fst t, ext_critical = fst (snd t), ext_value = Some v',
      ext_value_size = length (snd (snd t))\<rparr>"
    and "take (length (snd (snd t))) v = take (length (snd (snd t))) v'"
proof -
  obtain i c x where t: "t = (i, c, x)" by (cases t)
  obtain data where data: "rdx_data r = Some data" using assms(1) by (auto simp: rdx_wf_def)
  then have cut: "rdx_wf (cut_reader r)" "rdx_rest (cut_reader r) = tlv_wire t @ rest"
    using cut_wf [of r] assms by simp_all
  let ?k = "rdx_offset r + (length (tlv_wire t) - length x)"
  have "take (length x) (drop ?k data) = x" "take (length x) (drop ?k (take (rdx_size r) data)) = x"
    using tlv_of_view(1) [OF assms] tlv_of_view(1) [OF cut]
    by (auto simp: tlv_of_def ext_bytes_def rdx_view_def t data cut_reader_def split: if_splits)
  then show thesis
    by (intro that [of "drop ?k data" "drop ?k (take (rdx_size r) data)"])
      (simp_all add: rdx_view_def t data, simp add: cut_reader_def data)
qed

lemma scan_cut:
  assumes "rdx_wf r" and "\<forall>f. accept = Some f \<longrightarrow> keeps_to_value f"
  shows "ext_scan accept user (cut_reader r) e0 h0 = ext_scan accept user r e1 h1"
  using assms(1)
proof (induction "rdx_size r - rdx_offset r" arbitrary: r user e0 h0 e1 h1 rule: less_induct)
  case less
  obtain data where data: "rdx_data r = Some data" "rdx_size r \<le> length data"
    using less.prems by (auto simp: rdx_wf_def)
  then have wf: "rdx_wf (cut_reader r)" "rdx_rest (cut_reader r) = rdx_rest r" using cut_wf less.prems by simp_all
  from less.prems show ?case
  proof (cases rule: reader_next_cases [of r e1 h1])
    case block_end
    then have "mcl_wire_extension_reader_next (Some (cut_reader r)) (Some e0) (Some h0) =
        (MCL_WIRE_OK, Some (cut_reader r), Some e0, Some 0)"
      using rdx_rest_Nil_iff [OF wf(1)] wf(2) by (simp add: mcl_wire_extension_reader_next_def)
    with block_end show ?thesis by (simp add: ext_scan_end)
  next
    case (refused st r')
    obtain r'' e'' h'' where "mcl_wire_extension_reader_next (Some (cut_reader r)) (Some e0) (Some h0) = (st, r'', e'', h'')"
      using next_status_cut [OF data, of e0 h0 e1 h1] refused(2)
      by (cases "mcl_wire_extension_reader_next (Some (cut_reader r)) (Some e0) (Some h0)") simp
    then show ?thesis using refused(1,2) by (simp add: ext_scan_refused)
  next
    case (extension t rest)
    have cut: "rdx_rest (cut_reader r) = tlv_wire t @ rest" "tlv_above (rdx_previous (cut_reader r)) t"
      using extension wf(2) by simp_all
    note scan = ext_scan_extension [OF extension(4)]
      and scan' = ext_scan_extension [OF reader_next_wire [OF wf(1) cut(1) extension(2) cut(2), of e0 h0]]
    have smaller: "rdx_size (rdx_after t r) - rdx_offset (rdx_after t r) < rdx_size r - rdx_offset r"
      using reader_next_progress [OF extension(4)] by simp
    note IH = less.hyps [OF this rdx_after_wf(1) [OF less.prems extension(1)]]
    let ?e = "rdx_view t r" and ?e' = "rdx_view t (cut_reader r)"
    obtain v v' where view: "?e = \<lparr>ext_id = fst t, ext_critical = fst (snd t), ext_value = Some v,
        ext_value_size = length (snd (snd t))\<rparr>"
      "?e' = \<lparr>ext_id = fst t, ext_critical = fst (snd t), ext_value = Some v', ext_value_size = length (snd (snd t))\<rparr>"
      "take (length (snd (snd t))) v = take (length (snd (snd t))) v'"
      using view_cut [OF less.prems extension(1)] .
    then have eqs: "ext_id ?e' = ext_id ?e" "ext_critical ?e' = ext_critical ?e" "ext_value ?e = Some v"
      "ext_value ?e' = Some v'" "ext_value_size ?e' = ext_value_size ?e"
      "take (ext_value_size ?e) v = take (ext_value_size ?e) v'" by simp_all
    note same = IH [of _ ?e' 1 ?e 1]
    show ?thesis
    proof (cases accept)
      case None
      then show ?thesis using same by (simp add: scan scan' eqs rdx_after_cut)
    next
      case (Some f)
      obtain answer user1 where ans: "f user (ext_id ?e) (Some v) (ext_value_size ?e) = (answer, user1)"
        by (cases "f user (ext_id ?e) (Some v) (ext_value_size ?e)")
      then have ans': "f user (ext_id ?e) (Some v') (ext_value_size ?e) = (answer, user1)"
        using assms(2) Some eqs(6) by (metis keeps_to_value_def)
      show ?thesis
        unfolding scan scan' eqs rdx_after_cut Some option.case ans ans' prod.case
        by (simp only: same [unfolded Some])
    qed
  qed
qed

section \<open>The decoders\<close>

definition same_extensions :: "mcl_wire_extension_reader \<Rightarrow> mcl_wire_extension_reader \<Rightarrow> bool" where
  "same_extensions r r' \<longleftrightarrow>
     (\<exists>st es es'. drain_reader r = (st, es) \<and> drain_reader r' = (st, es') \<and> map tlv_of es = map tlv_of es')"

lemma same_extensions_refl: "same_extensions r r"
  by (cases "drain_reader r") (simp add: same_extensions_def)

lemma same_extensions_block:
  assumes "take m xs = take m ys" and "m \<le> length xs" and "m \<le> length ys"
    and "ext_scan accept user (block_reader xs m) e0 h0 = (MCL_WIRE_OK, user')"
  shows "same_extensions (block_reader xs m) (block_reader ys m)"
proof -
  have wf: "rdx_wf (block_reader xs m)" "rdx_wf (block_reader ys m)" using assms(2,3) by simp_all
  obtain ts where ts: "take m xs = block_wire ts" "block_ok None ts"
    using assms(4) unfolding ext_scan_OK_iff [OF wf(1)] by auto
  have x: "rdx_rest (block_reader xs m) = block_wire ts @ []" "block_ok (rdx_previous (block_reader xs m)) ts"
    and y: "rdx_rest (block_reader ys m) = block_wire ts @ []" "block_ok (rdx_previous (block_reader ys m)) ts"
    using ts assms(1) by simp_all
  show ?thesis
    using drain_block [OF wf(1) _ x(2)] drain_block [OF wf(2) _ y(2)] x(1) y(1)
      views_block(1) [OF wf(1) x] views_block(1) [OF wf(2) y]
    by (simp add: same_extensions_def)
qed

lemma scan_prefix_only:
  assumes "take m xs = take m ys" and "m \<le> length xs" and "m \<le> length ys"
    and "\<forall>f. accept = Some f \<longrightarrow> keeps_to_value f"
  shows "ext_scan accept user (block_reader xs m) e0 h0 = ext_scan accept user (block_reader ys m) e0 h0"
proof -
  have "cut_reader (block_reader xs m) = cut_reader (block_reader ys m)"
    using assms(1) by (simp add: cut_reader_def block_reader_def)
  with scan_cut [OF _ assms(4), of "block_reader xs m" user e0 h0 e0 h0]
    scan_cut [OF _ assms(4), of "block_reader ys m" user e0 h0 e0 h0] assms(2,3)
  show ?thesis by simp
qed

lemma decode_ext_prefix_only:
  assumes n: "n \<le> length bs" "n \<le> length bs'" and same: "take n bs = take n bs'"
    and accept: "\<forall>f. accept = Some f \<longrightarrow> keeps_to_value f"
  shows "\<exists>st obj r r' c user'.
     mcl_wire_tier0_decode_ext_accept (Some bs) n (Some o0) (Some r0) accept user (Some c0) = (st, obj, Some r, c, user') \<and>
     mcl_wire_tier0_decode_ext_accept (Some bs') n (Some o0) (Some r0) accept user (Some c0) = (st, obj, Some r', c, user') \<and>
     same_extensions r r'"
proof -
  obtain st obj b where body: "mcl_wire_tier0_decode_body (Some bs) n (Some o0) (Some 0) = (st, obj, b)"
    by (cases "mcl_wire_tier0_decode_body (Some bs) n (Some o0) (Some 0)")
  then have body': "mcl_wire_tier0_decode_body (Some bs') n (Some o0) (Some 0) = (st, obj, b)"
    using decode_body_prefix_only [OF n same] by metis
  show ?thesis
  proof (cases "st = MCL_WIRE_OK")
    case False
    show ?thesis
      by (simp add: decode_ext_refused_body [OF body False] decode_ext_refused_body [OF body' False] same_extensions_refl)
  next
    case True
    obtain obj' b' where two: "2 \<le> n" and shape: "obj = Some obj'" "b = Some b'"
      using decode_body_shape [OF n(1) body [unfolded True]] .
    note body = body [unfolded True shape] and body' = body' [unfolded True shape]
    note header = wire_header_prefix [OF same two]
    show ?thesis
    proof (cases "hdr_extension_present (wire_header bs) = 0")
      case True
      have "drain_reader (block_reader xs 0) = (MCL_WIRE_OK, [])" for xs
        using drain_block [of "block_reader xs 0" "[]"] by simp
      then have "same_extensions (block_reader xs 0) (block_reader ys 0)" for xs ys by (simp add: same_extensions_def)
      then show ?thesis
        by (simp add: decode_ext_no_block [OF body two True] decode_ext_no_block [OF body' two True [unfolded header]])
    next
      case bit: False
      have rest: "n - b' \<le> length (drop b' bs)" "n - b' \<le> length (drop b' bs')" using n by simp_all
      have same_rest: "take (n - b') (drop b' bs) = take (n - b') (drop b' bs')"
        using same by (simp add: drop_take [symmetric])
      obtain st v k where len: "mcl_wire_uvarint_decode (Some (drop b' bs)) (n - b') (Some 0) (Some 0) = (st, Some v, Some k)"
        using uvarint_decode_shape [OF rest(1)] .
      then have len': "mcl_wire_uvarint_decode (Some (drop b' bs')) (n - b') (Some 0) (Some 0) = (st, Some v, Some k)"
        using uvarint_decode_take [OF rest(1)] uvarint_decode_take [OF rest(2)] same_rest by simp
      note run = decode_ext_block [OF body two bit len, of r0 accept user c0]
        and run' = decode_ext_block [OF body' two bit [unfolded header] len', of r0 accept user c0]
      show ?thesis
      proof (cases "st = MCL_WIRE_OK \<and> v \<noteq> 0 \<and> unat v \<le> 256 \<and> unat v \<le> n - b' - k")
        case False
        then consider "st \<noteq> MCL_WIRE_OK" | "v = 0" | "unat v > 256" | "unat v > n - b' - k" by linarith
        then show ?thesis by cases (simp_all add: run run' same_extensions_refl)
      next
        case True
        let ?xs = "drop (b' + k) bs" and ?ys = "drop (b' + k) bs'" and ?m = "unat v"
        have "?m \<le> n - (b' + k)" using True by simp
        then have "take ?m (drop (b' + k) (take n xs)) = take ?m (drop (b' + k) xs)" for xs :: "u8 list"
          by (simp add: drop_take min_absorb1)
        then have block: "take ?m ?xs = take ?m ?ys" using same by metis
        have "?m \<le> length bs - (b' + k)" "?m \<le> length bs' - (b' + k)" using True n by linarith+
        then have fits: "?m \<le> length ?xs" "?m \<le> length ?ys" by simp_all
        obtain st' user' where scan: "ext_scan accept user (block_reader ?xs ?m) no_extension 0 = (st', user')"
          by (cases "ext_scan accept user (block_reader ?xs ?m) no_extension 0")
        then have scan': "ext_scan accept user (block_reader ?ys ?m) no_extension 0 = (st', user')"
          using scan_prefix_only [OF block fits accept] by simp
        show ?thesis
          using True scan scan' same_extensions_block [OF block fits, of accept user no_extension 0 user']
          unfolding run run' no_extension_def [symmetric]
          by (cases "st' = MCL_WIRE_OK") (auto simp: same_extensions_refl)
      qed
    qed
  qed
qed

text \<open>
  C9: No decoder looks behind \<open>data_size\<close>. Two buffers that agree on the first \<open>data_size\<close> bytes give the
  same status, object and \<open>*consumed\<close>, whatever lies behind them in memory; and with extensions also the
  same state of the callback, and readers that deliver the same ids, criticalities and values. The
  decoder hands the caller's callback a pointer into the buffer and cannot stop it from reading further,
  so the second half is for a callback that keeps to the \<open>value_size\<close> bytes it is given.
\<close>

theorem decoders_read_inside:
  assumes "n \<le> length bs" and "n \<le> length bs'" and "take n bs = take n bs'"
    and "\<forall>f. accept = Some f \<longrightarrow> keeps_to_value f"
  shows "mcl_wire_tier0_decode (Some bs) n (Some o0) (Some c0) = mcl_wire_tier0_decode (Some bs') n (Some o0) (Some c0) \<and>
     (\<exists>st obj r r' c user'.
       mcl_wire_tier0_decode_ext_accept (Some bs) n (Some o0) (Some r0) accept user (Some c0) = (st, obj, Some r, c, user') \<and>
       mcl_wire_tier0_decode_ext_accept (Some bs') n (Some o0) (Some r0) accept user (Some c0) = (st, obj, Some r', c, user') \<and>
       same_extensions r r')"
proof (rule conjI)
  show "mcl_wire_tier0_decode (Some bs) n (Some o0) (Some c0) = mcl_wire_tier0_decode (Some bs') n (Some o0) (Some c0)"
    using decode_body_prefix_only [OF assms(1-3), of o0 c0] wire_header_prefix [OF assms(3)]
    by (cases "2 \<le> n") (simp_all add: decode_clear_bit [OF assms(1)] decode_clear_bit [OF assms(2)])
qed (rule decode_ext_prefix_only [OF assms])

text \<open>A callback that accepts everything and keeps a copy of each value it is shown.\<close>

definition copy_values :: "u8 list list mcl_wire_extension_accept_fn" where
  "copy_values = (\<lambda>copies i v n. (1, copies @ [take n (the v)]))"

lemma copy_values_keeps: "keeps_to_value copy_values"
  by (simp add: keeps_to_value_def copy_values_def)

theorem decoders_read_inside_witness:
  "mcl_wire_tier0_decode (Some (sample_bytes @ [1, 2, 3])) 15 (Some zero_object) (Some 99) =
     mcl_wire_tier0_decode (Some (sample_bytes @ [7])) 15 (Some zero_object) (Some 99) \<and>
   (\<exists>st obj r r' c copies.
     mcl_wire_tier0_decode_ext_accept (Some (sample_ext_bytes @ [1, 2, 3])) 23 (Some zero_object)
       (Some (block_reader [] 0)) (Some copy_values) [] (Some 99) = (st, obj, Some r, c, copies) \<and>
     mcl_wire_tier0_decode_ext_accept (Some (sample_ext_bytes @ [7])) 23 (Some zero_object)
       (Some (block_reader [] 0)) (Some copy_values) [] (Some 99) = (st, obj, Some r', c, copies) \<and>
     same_extensions r r')"
proof -
  have len: "length sample_bytes = 15" "length sample_ext_bytes = 23"
    by (simp_all add: sample_ext_bytes_def sample_bytes_def sample_block_def)
  show ?thesis
    using decoders_read_inside [of 15 "sample_bytes @ [1, 2, 3]" "sample_bytes @ [7]" None
        zero_object 99 "block_reader [] 0" "()"]
      decoders_read_inside [of 23 "sample_ext_bytes @ [1, 2, 3]" "sample_ext_bytes @ [7]" "Some copy_values"
        zero_object 99 "block_reader [] 0" "[]"]
    by (simp add: len copy_values_keeps)
qed

end
