(* ===== verification/Wire_Test.thy ===== *)
theory Wire_Test
  imports Wire_Duration Wire_Tier0 "HOL-Library.State_Monad"
begin

text \<open>
  The test programs of the core codec: \<open>tests/test_wire.c\<close>, \<open>tests/test_vectors.c\<close>,
  \<open>tests/test_major_rule.c\<close> and \<open>tests/test_duration.c\<close>. A check that fails ends the first three programs
  with \<open>exit(1)\<close>: it is \<open>None\<close> in a helper and the exit code 1 of \<open>main\<close>. \<open>test_duration.c\<close> counts its
  failures instead. \<open>memcmp\<close> of two objects compares their members: both sides of every such call were
  zeroed before the members were stored. Objects and buffers that a program declares without
  initialising them are arguments. What the programs report is in \<open>Wire_Test_Spec\<close>.
\<close>

unbundle bit_operations_syntax

section \<open>Checks and random numbers\<close>

abbreviation (input) CHECK_TRUE :: "bool \<Rightarrow> unit option" where
  "CHECK_TRUE e \<equiv> (if e then Some () else None)"

abbreviation (input) CHECK_STATUS :: "mcl_wire_status \<Rightarrow> mcl_wire_status \<Rightarrow> unit option" where
  "CHECK_STATUS st expected \<equiv> CHECK_TRUE (st = expected)"

primrec for_each :: "('a \<Rightarrow> unit option) \<Rightarrow> 'a list \<Rightarrow> unit option" where
  "for_each f [] = Some ()"
| "for_each f (x # xs) = do { f x; for_each f xs }"

definition exit_code :: "'a option \<Rightarrow> int" where
  "exit_code r = (if r = None then 1 else 0)"

text \<open>The generator of the three randomized programs: the new state is the number returned.\<close>

definition mcl_test_random :: "(u32, u32) state" where
  "mcl_test_random = State (\<lambda>state.
     let r = state XOR push_bit 13 state;
         r = r XOR drop_bit 17 r;
         r = r XOR push_bit 5 r
     in (r, r))"

definition mcl_test_signed :: "nat \<Rightarrow> (u32, s16) state" where
  "mcl_test_signed bits = do {
     r \<leftarrow> mcl_test_random;
     let raw = r AND (push_bit bits 1 - 1);
     State_Monad.return (if raw AND push_bit (bits - 1) 1 \<noteq> 0 then ucast (raw - push_bit bits 1)
                         else ucast raw) }"

section \<open>test_wire.c\<close>

definition mcl_test_header :: "u8 list \<Rightarrow> mcl_wire_header \<Rightarrow> mcl_wire_header \<Rightarrow> unit option" where
  "mcl_test_header encoded output input =
     (case mcl_wire_header_encode (Some input) (Some encoded) of
        (st, encoded) \<Rightarrow> do {
          CHECK_STATUS st MCL_WIRE_OK;
          case mcl_wire_header_decode encoded (Some output) of
            (st, output) \<Rightarrow> do {
              CHECK_STATUS st MCL_WIRE_OK;
              CHECK_TRUE (the output = input) } })"

text \<open>The five nested loops; \<open>count\<close> is the number of rounds.\<close>

definition test_header_inputs :: "mcl_wire_header list" where
  "test_header_inputs =
     [\<lparr>hdr_major_version = of_nat version, hdr_category = of_nat category, hdr_opcode = of_nat opcode,
       hdr_priority = of_nat priority, hdr_extension_present = of_nat extension\<rparr>.
      version \<leftarrow> [0..<16], category \<leftarrow> [0..<16], opcode \<leftarrow> [0..<32], priority \<leftarrow> [0..<4], extension \<leftarrow> [0..<2]]"

definition mcl_test_headers :: "u8 list \<Rightarrow> mcl_wire_header \<Rightarrow> unit option" where
  "mcl_test_headers encoded output = do {
     for_each (mcl_test_header encoded output) test_header_inputs;
     CHECK_TRUE (length test_header_inputs = 65536) }"

definition mcl_test_fill :: "mcl_wire_kind \<Rightarrow> (u32, mcl_wire_tier0 option) state" where
  "mcl_test_fill kind = do {
     priority \<leftarrow> mcl_test_random;
     source_ref \<leftarrow> mcl_test_random;
     let fill = (\<lambda>body. State_Monad.return (Some
       \<lparr>obj_kind = kind, obj_priority = ucast (priority AND 3), obj_source_ref = source_ref, obj_body = body\<rparr>));
     if kind = MCL_WIRE_KIND_PRESENCE then do {
       machine_class \<leftarrow> mcl_test_random;
       capability_tag \<leftarrow> mcl_test_random;
       ttl \<leftarrow> mcl_test_random;
       fill (zero_body\<lparr>body_presence := \<lparr>presence_machine_class = ucast machine_class,
         presence_capability_tag = capability_tag AND 0x00ffffff, presence_ttl = ucast ttl\<rparr>\<rparr>) }
     else if kind = MCL_WIRE_KIND_HAZARD then do {
       hazard_class \<leftarrow> mcl_test_random;
       severity \<leftarrow> mcl_test_random;
       confidence \<leftarrow> mcl_test_random;
       x \<leftarrow> mcl_test_signed 12;
       y \<leftarrow> mcl_test_signed 12;
       z \<leftarrow> mcl_test_signed 10;
       radius \<leftarrow> mcl_test_random;
       ttl \<leftarrow> mcl_test_random;
       fill (zero_body\<lparr>body_hazard := \<lparr>hazard_hazard_class = ucast hazard_class,
         hazard_severity = ucast (severity AND 7), hazard_confidence = ucast (confidence AND 127),
         hazard_x = x, hazard_y = y, hazard_z = z, hazard_radius = ucast (radius AND 1023),
         hazard_ttl = ucast ttl\<rparr>\<rparr>) }
     else if kind = MCL_WIRE_KIND_REQUEST then do {
       request_class \<leftarrow> mcl_test_random;
       target_ref \<leftarrow> mcl_test_random;
       x \<leftarrow> mcl_test_signed 12;
       y \<leftarrow> mcl_test_signed 12;
       radius \<leftarrow> mcl_test_random;
       ttl \<leftarrow> mcl_test_random;
       fill (zero_body\<lparr>body_request := \<lparr>request_request_class = ucast request_class,
         request_target_ref = target_ref, request_x = x, request_y = y,
         request_radius = ucast (radius AND 1023), request_ttl = ucast ttl\<rparr>\<rparr>) }
     else if kind = MCL_WIRE_KIND_AUTHORITY_CLAIM then do {
       authority_class \<leftarrow> mcl_test_random;
       jurisdiction \<leftarrow> mcl_test_random;
       credential_ref \<leftarrow> mcl_test_random;
       validity \<leftarrow> mcl_test_random;
       fill (zero_body\<lparr>body_authority_claim := \<lparr>authority_claim_authority_class = ucast (authority_class AND 63),
         authority_claim_jurisdiction = ucast (jurisdiction AND 4095),
         authority_claim_credential_ref = credential_ref, authority_claim_validity = ucast validity\<rparr>\<rparr>) }
     else if kind = MCL_WIRE_KIND_DEGRADED_STATE then do {
       affected_capability \<leftarrow> mcl_test_random;
       health \<leftarrow> mcl_test_random;
       severity \<leftarrow> mcl_test_random;
       ttl \<leftarrow> mcl_test_random;
       fill (zero_body\<lparr>body_degraded_state := \<lparr>degraded_state_affected_capability = ucast affected_capability,
         degraded_state_health = ucast (health AND 127), degraded_state_severity = ucast (severity AND 7),
         degraded_state_ttl = ucast ttl\<rparr>\<rparr>) }
     else if kind = MCL_WIRE_KIND_TRANSPORT_OFFER then do {
       migration_ref \<leftarrow> mcl_test_random;
       transport_id \<leftarrow> mcl_test_random;
       profile_id \<leftarrow> mcl_test_random;
       endpoint_token \<leftarrow> mcl_test_random;
       validity \<leftarrow> mcl_test_random;
       fill (zero_body\<lparr>body_transport_offer := \<lparr>transport_offer_migration_ref = migration_ref,
         transport_offer_transport_id = ucast transport_id, transport_offer_profile_id = ucast profile_id,
         transport_offer_endpoint_token = endpoint_token, transport_offer_validity = ucast validity\<rparr>\<rparr>) }
     else if kind = MCL_WIRE_KIND_TRANSPORT_ACCEPT then do {
       migration_ref \<leftarrow> mcl_test_random;
       transport_id \<leftarrow> mcl_test_random;
       profile_id \<leftarrow> mcl_test_random;
       session_ref \<leftarrow> mcl_test_random;
       fill (zero_body\<lparr>body_transport_accept := \<lparr>transport_accept_migration_ref = migration_ref,
         transport_accept_transport_id = ucast transport_id, transport_accept_profile_id = ucast profile_id,
         transport_accept_session_ref = session_ref\<rparr>\<rparr>) }
     else State_Monad.return None }"

definition mcl_kind_has_padding :: "mcl_wire_kind \<Rightarrow> bool" where
  "mcl_kind_has_padding kind \<longleftrightarrow>
     kind = MCL_WIRE_KIND_HAZARD \<or> kind = MCL_WIRE_KIND_REQUEST \<or>
     kind = MCL_WIRE_KIND_AUTHORITY_CLAIM \<or> kind = MCL_WIRE_KIND_DEGRADED_STATE"

text \<open>The body of the loop over the trials for the object \<open>input\<close>; the result is the buffer \<open>encoded\<close>.\<close>

definition mcl_test_trial ::
    "mcl_wire_tier0 \<Rightarrow> mcl_wire_kind \<Rightarrow> nat \<Rightarrow> mcl_wire_tier0 \<Rightarrow> u8 list \<Rightarrow> u8 list option" where
  "mcl_test_trial output kind expected_size input encoded =
     (case mcl_wire_tier0_encode (Some input) (Some encoded) (length encoded) (Some 0) of
        (st, encoded, written) \<Rightarrow> do {
          CHECK_STATUS st MCL_WIRE_OK;
          CHECK_TRUE (the written = expected_size);
          case mcl_wire_tier0_decode encoded (the written) (Some output) (Some 0) of
            (st, output, consumed) \<Rightarrow> do {
              CHECK_STATUS st MCL_WIRE_OK;
              CHECK_TRUE (consumed = written);
              CHECK_TRUE (the output = input);
              case mcl_wire_tier0_decode encoded (the written - 1) output consumed of
                (st, output, consumed) \<Rightarrow> do {
                  CHECK_STATUS st MCL_WIRE_ERR_TRUNCATED;
                  case mcl_wire_tier0_encode (Some input) encoded (the written - 1) consumed of
                    (st, encoded, consumed) \<Rightarrow> do {
                      CHECK_STATUS st MCL_WIRE_ERR_BUFFER_TOO_SMALL;
                      if mcl_kind_has_padding kind then do {
                        let last = the written - 1;
                        let saved = the encoded ! last;
                        let broken = (the encoded)[last := saved OR 0x01];
                        CHECK_STATUS (fst (mcl_wire_tier0_decode (Some broken) (the written) output consumed))
                          MCL_WIRE_ERR_NONCANONICAL;
                        Some (broken[last := saved]) }
                      else encoded } } } })"

primrec mcl_test_trials ::
    "mcl_wire_tier0 \<Rightarrow> mcl_wire_kind \<Rightarrow> nat \<Rightarrow> nat \<Rightarrow> u8 list \<times> u32 \<Rightarrow> (u8 list \<times> u32) option" where
  "mcl_test_trials output kind expected_size 0 s = Some s"
| "mcl_test_trials output kind expected_size (Suc n) s =
     (case run_state (mcl_test_fill kind) (snd s) of
        (input, rng) \<Rightarrow> do {
          input \<leftarrow> input;
          encoded \<leftarrow> mcl_test_trial output kind expected_size input (fst s);
          mcl_test_trials output kind expected_size n (encoded, rng) })"

definition expected_sizes :: "nat list" where
  "expected_sizes = [11, 15, 17, 14, 10, 17, 16]"

primrec mcl_test_tier0_roundtrips ::
    "mcl_wire_tier0 \<Rightarrow> nat \<Rightarrow> nat list \<Rightarrow> u8 list \<times> u32 \<Rightarrow> (u8 list \<times> u32) option" where
  "mcl_test_tier0_roundtrips output trials [] s = Some s"
| "mcl_test_tier0_roundtrips output trials (i # is) s = do {
     let kind = of_nat i;
     CHECK_TRUE (mcl_wire_tier0_encoded_size kind = expected_sizes ! i);
     s \<leftarrow> mcl_test_trials output kind (expected_sizes ! i) trials s;
     mcl_test_tier0_roundtrips output trials is s }"

text \<open>
  \<open>main\<close>; the buffers and objects that are not initialised are \<open>header_bytes0\<close>, \<open>header0\<close>, \<open>encoded0\<close> and
  \<open>output0\<close>.
\<close>

definition test_wire_main ::
    "u8 list \<Rightarrow> mcl_wire_header \<Rightarrow> u8 list \<Rightarrow> mcl_wire_tier0 \<Rightarrow> int" where
  "test_wire_main header_bytes0 header0 encoded0 output0 =
     exit_code (do {
       mcl_test_headers header_bytes0 header0;
       mcl_test_tier0_roundtrips output0 20000 [0..<7] (encoded0, 0x12345678) })"

section \<open>test_vectors.c\<close>

record vector_t =
  vec_name :: string
  vec_object :: mcl_wire_tier0
  vec_bytes :: "u8 list"

definition test_vectors :: "vector_t list" where
  "test_vectors =
     [\<lparr>vec_name = ''PRESENCE'',
       vec_object = \<lparr>obj_kind = MCL_WIRE_KIND_PRESENCE, obj_priority = 1, obj_source_ref = 2852126721,
         obj_body = zero_body\<lparr>body_presence := \<lparr>presence_machine_class = 1, presence_capability_tag = 31,
           presence_ttl = 121\<rparr>\<rparr>\<rparr>,
       vec_bytes = [0x00, 0x02, 0xaa, 0x00, 0x00, 0x01, 0x01, 0x00, 0x00, 0x1f, 0x79]\<rparr>,
      \<lparr>vec_name = ''HAZARD'',
       vec_object = \<lparr>obj_kind = MCL_WIRE_KIND_HAZARD, obj_priority = 3, obj_source_ref = 2701131777,
         obj_body = zero_body\<lparr>body_hazard := \<lparr>hazard_hazard_class = 1, hazard_severity = 3,
           hazard_confidence = 124, hazard_x = 26, hazard_y = 4, hazard_z = 0, hazard_radius = 10,
           hazard_ttl = 30\<rparr>\<rparr>\<rparr>,
       vec_bytes = [0x03, 0x0e, 0xa1, 0x00, 0x00, 0x01, 0x01, 0x7f, 0x00, 0x68, 0x01, 0x00, 0x00, 0x28, 0x78]\<rparr>,
      \<lparr>vec_name = ''REQUEST'',
       vec_object = \<lparr>obj_kind = MCL_WIRE_KIND_REQUEST, obj_priority = 2, obj_source_ref = 2701131777,
         obj_body = zero_body\<lparr>body_request := \<lparr>request_request_class = 2, request_target_ref = 2969567234,
           request_x = 16, request_y = 0, request_radius = 12, request_ttl = 57\<rparr>\<rparr>\<rparr>,
       vec_bytes = [0x05, 0x0c, 0xa1, 0x00, 0x00, 0x01, 0x02, 0xb1, 0x00, 0x00, 0x02, 0x01, 0x00, 0x00, 0x03,
         0x0e, 0x40]\<rparr>,
      \<lparr>vec_name = ''AUTHORITY_CLAIM'',
       vec_object = \<lparr>obj_kind = MCL_WIRE_KIND_AUTHORITY_CLAIM, obj_priority = 2, obj_source_ref = 2734686209,
         obj_body = zero_body\<lparr>body_authority_claim := \<lparr>authority_claim_authority_class = 1,
           authority_claim_jurisdiction = 356, authority_claim_credential_ref = 15770369,
           authority_claim_validity = 191\<rparr>\<rparr>\<rparr>,
       vec_bytes = [0x01, 0x0c, 0xa3, 0x00, 0x00, 0x01, 0x04, 0x59, 0x00, 0x3c, 0x28, 0xc0, 0x6f, 0xc0]\<rparr>,
      \<lparr>vec_name = ''DEGRADED_STATE'',
       vec_object = \<lparr>obj_kind = MCL_WIRE_KIND_DEGRADED_STATE, obj_priority = 2, obj_source_ref = 2885681153,
         obj_body = zero_body\<lparr>body_degraded_state := \<lparr>degraded_state_affected_capability = 2,
           degraded_state_health = 75, degraded_state_severity = 3, degraded_state_ttl = 147\<rparr>\<rparr>\<rparr>,
       vec_bytes = [0x06, 0x0c, 0xac, 0x00, 0x00, 0x01, 0x02, 0x96, 0xe4, 0xc0]\<rparr>,
      \<lparr>vec_name = ''TRANSPORT_OFFER'',
       vec_object = \<lparr>obj_kind = MCL_WIRE_KIND_TRANSPORT_OFFER, obj_priority = 1, obj_source_ref = 2919235585,
         obj_body = zero_body\<lparr>body_transport_offer := \<lparr>transport_offer_migration_ref = 0x4D194201,
           transport_offer_transport_id = 2, transport_offer_profile_id = 1,
           transport_offer_endpoint_token = 0xD00D0001, transport_offer_validity = 159\<rparr>\<rparr>\<rparr>,
       vec_bytes = [0x08, 0x02, 0xae, 0x00, 0x00, 0x01, 0x4d, 0x19, 0x42, 0x01, 0x02, 0x01, 0xd0, 0x0d, 0x00,
         0x01, 0x9f]\<rparr>,
      \<lparr>vec_name = ''TRANSPORT_ACCEPT'',
       vec_object = \<lparr>obj_kind = MCL_WIRE_KIND_TRANSPORT_ACCEPT, obj_priority = 1, obj_source_ref = 0xB0000002,
         obj_body = zero_body\<lparr>body_transport_accept := \<lparr>transport_accept_migration_ref = 0x4D194201,
           transport_accept_transport_id = 2, transport_accept_profile_id = 1,
           transport_accept_session_ref = 0x5E5510C7\<rparr>\<rparr>\<rparr>,
       vec_bytes = [0x08, 0x0a, 0xb0, 0x00, 0x00, 0x02, 0x4d, 0x19, 0x42, 0x01, 0x02, 0x01, 0x5e, 0x55, 0x10,
         0xc7]\<rparr>]"

definition test_vector :: "u8 list \<Rightarrow> mcl_wire_tier0 \<Rightarrow> vector_t \<Rightarrow> unit option" where
  "test_vector encoded decoded v =
     (case mcl_wire_tier0_encode (Some (vec_object v)) (Some encoded) MCL_WIRE_TIER0_MAX_SIZE (Some 0) of
        (st, encoded, written) \<Rightarrow> do {
          CHECK_STATUS st MCL_WIRE_OK;
          CHECK_TRUE (the written = length (vec_bytes v));
          CHECK_TRUE (take (the written) (the encoded) = take (the written) (vec_bytes v));
          case mcl_wire_tier0_decode (Some (vec_bytes v)) (length (vec_bytes v)) (Some decoded) (Some 0) of
            (st, decoded, consumed) \<Rightarrow> do {
              CHECK_STATUS st MCL_WIRE_OK;
              CHECK_TRUE (the consumed = length (vec_bytes v));
              CHECK_TRUE (the decoded = vec_object v) } })"

definition test_vectors_main :: "u8 list \<Rightarrow> mcl_wire_tier0 \<Rightarrow> int" where
  "test_vectors_main encoded0 decoded0 = exit_code (for_each (test_vector encoded0 decoded0) test_vectors)"

section \<open>test_major_rule.c\<close>

text \<open>Here a passed check increments \<open>g_checks\<close>; the state is that counter.\<close>

type_synonym major_test = "nat \<Rightarrow> nat option"

definition CHECK :: "bool \<Rightarrow> major_test" where
  "CHECK e g_checks = (if e then Some (g_checks + 1) else None)"

primrec checks :: "bool list \<Rightarrow> major_test" where
  "checks [] g_checks = Some g_checks"
| "checks (e # es) g_checks = do { g_checks \<leftarrow> CHECK e g_checks; checks es g_checks }"

definition all_kinds :: "mcl_wire_kind list" where
  "all_kinds = map of_nat [0..<7]"

definition test_experimental_major_carries_everything :: major_test where
  "test_experimental_major_carries_everything =
     checks (map (\<lambda>k. mcl_wire_kind_allowed_at_major MCL_WIRE_EXPERIMENTAL_MAJOR k = 1) all_kinds)"

definition test_stable_major_carries_only_the_three :: major_test where
  "test_stable_major_carries_only_the_three =
     checks
       [mcl_wire_kind_allowed_at_major MCL_WIRE_STABLE_MAJOR MCL_WIRE_KIND_PRESENCE = 1,
        mcl_wire_kind_allowed_at_major MCL_WIRE_STABLE_MAJOR MCL_WIRE_KIND_TRANSPORT_OFFER = 1,
        mcl_wire_kind_allowed_at_major MCL_WIRE_STABLE_MAJOR MCL_WIRE_KIND_TRANSPORT_ACCEPT = 1,
        mcl_wire_kind_allowed_at_major MCL_WIRE_STABLE_MAJOR MCL_WIRE_KIND_HAZARD = 0,
        mcl_wire_kind_allowed_at_major MCL_WIRE_STABLE_MAJOR MCL_WIRE_KIND_REQUEST = 0,
        mcl_wire_kind_allowed_at_major MCL_WIRE_STABLE_MAJOR MCL_WIRE_KIND_AUTHORITY_CLAIM = 0,
        mcl_wire_kind_allowed_at_major MCL_WIRE_STABLE_MAJOR MCL_WIRE_KIND_DEGRADED_STATE = 0]"

definition test_exactly_three_are_stable :: major_test where
  "test_exactly_three_are_stable =
     CHECK (sum_list (map (mcl_wire_kind_allowed_at_major MCL_WIRE_STABLE_MAJOR) all_kinds) = 3)"

definition test_unassigned_majors_are_refused :: major_test where
  "test_unassigned_majors_are_refused =
     checks [mcl_wire_kind_allowed_at_major (of_nat major) k = 0. major \<leftarrow> [2..<16], k \<leftarrow> all_kinds]"

definition test_unknown_kind_refused_at_every_major :: major_test where
  "test_unknown_kind_refused_at_every_major =
     checks [mcl_wire_kind_allowed_at_major (of_nat major) k = 0.
       major \<leftarrow> [0..<16], k \<leftarrow> [MCL_WIRE_KIND_TRANSPORT_ACCEPT + 1, 255]]"

text \<open>\<open>presence\<close> is not initialised: \<open>presence0\<close> is what it holds beside the members stored here.\<close>

definition test_stable_major_round_trips ::
    "u8 list \<Rightarrow> mcl_wire_tier0 \<Rightarrow> mcl_wire_tier0 \<Rightarrow> major_test" where
  "test_stable_major_round_trips frame object presence0 =
     (let presence = \<lparr>obj_kind = MCL_WIRE_KIND_PRESENCE, obj_priority = 1, obj_source_ref = 0x11223344,
            obj_body = (obj_body presence0)\<lparr>body_presence := \<lparr>presence_machine_class = 7,
              presence_capability_tag = 0x00ABCD, presence_ttl = 60\<rparr>\<rparr>\<rparr>;
          (st1, frame1, written1) = mcl_wire_tier0_encode_at_major MCL_WIRE_STABLE_MAJOR (Some presence)
            (Some frame) MCL_WIRE_TIER0_MAX_SIZE (Some 0);
          (st2, object2, consumed2) = mcl_wire_tier0_decode frame1 (the written1) (Some object) (Some 0);
          (st3, frame3, written3) = mcl_wire_tier0_encode (Some presence) frame1 MCL_WIRE_TIER0_MAX_SIZE written1;
          decoded = body_presence (obj_body (the object2))
      in checks
        [st1 = MCL_WIRE_OK,
         the written1 = 10,
         drop_bit 4 (the frame1 ! 0) = MCL_WIRE_STABLE_MAJOR,
         st2 = MCL_WIRE_OK,
         consumed2 = written1,
         obj_source_ref (the object2) = obj_source_ref presence,
         presence_capability_tag decoded = 0x00ABCD,
         presence_ttl decoded = 60,
         presence_machine_class decoded = 0,
         st3 = MCL_WIRE_OK,
         the written3 = 11,
         drop_bit 4 (the frame3 ! 0) = MCL_WIRE_EXPERIMENTAL_MAJOR])"

definition test_candidate_refused_at_stable_major :: "u8 list \<Rightarrow> mcl_wire_tier0 \<Rightarrow> major_test" where
  "test_candidate_refused_at_stable_major frame object =
     (let hazard = zero_object\<lparr>obj_kind := MCL_WIRE_KIND_HAZARD, obj_priority := 2, obj_source_ref := 0x55667788\<rparr>;
          (st1, frame1, written1) = mcl_wire_tier0_encode_at_major MCL_WIRE_STABLE_MAJOR (Some hazard)
            (Some frame) MCL_WIRE_TIER0_MAX_SIZE (Some 0);
          (st2, frame2, written2) = mcl_wire_tier0_encode (Some hazard) frame1 MCL_WIRE_TIER0_MAX_SIZE written1;
          frame3 = (the frame2)[0 := push_bit 4 MCL_WIRE_STABLE_MAJOR OR (the frame2 ! 0 AND 0x0F)];
          (st3, object3, consumed3) = mcl_wire_tier0_decode (Some frame3) (the written2) (Some object) (Some 0)
      in checks
        [st1 = MCL_WIRE_ERR_UNSUPPORTED_SEMANTIC,
         st2 = MCL_WIRE_OK,
         st3 = MCL_WIRE_ERR_UNSUPPORTED_SEMANTIC])"

definition test_major_1_presence_drops_machine_class :: major_test where
  "test_major_1_presence_drops_machine_class =
     checks
       ([mcl_wire_tier0_encoded_size MCL_WIRE_KIND_PRESENCE = 11,
         mcl_wire_tier0_encoded_size_at_major MCL_WIRE_EXPERIMENTAL_MAJOR MCL_WIRE_KIND_PRESENCE = 11,
         mcl_wire_tier0_encoded_size_at_major MCL_WIRE_STABLE_MAJOR MCL_WIRE_KIND_PRESENCE = 10,
         mcl_wire_tier0_encoded_size_at_major MCL_WIRE_STABLE_MAJOR MCL_WIRE_KIND_TRANSPORT_OFFER =
           mcl_wire_tier0_encoded_size MCL_WIRE_KIND_TRANSPORT_OFFER,
         mcl_wire_tier0_encoded_size_at_major MCL_WIRE_STABLE_MAJOR MCL_WIRE_KIND_TRANSPORT_ACCEPT =
           mcl_wire_tier0_encoded_size MCL_WIRE_KIND_TRANSPORT_ACCEPT,
         mcl_wire_tier0_encoded_size_at_major MCL_WIRE_STABLE_MAJOR MCL_WIRE_KIND_HAZARD = 0] @
        map (\<lambda>k. mcl_wire_tier0_encoded_size_at_major (of_nat k) MCL_WIRE_KIND_PRESENCE = 0) [2..<16])"

text \<open>\<open>main\<close>: the number of checks it prints, or \<open>None\<close> when it exits with 1.\<close>

definition test_major_rule_main ::
    "u8 list \<Rightarrow> mcl_wire_tier0 \<Rightarrow> mcl_wire_tier0 \<Rightarrow> u8 list \<Rightarrow> mcl_wire_tier0 \<Rightarrow> nat option" where
  "test_major_rule_main frame0 object0 presence0 frame1 object1 = do {
     n \<leftarrow> test_experimental_major_carries_everything 0;
     n \<leftarrow> test_stable_major_carries_only_the_three n;
     n \<leftarrow> test_exactly_three_are_stable n;
     n \<leftarrow> test_unassigned_majors_are_refused n;
     n \<leftarrow> test_unknown_kind_refused_at_every_major n;
     n \<leftarrow> test_stable_major_round_trips frame0 object0 presence0 n;
     n \<leftarrow> test_candidate_refused_at_stable_major frame1 object1 n;
     test_major_1_presence_drops_machine_class n }"

section \<open>test_duration.c\<close>

record test_counts =
  tests_run :: nat
  tests_failed :: nat

definition count_check :: "bool \<Rightarrow> test_counts \<Rightarrow> test_counts" where
  "count_check e c =
     c\<lparr>tests_run := tests_run c + 1, tests_failed := (if e then tests_failed c else tests_failed c + 1)\<rparr>"

text \<open>The loop over the codes also keeps \<open>previous\<close>.\<close>

definition test_injective_and_monotonic :: "test_counts \<Rightarrow> test_counts" where
  "test_injective_and_monotonic c =
     (let c = count_check (mcl_wire_duration_seconds 0 = 0) c;
          (previous, c) = fold (\<lambda>i (previous, c).
             let seconds = mcl_wire_duration_seconds (of_nat i)
             in (seconds, count_check (\<not> seconds \<le> previous) c)) [1..<256] (0, c)
      in count_check (previous = MCL_WIRE_DURATION_MAX_SECONDS) c)"

definition test_round_trip_is_exact :: "test_counts \<Rightarrow> test_counts" where
  "test_round_trip_is_exact c =
     fold (\<lambda>i c.
        let seconds = mcl_wire_duration_seconds (of_nat i);
            (st, code) = mcl_wire_duration_encode seconds (Some 0xFF);
            c = count_check (st = MCL_WIRE_OK) c
        in count_check (\<not> the code \<noteq> of_nat i) c) [0..<256] c"

definition test_rounds_down :: "u32 \<Rightarrow> test_counts \<Rightarrow> test_counts" where
  "test_rounds_down seconds c =
     (let (st, code) = mcl_wire_duration_encode seconds (Some 0);
          c = count_check (st = MCL_WIRE_OK) c;
          decoded = mcl_wire_duration_seconds (the code)
      in if decoded > seconds then count_check False c
         else
           let c = count_check True c
           in if the code < 255
              then count_check (\<not> mcl_wire_duration_seconds (the code + 1) \<le> seconds) c
              else c)"

definition test_rounds_down_never_up :: "test_counts \<Rightarrow> test_counts" where
  "test_rounds_down_never_up c =
     fold (\<lambda>seconds. test_rounds_down (of_nat seconds)) [0..<Suc (unat MCL_WIRE_DURATION_MAX_SECONDS)] c"

definition test_refuses_rather_than_clamps :: "test_counts \<Rightarrow> test_counts" where
  "test_refuses_rather_than_clamps c =
     (let (st, code) = mcl_wire_duration_encode MCL_WIRE_DURATION_MAX_SECONDS (Some 0);
          c = count_check (st = MCL_WIRE_OK) c;
          c = count_check (the code = 0xFF) c;
          (st, code) = mcl_wire_duration_encode (MCL_WIRE_DURATION_MAX_SECONDS + 1) code;
          c = count_check (st = MCL_WIRE_ERR_RANGE) c;
          (st, code) = mcl_wire_duration_encode 2592000 code;
          c = count_check (st = MCL_WIRE_ERR_RANGE) c;
          (st, code) = mcl_wire_duration_encode 0xFFFFFFFF code;
          c = count_check (st = MCL_WIRE_ERR_RANGE) c
      in count_check (fst (mcl_wire_duration_encode 60 None) = MCL_WIRE_ERR_INVALID_ARGUMENT) c)"

definition wanted_durations :: "u32 list" where
  "wanted_durations = [1, 5, 10, 15, 30, 60, 120, 300, 600, 900, 1800, 3600, 7200, 28800, 86400]"

definition test_useful_durations_are_close :: "test_counts \<Rightarrow> test_counts" where
  "test_useful_durations_are_close c =
     fold (\<lambda>wanted c.
        let (st, code) = mcl_wire_duration_encode wanted (Some 0);
            c = count_check (st = MCL_WIRE_OK) c;
            got = mcl_wire_duration_seconds (the code);
            lost = wanted - got
        in count_check (\<not> (wanted \<ge> 60 \<and> lost * 16 > wanted)) c) wanted_durations c"

text \<open>\<open>main\<close>: the counts it prints; it exits with 0 when no check failed.\<close>

definition test_duration_main :: test_counts where
  "test_duration_main =
     test_useful_durations_are_close (test_refuses_rather_than_clamps (test_rounds_down_never_up
       (test_round_trip_is_exact (test_injective_and_monotonic \<lparr>tests_run = 0, tests_failed = 0\<rparr>))))"

end
