(* ===== verification/Wire_Test_Spec.thy ===== *)
theory Wire_Test_Spec
  imports Wire_Test Wire_Layout_Spec Wire_Tier0_Spec
begin

text \<open>
  The test programs pass on the model, for every state of their random number generator and whatever
  their uninitialised buffers and objects hold.
\<close>

unbundle bit_operations_syntax

section \<open>Loops over checks\<close>

lemma for_each_all: "\<forall>x \<in> set xs. f x = Some () \<Longrightarrow> for_each f xs = Some ()"
  by (induction xs) auto

lemma checks_all: "list_all (\<lambda>e. e) es \<Longrightarrow> length es = k \<Longrightarrow> checks es n = Some (n + k)"
  by (induction es arbitrary: n k) (auto simp: CHECK_def)

section \<open>The random objects\<close>

definition next_random :: "u32 \<Rightarrow> u32" where
  "next_random s = fst (run_state mcl_test_random s)"

lemma run_random [simp]: "run_state mcl_test_random s = (next_random s, next_random s)"
  by (simp add: mcl_test_random_def next_random_def Let_def)

lemma ucast_signed_take_bit:
  "k < 16 \<Longrightarrow> (ucast (signed_take_bit k (r :: u32)) :: s16) = signed_take_bit k (ucast r)"
  by (rule bit_eqI) (auto simp: bit_simps min_def)

lemma run_signed:
  assumes "0 < n" and "n \<le> 16"
  shows "run_state (mcl_test_signed n) s =
     (signed_take_bit (n - 1) (ucast (next_random s)), next_random s)"
proof -
  have mask: "r AND (push_bit n 1 - 1) = take_bit n r" for r :: u32
    by (simp add: take_bit_eq_mask mask_eq_exp_minus_1)
  have top: "take_bit n r AND push_bit (n - 1) 1 \<noteq> 0 \<longleftrightarrow> bit r (n - 1)" for r :: u32
    using assms by (simp add: bit_iff_and_push_bit_not_eq_0 [symmetric] bit_take_bit_iff del: push_bit_of_1)
  have "(if bit r (n - 1) then ucast (take_bit n r - push_bit n 1) else ucast (take_bit n r)) =
      (signed_take_bit (n - 1) (ucast r) :: s16)" for r :: u32
    using assms signed_take_bit_word [of "n - 1" r] ucast_signed_take_bit [of "n - 1" r] by auto
  then show ?thesis
    by (simp add: mcl_test_signed_def mask top [unfolded One_nat_def] Let_def del: push_bit_of_1)
qed

lemma sint_signed_take_bit:
  assumes "k < 16"
  shows "- (2 ^ k) \<le> sint (signed_take_bit k (v :: s16))" and "sint (signed_take_bit k v) < 2 ^ k"
proof -
  have "sint (signed_take_bit k v) = signed_take_bit k (sint v)"
    using assms by (cases "k = 15"; intro bit_eqI) (auto simp: bit_simps min_def bit_sint_iff)
  then show "- (2 ^ k) \<le> sint (signed_take_bit k v)" and "sint (signed_take_bit k v) < 2 ^ k"
    by (simp_all add: signed_take_bit_int_less_exp signed_take_bit_int_greater_eq_minus_exp)
qed

definition fill_ok :: "mcl_wire_kind \<Rightarrow> mcl_wire_tier0 \<Rightarrow> bool" where
  "fill_ok kind obj \<longleftrightarrow> obj_kind obj = kind \<and> obj_priority obj \<le> 3 \<and> fields_in_range obj \<and> wire_view 0 obj = obj"

lemma ucast_and_le: "(ucast (r AND m :: u32) :: 'a::len word) \<le> ucast m"
  by (simp add: unsigned_and_eq word_and_le1)

lemmas masked = ucast_and_le [of _ 3, where 'a = 8, simplified] ucast_and_le [of _ 7, where 'a = 8, simplified]
  ucast_and_le [of _ 63, where 'a = 8, simplified] ucast_and_le [of _ 127, where 'a = 8, simplified]
  ucast_and_le [of _ 1023, where 'a = 16, simplified] ucast_and_le [of _ 4095, where 'a = 16, simplified]
  ucast_and_le [of _ 16777215, where 'a = 32, simplified]

lemma masked_less:
  "(ucast (r AND 7 :: u32) :: u8) < 8" "(ucast (r AND 63 :: u32) :: u8) < 64"
  "(ucast (r AND 127 :: u32) :: u8) < 128" "(ucast (r AND 1023 :: u32) :: u16) < 1024"
  "(ucast (r AND 4095 :: u32) :: u16) < 4096" "(r AND 16777215 :: u32) < 16777216"
  using masked(2-) [of r] by (auto intro: le_less_trans)

lemma fill_random:
  assumes "kind \<le> 6"
  shows "\<exists>obj s'. run_state (mcl_test_fill kind) s = (Some obj, s') \<and> fill_ok kind obj"
proof -
  have "kind \<in> {0, 1, 2, 3, 4, 5, 6}" using assms kind_le_six by blast
  then show ?thesis
  proof (cases rule: kind_cases)
  qed (simp_all add: mcl_test_fill_def run_signed Let_def fill_ok_def fields_in_range_def wire_view_def
    zero_body_def masked(1) masked_less sint_signed_take_bit [of 11, simplified] sint_signed_take_bit [of 9, simplified])
qed

section \<open>One trial\<close>

lemma tier0_decode_short:
  assumes "tier0_encodable 0 obj" and "m < length (tier0_wire 0 obj)"
  shows "mcl_wire_tier0_decode (Some (tier0_wire 0 obj @ rest)) m (Some o0) (Some c0) =
     (MCL_WIRE_ERR_TRUNCATED, Some o0, Some c0)"
proof -
  let ?bs = "tier0_wire 0 obj @ rest"
  have carried: "kind_carried 0 (obj_kind obj)" using assms(1) by (simp add: tier0_encodable_def)
  have header: "wire_header ?bs = tier0_header 0 obj"
    using wire_header_object_bytes [OF assms(1), of 0 rest] by (simp add: tier0_wire_object_bytes tier0_header_def)
  have kind: "wire_kind ?bs = Some (obj_kind obj)"
    using wire_kind_object_bytes [OF assms(1), of 0 rest] by (simp add: tier0_wire_object_bytes)
  have size: "wire_size ?bs (obj_kind obj) = length (tier0_wire 0 obj)"
    using length_tier0_wire [OF carried] by (simp add: wire_size_def header tier0_header_def)
  have m: "m \<le> length ?bs" using assms(2) by simp
  show ?thesis
  proof (cases "m < 2")
    case True
    then show ?thesis by (simp add: decode_clear_bit [OF m] decode_body_short)
  next
    case False
    then show ?thesis
      using decode_body_accepted [OF kind _ m, of o0 c0] assms(2)
      by (simp add: decode_clear_bit [OF m] header tier0_header_def size)
  qed
qed

lemma tier0_encode_no_room:
  assumes "tier0_encodable 0 obj" and "cap < length (tier0_wire 0 obj)"
  shows "mcl_wire_tier0_encode (Some obj) (Some bs) cap (Some w) =
     (MCL_WIRE_ERR_BUFFER_TOO_SMALL, Some bs, Some w)"
proof -
  have "kind_carried 0 (obj_kind obj)" using assms(1) by (simp add: tier0_encodable_def)
  from length_tier0_wire [OF this] assms(2) show ?thesis
    by (simp add: mcl_wire_tier0_encode_def mcl_wire_tier0_encode_at_major_def)
qed

lemma padded_rows: "\<forall>k \<in> set k_table. mcl_kind_has_padding (krow_kind k) \<longrightarrow> 0 < krow_pad_bits k"
  by code_simp

lemma tier0_decode_padding:
  assumes "tier0_encodable 0 obj" and "mcl_kind_has_padding (obj_kind obj)"
    and n: "n = length (tier0_wire 0 obj)" and bs: "bs = tier0_wire 0 obj @ rest"
  shows "fst (mcl_wire_tier0_decode (Some (bs[n - 1 := bs ! (n - 1) OR 1])) n (Some o0) (Some c0)) =
     MCL_WIRE_ERR_NONCANONICAL"
proof -
  have carried: "kind_carried 0 (obj_kind obj)" using assms(1) by (simp add: tier0_encodable_def)
  obtain k where k: "k \<in> set k_table" "krow_kind k = obj_kind obj" using table_complete [OF carried] .
  have pad: "0 < krow_pad_bits k" using padded_rows k assms(2) by simp
  have size: "krow_bytes k = n" "10 \<le> n"
    using length_tier0_wire [OF carried] table_kind(2) [OF k(1)] k(2) encoded_size_bounds [OF carried] n by simp_all
  let ?broken = "bs[n - 1 := bs ! (n - 1) OR 1]"
  have "n * 8 - 1 = 7 + (n - 1) * 8" using size(2) by linarith
  then have at: "(n * 8 - 1) div 8 = n - 1" "(n * 8 - 1) mod 8 = 7" by simp_all
  have "n * 8 - 1 < 8 * length bs" using size(2) by (simp add: bs n)
  from bits_of_set_bit [OF this] have bits: "bits_of ?broken = (bits_of bs)[krow_bytes k * 8 - 1 := True]"
    by (simp add: at size(1) del: One_nat_def)
  have len: "n \<le> length ?broken" by (simp add: bs n)
  have lenk: "krow_bytes k \<le> length ?broken" using len by (simp only: size(1))
  note broken = wire_set_last_bit [OF k(1) pad k(2) assms(1) lenk, of rest, folded bs, OF bits]
  have "mcl_wire_tier0_decode (Some ?broken) n (Some o0) (Some c0) =
      mcl_wire_tier0_decode_body (Some ?broken) n (Some o0) (Some c0)"
    unfolding decode_clear_bit [OF len] broken(1) by (simp add: tier0_header_def)
  also have "fst \<dots> = MCL_WIRE_ERR_NONCANONICAL"
    using decode_body_accepted [OF broken(2) _ len, of o0 c0] broken(3,4) size by simp
  finally show ?thesis .
qed

lemma trial_passes:
  assumes "fill_ok kind input" and "kind \<le> 6" and "length encoded = 17"
  shows "\<exists>encoded'. mcl_test_trial output kind (mcl_wire_tier0_encoded_size kind) input encoded = Some encoded' \<and>
     length encoded' = 17"
proof -
  have kind: "obj_kind input = kind" "kind_carried 0 kind" and view: "wire_view 0 input = input"
    using assms(1,2) kind_le_six [of kind] by (simp_all add: fill_ok_def kind_carried_cases)
  have enc: "tier0_encodable 0 input" using assms(1) kind by (simp add: tier0_encodable_iff fill_ok_def)
  let ?w = "tier0_wire 0 input" and ?n = "mcl_wire_tier0_encoded_size kind"
  have size: "length ?w = ?n" "10 \<le> ?n" "?n \<le> 17"
    using length_tier0_wire [of 0 input] encoded_size_bounds [OF kind(2)] kind
    by (simp_all add: mcl_wire_tier0_encoded_size_at_major_def kind_carried_def)
  let ?bs = "?w @ drop ?n encoded"
  have room: "length ?w \<le> length encoded" "?n - 1 < length ?w" using size assms(3) by simp_all
  note run = encode_success_major_0 [OF enc room(1) order_refl, of 0, unfolded size(1)]
  have same: "mcl_wire_tier0_decode (Some ?bs) ?n (Some output) (Some 0) = (MCL_WIRE_OK, Some input, Some ?n)"
    using decode_tier0_wire [OF enc, of ?n "drop ?n encoded" "output" 0] size(1) view by simp
  note short = tier0_decode_short [OF enc room(2), of "drop ?n encoded" input ?n]
  note full = tier0_encode_no_room [OF enc room(2), of ?bs ?n]
  have broken: "fst (mcl_wire_tier0_decode (Some (?bs[?n - 1 := ?bs ! (?n - 1) OR 1])) ?n (Some input) (Some ?n)) =
      MCL_WIRE_ERR_NONCANONICAL" if "mcl_kind_has_padding kind"
    using tier0_decode_padding [OF enc _ size(1) [symmetric] refl] that kind(1) by simp
  show ?thesis
    using run same short full broken size assms(3)
    by (simp add: mcl_test_trial_def Let_def)
qed

lemma trials_pass:
  assumes "kind \<le> 6" and "length (fst s) = 17"
  shows "\<exists>s'. mcl_test_trials output kind (mcl_wire_tier0_encoded_size kind) n s = Some s' \<and> length (fst s') = 17"
  using assms(2)
proof (induction n arbitrary: s)
  case (Suc n)
  obtain input rng where fill: "run_state (mcl_test_fill kind) (snd s) = (Some input, rng)" "fill_ok kind input"
    using fill_random [OF assms(1)] by blast
  obtain encoded where "mcl_test_trial output kind (mcl_wire_tier0_encoded_size kind) input (fst s) = Some encoded"
      "length encoded = 17"
    using trial_passes [OF fill(2) assms(1) Suc.prems] by blast
  with Suc.IH [of "(encoded, rng)"] show ?case by (simp add: fill(1))
qed simp

lemma roundtrips_pass:
  assumes "set is \<subseteq> {..<7}" and "length (fst s) = 17"
  shows "\<exists>s'. mcl_test_tier0_roundtrips output trials is s = Some s' \<and> length (fst s') = 17"
  using assms
proof (induction "is" arbitrary: s)
  case (Cons i "is")
  then have i: "i \<in> {0, 1, 2, 3, 4, 5, 6}" by auto
  then have size: "mcl_wire_tier0_encoded_size (of_nat i) = expected_sizes ! i" "(of_nat i :: u8) \<le> 6"
    by (auto simp: mcl_wire_tier0_encoded_size_def expected_sizes_def)
  obtain s' where "mcl_test_trials output (of_nat i) (expected_sizes ! i) trials s = Some s'" "length (fst s') = 17"
    using trials_pass [OF size(2), of s "output" trials] Cons.prems(2) by (auto simp: size(1))
  with Cons.IH [of s'] Cons.prems show ?case by (simp add: size)
qed simp

section \<open>The headers\<close>

lemma header_inputs_in_range: "\<forall>h \<in> set test_header_inputs. header_in_range h"
proof -
  have small: "(of_nat n :: u8) \<le> of_nat m" if "n \<le> m" "m < 256" for n m
    using that by (simp add: word_le_nat_alt unsigned_of_nat take_bit_nat_eq_self)
  show ?thesis
    using small [of _ 15] small [of _ 31] small [of _ 3] small [of _ 1]
    by (auto simp: test_header_inputs_def header_in_range_def)
qed

lemma length_header_inputs: "length test_header_inputs = 65536"
  by (simp add: test_header_inputs_def length_concat comp_def sum_list_triv)

lemma headers_pass:
  assumes "length encoded = 2"
  shows "mcl_test_headers encoded output = Some ()"
proof -
  have "mcl_test_header encoded output h = Some ()" if "header_in_range h" for h
    using that assms by (simp add: mcl_test_header_def mcl_wire_header_encode_result
      header_of_header_bytes [OF that, simplified])
  then show ?thesis
    using for_each_all [of test_header_inputs] header_inputs_in_range
    by (simp add: mcl_test_headers_def length_header_inputs)
qed

section \<open>The duration counts\<close>

lemma count_check_True [simp]: "count_check True c = c\<lparr>tests_run := Suc (tests_run c)\<rparr>"
  by (simp add: count_check_def)

lemma fold_counts:
  assumes "\<forall>x \<in> set xs. \<forall>c. f x c = c\<lparr>tests_run := tests_run c + k x\<rparr>"
  shows "fold f xs c = c\<lparr>tests_run := tests_run c + sum_list (map k xs)\<rparr>"
  using assms by (induction xs arbitrary: c) (simp_all add: add.assoc)

lemma duration_seconds_less:
  "mcl_wire_duration_seconds c < mcl_wire_duration_seconds d \<longleftrightarrow> c < d"
  by (simp add: word_less_nat_alt duration_seconds_of strict_mono_less [OF duration_of_strict])

lemma injective_counts:
  "test_injective_and_monotonic c = c\<lparr>tests_run := tests_run c + 257\<rparr>"
proof -
  let ?step = "\<lambda>i (previous, c). let seconds = mcl_wire_duration_seconds (of_nat i)
    in (seconds, count_check (\<not> seconds \<le> previous) c)"
  have "fold ?step [1..<Suc n] (0, c) = (mcl_wire_duration_seconds (of_nat n), c\<lparr>tests_run := tests_run c + n\<rparr>)"
    if "n < 256" for n c
    using that
  proof (induction n)
    case (Suc n)
    have "(of_nat n :: u8) < of_nat (Suc n)"
      using Suc.prems by (simp only: word_less_nat_alt unsigned_of_nat) (simp add: take_bit_nat_eq_self)
    then have "\<not> mcl_wire_duration_seconds (of_nat (Suc n)) \<le> mcl_wire_duration_seconds (of_nat n)"
      by (simp only: not_le duration_seconds_less)
    with Suc show ?case by (simp add: Let_def del: of_nat_Suc)
  qed (simp add: mcl_wire_duration_seconds_def)
  from this [of 255] show ?thesis
    by (simp add: test_injective_and_monotonic_def mcl_wire_duration_seconds_def Let_def)
qed

lemma duration_same_code: "mcl_wire_duration_encode (mcl_wire_duration_seconds c) (Some c0) = (MCL_WIRE_OK, Some c)"
proof -
  obtain code where code: "mcl_wire_duration_encode (mcl_wire_duration_seconds c) (Some c0) = (MCL_WIRE_OK, Some code)"
      "\<forall>d. mcl_wire_duration_seconds d \<le> mcl_wire_duration_seconds c \<longleftrightarrow> d \<le> code"
    using duration_encode_greatest [OF duration_seconds_bound] by blast
  then have "c \<le> code" "mcl_wire_duration_seconds code \<le> mcl_wire_duration_seconds c" by blast+
  moreover from this(2) have "\<not> c < code" by (simp only: not_less [symmetric] duration_seconds_less simp_thms)
  ultimately have "code = c" by simp
  with code(1) show ?thesis by simp
qed

lemma round_trip_counts: "test_round_trip_is_exact c = c\<lparr>tests_run := tests_run c + 512\<rparr>"
  unfolding test_round_trip_is_exact_def
  by (subst fold_counts [where k = "\<lambda>_. 2"]) (simp_all add: duration_same_code sum_list_triv)

text \<open>The last code is the only one without a next code, and only the maximum has it.\<close>

lemma rounds_down_step:
  assumes "seconds \<le> MCL_WIRE_DURATION_MAX_SECONDS"
  shows "test_rounds_down seconds c =
     c\<lparr>tests_run := tests_run c + (if seconds = MCL_WIRE_DURATION_MAX_SECONDS then 2 else 3)\<rparr>"
proof -
  obtain code where code: "mcl_wire_duration_encode seconds (Some 0) = (MCL_WIRE_OK, Some code)"
      "\<forall>d. mcl_wire_duration_seconds d \<le> seconds \<longleftrightarrow> d \<le> code"
    using duration_encode_greatest [OF assms] by blast
  then have down: "\<not> mcl_wire_duration_seconds code > seconds" by (simp add: not_less)
  have top: "mcl_wire_duration_seconds 255 = MCL_WIRE_DURATION_MAX_SECONDS"
    by (simp add: word_unat_eq_iff duration_seconds_of duration_of_255)
  have less: "code < 255 \<longleftrightarrow> code \<noteq> 255"
    using unat_u8_less [of code] by (auto simp: word_less_nat_alt word_unat_eq_iff)
  have last: "code = 255 \<longleftrightarrow> seconds = MCL_WIRE_DURATION_MAX_SECONDS"
  proof
    assume "code = 255"
    with code(2) top have "MCL_WIRE_DURATION_MAX_SECONDS \<le> seconds" by (metis order_refl)
    with assms show "seconds = MCL_WIRE_DURATION_MAX_SECONDS" by simp
  next
    assume "seconds = MCL_WIRE_DURATION_MAX_SECONDS"
    with code(2) top have "255 \<le> code" by (metis order_refl)
    then show "code = 255" using less by (simp add: not_less [symmetric])
  qed
  have "code < code + 1" if "code < 255"
    using that by (simp add: word_less_nat_alt unat_word_ariths)
  then have up: "\<not> mcl_wire_duration_seconds (code + 1) \<le> seconds" if "code < 255"
    using code(2) that by (simp add: not_le)
  show ?thesis
    using down up last less by (auto simp: test_rounds_down_def Let_def code(1))
qed

lemma rounds_down_counts: "test_rounds_down_never_up c = c\<lparr>tests_run := tests_run c + 1523714\<rparr>"
proof -
  obtain n where n: "n = unat MCL_WIRE_DURATION_MAX_SECONDS" "n = 507904" by simp
  let ?k = "\<lambda>i. if i = n then 2 else (3::nat)"
  have step: "test_rounds_down (of_nat i) c = c\<lparr>tests_run := tests_run c + ?k i\<rparr>" if "i < Suc n" for i c
  proof -
    have i: "unat (of_nat i :: u32) = i" using that n(2) by (simp add: unsigned_of_nat take_bit_nat_eq_self)
    then have "(of_nat i :: u32) \<le> MCL_WIRE_DURATION_MAX_SECONDS"
      "(of_nat i :: u32) = MCL_WIRE_DURATION_MAX_SECONDS \<longleftrightarrow> i = n"
      using that n(1) by (simp_all only: word_le_nat_alt word_unat_eq_iff)
    then show ?thesis by (simp only: rounds_down_step)
  qed
  have "sum_list (map ?k [0..<Suc n]) = sum_list (map ?k [0..<n]) + 2" by simp
  also have "map ?k [0..<n] = map (\<lambda>_. 3) [0..<n]" by (rule map_cong) auto
  finally have "sum_list (map ?k [0..<Suc n]) = 3 * n + 2" by (simp add: sum_list_triv)
  with n(2) have sum: "sum_list (map ?k [0..<Suc n]) = 1523714" by simp
  have "\<forall>i \<in> set [0..<Suc n]. \<forall>c. test_rounds_down (of_nat i) c = c\<lparr>tests_run := tests_run c + ?k i\<rparr>"
    using step by (metis atLeastLessThan_iff atLeastLessThan_upt)
  from fold_counts [OF this, of c] show ?thesis
    unfolding sum test_rounds_down_never_up_def n(1) [symmetric] .
qed

lemma refuses_counts: "test_refuses_rather_than_clamps c = c\<lparr>tests_run := tests_run c + 6\<rparr>"
proof -
  have "mcl_wire_duration_seconds 255 = MCL_WIRE_DURATION_MAX_SECONDS"
    by (simp add: word_unat_eq_iff duration_seconds_of duration_of_255)
  then have "mcl_wire_duration_encode MCL_WIRE_DURATION_MAX_SECONDS (Some 0) = (MCL_WIRE_OK, Some 255)"
    using duration_same_code [of 255 0] by simp
  then show ?thesis
    by (simp add: test_refuses_rather_than_clamps_def Let_def duration_encode_range)
       (simp add: mcl_wire_duration_encode_def)
qed

lemma wanted_close:
  "list_all (\<lambda>wanted. case mcl_wire_duration_encode wanted (Some 0) of (st, code) \<Rightarrow>
      st = MCL_WIRE_OK \<and> \<not> (wanted \<ge> 60 \<and> (wanted - mcl_wire_duration_seconds (the code)) * 16 > wanted))
    wanted_durations"
  by code_simp

lemma useful_counts: "test_useful_durations_are_close c = c\<lparr>tests_run := tests_run c + 30\<rparr>"
  unfolding test_useful_durations_are_close_def
  using wanted_close
  by (subst fold_counts [where k = "\<lambda>_. 2"])
    (auto simp: list_all_iff Let_def wanted_durations_def simp del: not_le dest!: bspec split: prod.splits)

section \<open>The fixed tests\<close>

lemma vectors_in_order:
  "list_all (\<lambda>v. tier0_encodable 0 (vec_object v) \<and> wire_view 0 (vec_object v) = vec_object v \<and>
     tier0_wire 0 (vec_object v) = vec_bytes v) test_vectors"
  by code_simp

lemma vector_passes:
  assumes "v \<in> set test_vectors" and "length encoded = 17"
  shows "test_vector encoded decoded v = Some ()"
proof -
  have v: "tier0_encodable 0 (vec_object v)" "wire_view 0 (vec_object v) = vec_object v"
      "tier0_wire 0 (vec_object v) = vec_bytes v"
    using vectors_in_order assms(1) by (auto simp: list_all_iff)
  have "kind_carried 0 (obj_kind (vec_object v))" using v(1) by (simp add: tier0_encodable_def)
  then have len: "length (vec_bytes v) \<le> 17" using length_tier0_wire encoded_size_bounds by (metis v(3))
  have "mcl_wire_tier0_encode (Some (vec_object v)) (Some encoded) 17 (Some 0) =
      (MCL_WIRE_OK, Some (vec_bytes v @ drop (length (vec_bytes v)) encoded), Some (length (vec_bytes v)))"
    using encode_success_major_0 [OF v(1), of 17 encoded 0] len assms(2) by (simp add: v(3))
  moreover have "mcl_wire_tier0_decode (Some (vec_bytes v)) (length (vec_bytes v)) (Some decoded) (Some 0) =
      (MCL_WIRE_OK, Some (vec_object v), Some (length (vec_bytes v)))"
    using decode_tier0_wire [OF v(1), of "length (vec_bytes v)" "[]" decoded 0] by (simp add: v(2,3))
  ultimately show ?thesis by (simp add: test_vector_def)
qed

lemma major_tables:
  "test_experimental_major_carries_everything n = Some (n + 7)"
  "test_stable_major_carries_only_the_three n = Some (n + 7)"
  "test_exactly_three_are_stable n = Some (n + 1)"
  "test_unassigned_majors_are_refused n = Some (n + 98)"
  "test_unknown_kind_refused_at_every_major n = Some (n + 32)"
  "test_major_1_presence_drops_machine_class n = Some (n + 20)"
proof -
  have "sum_list (map (mcl_wire_kind_allowed_at_major MCL_WIRE_STABLE_MAJOR) all_kinds) = 3" by code_simp
  then show "test_exactly_three_are_stable n = Some (n + 1)"
    by (simp add: test_exactly_three_are_stable_def CHECK_def)
qed (unfold test_experimental_major_carries_everything_def test_stable_major_carries_only_the_three_def
    test_unassigned_majors_are_refused_def test_unknown_kind_refused_at_every_major_def
    test_major_1_presence_drops_machine_class_def, (rule checks_all, code_simp, code_simp)+)

lemma major_round_trips:
  assumes "length frame = 17"
  shows "test_stable_major_round_trips frame object presence0 n = Some (n + 12)"
proof -
  define presence where "presence = \<lparr>obj_kind = MCL_WIRE_KIND_PRESENCE, obj_priority = 1, obj_source_ref = 0x11223344,
    obj_body = (obj_body presence0)\<lparr>body_presence := \<lparr>presence_machine_class = 7,
      presence_capability_tag = 0x00ABCD, presence_ttl = 60\<rparr>\<rparr>\<rparr>"
  have kind: "obj_kind presence = 0" by (simp add: presence_def)
  have enc: "tier0_encodable 0 presence" "tier0_encodable 1 presence"
    by (simp_all add: tier0_encodable_iff kind_carried_cases fields_in_range_def presence_def)
  have size: "mcl_wire_tier0_encoded_size_at_major 0 0 = 11" "mcl_wire_tier0_encoded_size_at_major 1 0 = 10"
    by code_simp+
  have len: "length (tier0_wire 0 presence) = 11" "length (tier0_wire 1 presence) = 10"
    using length_tier0_wire [of 0 presence] length_tier0_wire [of 1 presence] kind size
    by (simp_all add: kind_carried_cases)
  have major: "drop_bit 4 (tier0_wire m presence ! 0) = m" if "m \<le> 1" "tier0_encodable m presence" for m
    using wire_header_object_bytes [OF that(2), of 0 "[]"] wire_major_byte [of "tier0_wire m presence"]
    by (simp add: tier0_wire_object_bytes tier0_header_def)
  have first: "mcl_wire_tier0_encode_at_major 1 (Some presence) (Some frame) 17 (Some 0) =
      (MCL_WIRE_OK, Some (tier0_wire 1 presence @ drop 10 frame), Some 10)"
    using encode_success [OF enc(2), of 10 17 frame 0] assms kind size by simp
  have dec: "mcl_wire_tier0_decode (Some (tier0_wire 1 presence @ drop 10 frame)) 10 (Some object) (Some 0) =
      (MCL_WIRE_OK, Some (wire_view 1 presence), Some 10)"
    using decode_tier0_wire [OF enc(2), of 10 "drop 10 frame" object 0] len(2) by simp
  have second: "mcl_wire_tier0_encode (Some presence) (Some (tier0_wire 1 presence @ drop 10 frame)) 17 (Some 10) =
      (MCL_WIRE_OK, Some (tier0_wire 0 presence @ drop 11 (tier0_wire 1 presence @ drop 10 frame)), Some 11)"
    using encode_success_major_0 [OF enc(1), of 17 "tier0_wire 1 presence @ drop 10 frame" 10] len assms by simp
  show ?thesis
    unfolding test_stable_major_round_trips_def presence_def [symmetric] Let_def first prod.case dec second
      option.sel
    by (rule checks_all) (simp_all add: nth_append len major enc wire_view_def kind, simp_all add: presence_def)
qed

lemma major_refused:
  assumes "length frame = 17"
  shows "test_candidate_refused_at_stable_major frame object n = Some (n + 3)"
proof -
  define hazard where "hazard = zero_object\<lparr>obj_kind := MCL_WIRE_KIND_HAZARD, obj_priority := 2, obj_source_ref := 0x55667788\<rparr>"
  have enc: "tier0_encodable 0 hazard" and wire: "tier0_wire 0 hazard = [3, 12, 0x55, 0x66, 0x77, 0x88, 0, 0, 0, 0, 0, 0, 0, 0, 0]"
    unfolding hazard_def by code_simp+
  have len: "length (tier0_wire 0 hazard) = 15" by (simp add: wire)
  have first: "mcl_wire_tier0_encode_at_major 1 (Some hazard) (Some frame) 17 (Some 0) =
      (MCL_WIRE_ERR_UNSUPPORTED_SEMANTIC, Some frame, Some 0)"
    by (simp add: mcl_wire_tier0_encode_at_major_def hazard_def mcl_wire_tier0_encoded_size_at_major_def
        mcl_wire_kind_allowed_at_major_def)
  have second: "mcl_wire_tier0_encode (Some hazard) (Some frame) 17 (Some 0) =
      (MCL_WIRE_OK, Some (tier0_wire 0 hazard @ drop 15 frame), Some 15)"
    using encode_success_major_0 [OF enc, of 17 frame 0] assms by (simp add: len)
  let ?bs = "[0x13, 12, 0x55, 0x66, 0x77, 0x88, 0, 0, 0, 0, 0, 0, 0, 0, 0] @ drop 15 frame"
  have changed: "(tier0_wire 0 hazard @ drop 15 frame)[0 := push_bit 4 1 OR ((tier0_wire 0 hazard @ drop 15 frame) ! 0 AND 0x0F)] = ?bs"
    by (simp add: wire)
  have none: "wire_kind ?bs = None" and bit: "hdr_extension_present (wire_header ?bs) = 0"
    by (simp_all add: wire_kind_def wire_header_def header_of_def mcl_code_to_kind_def kind_carried_cases)
  have "fst (mcl_wire_tier0_decode (Some ?bs) 15 (Some object) (Some 0)) = MCL_WIRE_ERR_UNSUPPORTED_SEMANTIC"
    using decode_clear_bit [of 15 ?bs object 0] decode_body_refused [OF _ none, of 15 object 0] bit assms by simp
  then show ?thesis
    unfolding test_candidate_refused_at_stable_major_def hazard_def [symmetric] Let_def first prod.case second
      option.sel changed
    by (cases "mcl_wire_tier0_decode (Some ?bs) 15 (Some object) (Some 0)") (simp add: CHECK_def)
qed

section \<open>The programs\<close>

text \<open>
  C31: \<open>tests/test_wire.c\<close> passes, and not for its seed and its number of trials only: from every state of
  the random number generator, with any number of trials for each kind and whatever the buffers and
  objects hold that it does not initialise, every check of the random round trips succeeds, and \<open>main\<close>
  exits with 0.
\<close>

theorem test_wire_passes:
  assumes "length header_bytes0 = 2" and "length encoded0 = 17"
  shows "(\<exists>s. mcl_test_tier0_roundtrips output0 trials [0..<7] (encoded0, seed) = Some s) \<and>
     test_wire_main header_bytes0 header0 encoded0 output0 = 0"
proof -
  have "\<exists>s. mcl_test_tier0_roundtrips output0 n [0..<7] (encoded0, r) = Some s" for n r
    using roundtrips_pass [of "[0..<7]" "(encoded0, r)" output0 n] assms(2) by (auto simp: atLeast0LessThan)
  then show ?thesis
    using headers_pass [OF assms(1)] by (auto simp: test_wire_main_def exit_code_def bind_eq_None_conv)
qed

theorem test_wire_passes_witness:
  "test_wire_main [0, 0] (header_of 0 0) (replicate 17 0) zero_object = 0"
  using test_wire_passes [of "[0, 0]" "replicate 17 0" zero_object 0 0 "header_of 0 0"] by simp

text \<open>
  C33: The remaining test programs of the codec pass: \<open>tests/test_duration.c\<close>, which visits every code and every
  representable second, runs 1524519 checks of which none fails, \<open>tests/test_major_rule.c\<close> prints
  \<open>180 checks, 0 failed.\<close> and \<open>tests/test_vectors.c\<close> exits with 0.
\<close>

theorem codec_tests_pass:
  assumes "length frame0 = 17" and "length frame1 = 17" and "length encoded0 = 17"
  shows "test_duration_main = \<lparr>tests_run = 1524519, tests_failed = 0\<rparr> \<and>
     test_major_rule_main frame0 object0 presence0 frame1 object1 = Some 180 \<and>
     test_vectors_main encoded0 decoded0 = 0"
  using for_each_all [of test_vectors "test_vector encoded0 decoded0"] vector_passes [OF _ assms(3)]
  by (simp add: test_duration_main_def injective_counts round_trip_counts rounds_down_counts refuses_counts
      useful_counts test_major_rule_main_def major_tables major_round_trips [OF assms(1)]
      major_refused [OF assms(2)] test_vectors_main_def exit_code_def)

theorem codec_tests_pass_witness:
  "test_major_rule_main (replicate 17 0) zero_object zero_object (replicate 17 255) zero_object = Some 180"
  using codec_tests_pass [of "replicate 17 0" "replicate 17 255" "replicate 17 0"] by simp

end
