(* ===== verification/Wire_Test_Extension.thy ===== *)
theory Wire_Test_Extension
  imports Wire_Test Wire_Tier0_Ext
begin

text \<open>
  The test program \<open>tests/test_extension.c\<close>, in the conventions of \<open>Wire_Test\<close>: a check that fails ends the
  program with \<open>exit(1)\<close>, which is \<open>None\<close>; buffers and objects that a test declares without initialising
  them are arguments, one for each. What the program reports is in \<open>Wire_Test_Extension_Spec\<close>.
\<close>

unbundle bit_operations_syntax

abbreviation (input) MCL_WIRE_TIER0_EXT_MAX_SIZE :: nat where "MCL_WIRE_TIER0_EXT_MAX_SIZE \<equiv> 275"

section \<open>Random round trips\<close>

text \<open>\<open>rnd\<close> is the generator of \<open>test_wire.c\<close>.\<close>

definition rnd :: "(u32, u32) state" where
  "rnd = mcl_test_random"

text \<open>One round of the loop of \<open>test_uvarint\<close> for the number \<open>val\<close>.\<close>

definition test_uvarint_trial :: "u8 list \<Rightarrow> u32 \<Rightarrow> unit option" where
  "test_uvarint_trial encoded val =
     (case mcl_wire_uvarint_encode val (Some encoded) 5 (Some 0) of
        (st, encoded, written) \<Rightarrow> do {
          CHECK_STATUS st MCL_WIRE_OK;
          case mcl_wire_uvarint_decode encoded (the written) (Some 0) (Some 0) of
            (st, decoded, consumed) \<Rightarrow> do {
              CHECK_STATUS st MCL_WIRE_OK;
              CHECK_TRUE (the decoded = val);
              CHECK_TRUE (consumed = written) } })"

primrec test_uvarint_trials :: "u8 list \<Rightarrow> nat \<Rightarrow> u32 \<Rightarrow> u32 option" where
  "test_uvarint_trials encoded 0 rng = Some rng"
| "test_uvarint_trials encoded (Suc n) rng =
     (case run_state rnd rng of
        (r, rng) \<Rightarrow> do {
          test_uvarint_trial encoded (r AND 0x0fffffff);
          test_uvarint_trials encoded n rng })"

definition test_uvarint :: "nat \<Rightarrow> u8 list \<Rightarrow> u32 \<Rightarrow> u32 \<Rightarrow> nat \<Rightarrow> u32 option" where
  "test_uvarint trials encoded rng val0 consumed0 = do {
     rng \<leftarrow> test_uvarint_trials encoded trials rng;
     CHECK_STATUS (fst (mcl_wire_uvarint_decode (Some [0x80, 0x00]) 2 (Some val0) (Some consumed0)))
       MCL_WIRE_ERR_NONCANONICAL;
     Some rng }"

text \<open>
  The random extensions of one trial; \<open>rows\<close> is what the first rows of the array \<open>values\<close> hold before
  they are filled.
\<close>

primrec random_bytes :: "nat \<Rightarrow> (u32, u8 list) state" where
  "random_bytes 0 = State_Monad.return []"
| "random_bytes (Suc n) = do {
     r \<leftarrow> rnd;
     bs \<leftarrow> random_bytes n;
     State_Monad.return (ucast r # bs) }"

primrec random_extensions :: "u8 list list \<Rightarrow> u32 \<Rightarrow> (u32, mcl_wire_extension list) state" where
  "random_extensions [] next_id = State_Monad.return []"
| "random_extensions (row # rows) next_id = do {
     r \<leftarrow> rnd;
     let value_size = unat (r mod 40);
     r \<leftarrow> rnd;
     let next_id = next_id + (1 + r mod 400);
     critical \<leftarrow> rnd;
     bs \<leftarrow> random_bytes value_size;
     es \<leftarrow> random_extensions rows next_id;
     State_Monad.return
       (\<lparr>ext_id = next_id, ext_critical = ucast (critical AND 1), ext_value = Some (bs @ drop value_size row),
         ext_value_size = value_size\<rparr> # es) }"

text \<open>The loop that reads the extensions back and compares them; the result is the reader.\<close>

primrec read_extensions ::
    "mcl_wire_extension \<Rightarrow> mcl_wire_extension list \<Rightarrow> mcl_wire_extension_reader \<Rightarrow>
     mcl_wire_extension_reader option" where
  "read_extensions output0 [] reader = Some reader"
| "read_extensions output0 (input # inputs) reader =
     (case mcl_wire_extension_reader_next (Some reader) (Some output0) (Some 0) of
        (st, reader, output, has_extension) \<Rightarrow> do {
          CHECK_STATUS st MCL_WIRE_OK;
          CHECK_TRUE (has_extension = Some 1);
          output \<leftarrow> output;
          CHECK_TRUE (ext_id output = ext_id input);
          CHECK_TRUE (ext_critical output = ext_critical input);
          CHECK_TRUE (ext_value_size output = ext_value_size input);
          CHECK_TRUE (take (ext_value_size output) (the (ext_value output)) =
            take (ext_value_size output) (the (ext_value input)));
          reader \<leftarrow> reader;
          read_extensions output0 inputs reader })"

definition test_extension_block ::
    "u8 list \<Rightarrow> mcl_wire_extension_reader \<Rightarrow> mcl_wire_extension \<Rightarrow> mcl_wire_extension list \<Rightarrow> unit option" where
  "test_extension_block encoded reader0 output0 input =
     (case mcl_wire_extensions_encode (Some input) (length input) (Some encoded) 1024 (Some 0) of
        (st, encoded, written) \<Rightarrow> do {
          CHECK_STATUS st MCL_WIRE_OK;
          reader \<leftarrow> mcl_wire_extension_reader_init (Some reader0) encoded (the written);
          reader \<leftarrow> read_extensions output0 input reader;
          case mcl_wire_extension_reader_next (Some reader) (Some output0) (Some 1) of
            (st, reader, output, has_extension) \<Rightarrow> do {
              CHECK_STATUS st MCL_WIRE_OK;
              CHECK_TRUE (has_extension = Some 0) } })"

primrec test_extension_blocks ::
    "u8 list list \<Rightarrow> u8 list \<Rightarrow> mcl_wire_extension_reader \<Rightarrow> mcl_wire_extension \<Rightarrow> nat \<Rightarrow> u32 \<Rightarrow> u32 option" where
  "test_extension_blocks values encoded reader0 output0 0 rng = Some rng"
| "test_extension_blocks values encoded reader0 output0 (Suc n) rng =
     (case run_state rnd rng of
        (r, rng) \<Rightarrow>
          let count = unat (r mod 12) in
          case run_state (random_extensions (take count values) 1) rng of
            (input, rng) \<Rightarrow> do {
              test_extension_block encoded reader0 output0 input;
              test_extension_blocks values encoded reader0 output0 n rng })"

section \<open>Negative cases\<close>

text \<open>The initialisers of the four arrays are \<open>''a''\<close>, \<open>''b''\<close>, \<open>''future''\<close> and \<open>''must''\<close>.\<close>

definition test_one_extension ::
    "mcl_wire_extension \<Rightarrow> u8 list \<Rightarrow> nat \<Rightarrow> mcl_wire_extension_reader \<Rightarrow> mcl_wire_extension \<Rightarrow> u8 \<Rightarrow>
     (u8 list \<times> nat) option" where
  "test_one_extension extension encoded written reader0 decoded0 has0 =
     (case mcl_wire_extensions_encode (Some [extension]) 1 (Some encoded) 64 (Some written) of
        (st, encoded, written) \<Rightarrow> do {
          CHECK_STATUS st MCL_WIRE_OK;
          reader \<leftarrow> mcl_wire_extension_reader_init (Some reader0) encoded (the written);
          case mcl_wire_extension_reader_next (Some reader) (Some decoded0) (Some has0) of
            (st, reader, decoded, has_extension) \<Rightarrow> do {
              CHECK_STATUS st MCL_WIRE_OK;
              CHECK_TRUE (has_extension = Some 1 \<and> ext_id (the decoded) = ext_id extension \<and>
                ext_critical (the decoded) = ext_critical extension);
              Some (the encoded, the written) } })"

definition test_negative_cases ::
    "u8 list \<Rightarrow> mcl_wire_extension_reader \<Rightarrow> mcl_wire_extension \<Rightarrow> u8 \<Rightarrow> unit option" where
  "test_negative_cases encoded reader0 extension0 has0 = do {
     let duplicate =
       [\<lparr>ext_id = 3, ext_critical = 0, ext_value = Some [0x61], ext_value_size = 1\<rparr>,
        \<lparr>ext_id = 3, ext_critical = 0, ext_value = Some [0x62], ext_value_size = 1\<rparr>];
     case mcl_wire_extensions_encode (Some duplicate) 2 (Some encoded) 64 (Some 0) of
       (st, encoded, written) \<Rightarrow> do {
         CHECK_STATUS st MCL_WIRE_ERR_NONCANONICAL;
         reader \<leftarrow> mcl_wire_extension_reader_init (Some reader0) (Some [0x02, 0x05, 0x01]) 3;
         CHECK_STATUS (fst (mcl_wire_extension_reader_next (Some reader) (Some extension0) (Some has0)))
           MCL_WIRE_ERR_TRUNCATED;
         (encoded, written) \<leftarrow> test_one_extension
           \<lparr>ext_id = 7, ext_critical = 0, ext_value = Some [0x66, 0x75, 0x74, 0x75, 0x72, 0x65], ext_value_size = 6\<rparr>
           (the encoded) (the written) reader0 extension0 has0;
         test_one_extension
           \<lparr>ext_id = 7, ext_critical = 1, ext_value = Some [0x6D, 0x75, 0x73, 0x74], ext_value_size = 4\<rparr>
           encoded written reader0 extension0 has0;
         Some () } }"

section \<open>Extensions through the Tier-0 functions\<close>

definition make_presence :: mcl_wire_tier0 where
  "make_presence = zero_object\<lparr>obj_kind := MCL_WIRE_KIND_PRESENCE, obj_priority := 1, obj_source_ref := 0x0000A17C,
     obj_body := zero_body\<lparr>body_presence := \<lparr>presence_machine_class = 3, presence_capability_tag = 0x00ABCDEF,
       presence_ttl = 60\<rparr>\<rparr>\<rparr>"

text \<open>The calls of the tests, with the buffer \<open>buffer\<close> of \<open>MCL_WIRE_TIER0_EXT_MAX_SIZE\<close> bytes.\<close>

abbreviation (input) encode_ext ::
    "mcl_wire_tier0 ptr \<Rightarrow> mcl_wire_extension list ptr \<Rightarrow> nat \<Rightarrow> u8 list ptr \<Rightarrow> nat ptr \<Rightarrow>
     mcl_wire_status \<times> u8 list ptr \<times> nat ptr" where
  "encode_ext object extensions count buffer written \<equiv>
     mcl_wire_tier0_encode_ext object extensions count buffer MCL_WIRE_TIER0_EXT_MAX_SIZE written"

definition test_tier0_without_extensions_is_unchanged ::
    "u8 list \<Rightarrow> u8 list \<Rightarrow> mcl_wire_tier0 \<Rightarrow> mcl_wire_tier0 \<Rightarrow> mcl_wire_extension_reader \<Rightarrow> mcl_wire_extension \<Rightarrow>
     unit option" where
  "test_tier0_without_extensions_is_unchanged with_api without plain decoded reader extension = do {
     let (st, with_api, a) = encode_ext (Some make_presence) None 0 (Some with_api) (Some 0);
     CHECK_STATUS st MCL_WIRE_OK;
     let (st, without, b) = mcl_wire_tier0_encode (Some make_presence) (Some without) MCL_WIRE_TIER0_MAX_SIZE (Some 0);
     CHECK_STATUS st MCL_WIRE_OK;
     CHECK_TRUE (a = b);
     for_each (\<lambda>i. CHECK_TRUE (the with_api ! i = the without ! i)) [0..<the a];
     CHECK_TRUE (the with_api ! 1 AND 0x01 = 0);
     let (st, plain, consumed) = mcl_wire_tier0_decode with_api (the a) (Some plain) (Some 0);
     CHECK_STATUS st MCL_WIRE_OK;
     CHECK_TRUE (consumed = a);
     let (st, decoded, reader, consumed) =
       mcl_wire_tier0_decode_ext with_api (the a) (Some decoded) (Some reader) consumed;
     CHECK_STATUS st MCL_WIRE_OK;
     CHECK_TRUE (consumed = a);
     let (st, reader, extension, has_extension) =
       mcl_wire_extension_reader_next reader (Some extension) (Some 1);
     CHECK_STATUS st MCL_WIRE_OK;
     CHECK_TRUE (has_extension = Some 0) }"

definition test_tier0_round_trip_with_extensions ::
    "mcl_wire_tier0 \<Rightarrow> mcl_wire_extension_reader \<Rightarrow> mcl_wire_extension \<Rightarrow> u8 list \<Rightarrow> unit option" where
  "test_tier0_round_trip_with_extensions decoded reader read_back buffer = do {
     let extensions =
       [\<lparr>ext_id = 7, ext_critical = 0, ext_value = Some [0xDE, 0xAD], ext_value_size = 2\<rparr>,
        \<lparr>ext_id = 4096, ext_critical = 0, ext_value = Some [0x01, 0x02, 0x03, 0x04, 0x05], ext_value_size = 5\<rparr>];
     let (st, buffer, written) = encode_ext (Some make_presence) (Some extensions) 2 (Some buffer) (Some 0);
     CHECK_STATUS st MCL_WIRE_OK;
     CHECK_TRUE (the buffer ! 1 AND 0x01 \<noteq> 0);
     let buffer = Some (take (the written) (the buffer) @ replicate (MCL_WIRE_TIER0_EXT_MAX_SIZE - the written) 0xFF);
     let (st, decoded, reader, consumed) =
       mcl_wire_tier0_decode_ext buffer MCL_WIRE_TIER0_EXT_MAX_SIZE (Some decoded) (Some reader) (Some 0);
     CHECK_STATUS st MCL_WIRE_OK;
     CHECK_TRUE (consumed = written);
     let (st, decoded, reader, consumed) = mcl_wire_tier0_decode_ext buffer (the written) decoded reader consumed;
     CHECK_STATUS st MCL_WIRE_OK;
     CHECK_TRUE (consumed = written);
     CHECK_TRUE (obj_kind (the decoded) = MCL_WIRE_KIND_PRESENCE);
     CHECK_TRUE (obj_source_ref (the decoded) = obj_source_ref make_presence);
     CHECK_TRUE (presence_ttl (body_presence (obj_body (the decoded))) = 60);
     let (st, reader, read_back, has_extension) =
       mcl_wire_extension_reader_next reader (Some read_back) (Some 0);
     CHECK_STATUS st MCL_WIRE_OK;
     CHECK_TRUE (has_extension = Some 1);
     CHECK_TRUE (ext_id (the read_back) = 7);
     CHECK_TRUE (ext_critical (the read_back) = 0);
     CHECK_TRUE (ext_value_size (the read_back) = 2);
     CHECK_TRUE (the (ext_value (the read_back)) ! 0 = 0xDE \<and> the (ext_value (the read_back)) ! 1 = 0xAD);
     let (st, reader, read_back, has_extension) = mcl_wire_extension_reader_next reader read_back has_extension;
     CHECK_STATUS st MCL_WIRE_OK;
     CHECK_TRUE (has_extension = Some 1);
     CHECK_TRUE (ext_id (the read_back) = 4096);
     CHECK_TRUE (ext_value_size (the read_back) = 5);
     let (st, reader, read_back, has_extension) = mcl_wire_extension_reader_next reader read_back has_extension;
     CHECK_STATUS st MCL_WIRE_OK;
     CHECK_TRUE (has_extension = Some 0);
     CHECK_STATUS (fst (mcl_wire_tier0_decode buffer (the written) decoded consumed))
       MCL_WIRE_ERR_UNSUPPORTED_SEMANTIC }"

definition test_critical_extension_is_refused ::
    "mcl_wire_tier0 \<Rightarrow> mcl_wire_extension_reader \<Rightarrow> u8 list \<Rightarrow> unit option" where
  "test_critical_extension_is_refused decoded reader buffer = do {
     let extensions =
       [\<lparr>ext_id = 2, ext_critical = 0, ext_value = Some [0x99], ext_value_size = 1\<rparr>,
        \<lparr>ext_id = 9, ext_critical = 1, ext_value = Some [0x99], ext_value_size = 1\<rparr>];
     let (st, buffer, written) = encode_ext (Some make_presence) (Some extensions) 2 (Some buffer) (Some 0);
     CHECK_STATUS st MCL_WIRE_OK;
     let (st, decoded, reader, consumed) =
       mcl_wire_tier0_decode_ext buffer (the written) (Some decoded) (Some reader) (Some 0);
     CHECK_STATUS st MCL_WIRE_ERR_UNSUPPORTED_SEMANTIC;
     let extensions = extensions[0 := (extensions ! 0)\<lparr>ext_critical := 1\<rparr>];
     let (st, buffer, written) = encode_ext (Some make_presence) (Some extensions) 1 buffer written;
     CHECK_STATUS st MCL_WIRE_OK;
     CHECK_STATUS (fst (mcl_wire_tier0_decode_ext buffer (the written) decoded reader consumed))
       MCL_WIRE_ERR_UNSUPPORTED_SEMANTIC }"

text \<open>
  The loop over the truncations keeps the object, the reader and \<open>consumed\<close>.
\<close>

primrec decode_truncations ::
    "u8 list \<Rightarrow> nat list \<Rightarrow> mcl_wire_tier0 ptr \<times> mcl_wire_extension_reader ptr \<times> nat ptr \<Rightarrow>
     (mcl_wire_tier0 ptr \<times> mcl_wire_extension_reader ptr \<times> nat ptr) option" where
  "decode_truncations buffer [] s = Some s"
| "decode_truncations buffer (i # is) s = do {
     let (st, decoded, reader, consumed) =
       mcl_wire_tier0_decode_ext (Some buffer) i (fst s) (fst (snd s)) (snd (snd s));
     CHECK_TRUE (st = MCL_WIRE_ERR_TRUNCATED);
     decode_truncations buffer is (decoded, reader, consumed) }"

text \<open>
  The two objects whose block length is wrong: \<open>tail\<close> is written behind the plain encoding, in a buffer
  of \<open>cap\<close> bytes.
\<close>

definition test_block_length ::
    "u8 list \<Rightarrow> nat \<Rightarrow> u8 list \<Rightarrow> mcl_wire_status \<Rightarrow>
     mcl_wire_tier0 ptr \<times> mcl_wire_extension_reader ptr \<times> nat ptr \<Rightarrow>
     (mcl_wire_tier0 ptr \<times> mcl_wire_extension_reader ptr \<times> nat ptr) option" where
  "test_block_length bytes cap tail expected s = do {
     let (st, bytes, plain) = mcl_wire_tier0_encode (Some make_presence) (Some bytes) cap (Some 0);
     CHECK_STATUS st MCL_WIRE_OK;
     let bytes = (the bytes)[1 := the bytes ! 1 OR 0x01];
     let bytes = fold (\<lambda>i bytes. bytes[the plain + i := tail ! i]) [0..<length tail] bytes;
     let (st, decoded, reader, consumed) =
       mcl_wire_tier0_decode_ext (Some bytes) (the plain + length tail) (fst s) (fst (snd s)) (snd (snd s));
     CHECK_STATUS st expected;
     Some (decoded, reader, consumed) }"

definition test_tier0_extension_negatives ::
    "mcl_wire_tier0 \<Rightarrow> mcl_wire_extension_reader \<Rightarrow> u8 list \<Rightarrow> u8 list \<Rightarrow> u8 list \<Rightarrow> unit option" where
  "test_tier0_extension_negatives decoded reader buffer empty_block oversized = do {
     let extension = (\<lambda>i. \<lparr>ext_id = i, ext_critical = 0, ext_value = Some [0x11, 0x22], ext_value_size = 2\<rparr>);
     let (st, buffer, written) = encode_ext (Some make_presence) (Some [extension 5]) 1 (Some buffer) (Some 0);
     CHECK_STATUS st MCL_WIRE_OK;
     s \<leftarrow> decode_truncations (the buffer) [1..<the written] (Some decoded, Some reader, Some 0);
     s \<leftarrow> test_block_length empty_block 18 [0x00] MCL_WIRE_ERR_NONCANONICAL s;
     s \<leftarrow> test_block_length oversized 21 [0x87, 0x68] MCL_WIRE_ERR_RANGE s;
     let (st, buffer, written) = encode_ext (Some make_presence) (Some [extension 5, extension 5]) 2 buffer written;
     CHECK_STATUS st MCL_WIRE_ERR_NONCANONICAL;
     let (st, buffer, written) = encode_ext (Some make_presence) (Some [extension 5, extension 4]) 2 buffer written;
     CHECK_STATUS st MCL_WIRE_ERR_NONCANONICAL;
     let (st, buffer, written) = encode_ext (Some make_presence) (Some [extension 5, extension 0]) 2 buffer written;
     CHECK_STATUS st MCL_WIRE_ERR_RANGE;
     let (st, buffer, written) = mcl_wire_tier0_encode_ext (Some make_presence) (Some [extension 5, extension 9]) 2
       buffer (MCL_WIRE_TIER0_MAX_SIZE + 1) written;
     CHECK_STATUS st MCL_WIRE_ERR_BUFFER_TOO_SMALL;
     let (st, buffer, written) = encode_ext None (Some [extension 5, extension 9]) 1 buffer written;
     CHECK_STATUS st MCL_WIRE_ERR_INVALID_ARGUMENT;
     let (st, buffer, written) = encode_ext (Some make_presence) None 1 buffer written;
     CHECK_STATUS st MCL_WIRE_ERR_INVALID_ARGUMENT;
     CHECK_STATUS (fst (mcl_wire_tier0_decode_ext buffer (the written) (fst s) None (snd (snd s))))
       MCL_WIRE_ERR_INVALID_ARGUMENT }"

definition test_extension_block_cap :: "u8 list \<Rightarrow> unit option" where
  "test_extension_block_cap buffer = do {
     let extension = (\<lambda>n. \<lparr>ext_id = 1, ext_critical = 0,
       ext_value = Some (replicate (MCL_WIRE_EXTENSION_BLOCK_MAX + 8) 0x5A), ext_value_size = n\<rparr>);
     let too_big = extension MCL_WIRE_EXTENSION_BLOCK_MAX;
     let (st, sz) = mcl_wire_extensions_encoded_size (Some [too_big]) 1 (Some 0);
     CHECK_STATUS st MCL_WIRE_ERR_RANGE;
     let (st, buffer, written) = mcl_wire_tier0_encode_ext (Some make_presence) (Some [too_big]) 1 (Some buffer)
       (MCL_WIRE_TIER0_EXT_MAX_SIZE + 16) (Some 0);
     CHECK_STATUS st MCL_WIRE_ERR_RANGE;
     let inside = extension (MCL_WIRE_EXTENSION_BLOCK_MAX - 4);
     let (st, sz) = mcl_wire_extensions_encoded_size (Some [inside]) 1 sz;
     CHECK_STATUS st MCL_WIRE_OK;
     CHECK_TRUE (the sz \<le> MCL_WIRE_EXTENSION_BLOCK_MAX);
     let (st, buffer, written) = mcl_wire_tier0_encode_ext (Some make_presence) (Some [inside]) 1 buffer
       (MCL_WIRE_TIER0_EXT_MAX_SIZE + 16) written;
     CHECK_STATUS st MCL_WIRE_OK;
     CHECK_TRUE (the written \<le> MCL_WIRE_TIER0_EXT_MAX_SIZE) }"

section \<open>A callback that knows one critical extension\<close>

text \<open>The callback and its four global variables; \<open>user\<close> is \<open>NULL\<close> in every call and not used.\<close>

record known_globals =
  g_known_id :: u32
  g_known_calls :: u32
  g_required_value :: u8
  g_seen_value_size :: nat

definition knows_one_id :: "known_globals mcl_wire_extension_accept_fn" where
  "knows_one_id g extension_id val value_size =
     (let g = g\<lparr>g_known_calls := g_known_calls g + 1, g_seen_value_size := value_size\<rparr>
      in if extension_id \<noteq> g_known_id g then (0, g)
         else if val = None \<or> value_size \<noteq> 1 then (0, g)
         else (if the val ! 0 = g_required_value g then 1 else 0, g))"

definition test_critical_extension_recognition ::
    "mcl_wire_tier0 \<Rightarrow> mcl_wire_extension_reader \<Rightarrow> u8 list \<Rightarrow> known_globals \<Rightarrow> unit option" where
  "test_critical_extension_recognition decoded reader buffer g = do {
     let extension = (\<lambda>i c. \<lparr>ext_id = i, ext_critical = c, ext_value = Some [0x77], ext_value_size = 1\<rparr>);
     let (st, buffer, written) = encode_ext (Some make_presence) (Some [extension 17 1]) 1 (Some buffer) (Some 0);
     CHECK_STATUS st MCL_WIRE_OK;
     let g = g\<lparr>g_known_id := 17, g_required_value := 0x77, g_known_calls := 0, g_seen_value_size := 99\<rparr>;
     let (st, decoded, reader, consumed, g) = mcl_wire_tier0_decode_ext_accept buffer (the written) (Some decoded)
       (Some reader) (Some knows_one_id) g (Some 0);
     CHECK_STATUS st MCL_WIRE_OK;
     CHECK_TRUE (consumed = written);
     CHECK_TRUE (g_known_calls g = 1);
     CHECK_TRUE (g_seen_value_size g = 1);
     let g = g\<lparr>g_required_value := 0x78\<rparr>;
     let (st, decoded, reader, consumed, g) =
       mcl_wire_tier0_decode_ext_accept buffer (the written) decoded reader (Some knows_one_id) g consumed;
     CHECK_STATUS st MCL_WIRE_ERR_UNSUPPORTED_SEMANTIC;
     let g = g\<lparr>g_required_value := 0x77, g_known_id := 18\<rparr>;
     let (st, decoded, reader, consumed, g) =
       mcl_wire_tier0_decode_ext_accept buffer (the written) decoded reader (Some knows_one_id) g consumed;
     CHECK_STATUS st MCL_WIRE_ERR_UNSUPPORTED_SEMANTIC;
     let (st, decoded, reader, consumed, g) =
       mcl_wire_tier0_decode_ext_accept buffer (the written) decoded reader None g consumed;
     CHECK_STATUS st MCL_WIRE_ERR_UNSUPPORTED_SEMANTIC;
     let (st, decoded, reader, consumed) = mcl_wire_tier0_decode_ext buffer (the written) decoded reader consumed;
     CHECK_STATUS st MCL_WIRE_ERR_UNSUPPORTED_SEMANTIC;
     let (st, buffer, written) = encode_ext (Some make_presence) (Some [extension 17 0]) 1 buffer written;
     CHECK_STATUS st MCL_WIRE_OK;
     let g = g\<lparr>g_known_id := 99, g_known_calls := 0\<rparr>;
     let (st, decoded, reader, consumed, g) =
       mcl_wire_tier0_decode_ext_accept buffer (the written) decoded reader (Some knows_one_id) g consumed;
     CHECK_STATUS st MCL_WIRE_OK;
     CHECK_TRUE (g_known_calls g = 0);
     let (st, buffer, written) =
       encode_ext (Some make_presence) (Some [extension 17 1, extension 33 1]) 2 buffer written;
     CHECK_STATUS st MCL_WIRE_OK;
     let g = g\<lparr>g_known_id := 17\<rparr>;
     CHECK_STATUS (fst (mcl_wire_tier0_decode_ext_accept buffer (the written) decoded reader (Some knows_one_id) g consumed))
       MCL_WIRE_ERR_UNSUPPORTED_SEMANTIC }"

section \<open>main\<close>

text \<open>
  What the buffers, objects, readers and extensions on the stack hold before they are written; where
  several tests declare one, it is a function of the number of the test.
\<close>

record test_stack =
  stk_uvarint :: "u8 list"
  stk_val :: u32
  stk_consumed :: nat
  stk_values :: "u8 list list"
  stk_block :: "u8 list"
  stk_encoded :: "u8 list"
  stk_with_api :: "u8 list"
  stk_without :: "u8 list"
  stk_plain :: mcl_wire_tier0
  stk_empty_block :: "u8 list"
  stk_oversized :: "u8 list"
  stk_has :: u8
  stk_buffer :: "nat \<Rightarrow> u8 list"
  stk_decoded :: "nat \<Rightarrow> mcl_wire_tier0"
  stk_reader :: "nat \<Rightarrow> mcl_wire_extension_reader"
  stk_extension :: "nat \<Rightarrow> mcl_wire_extension"

definition test_extension_main :: "test_stack \<Rightarrow> int" where
  "test_extension_main k =
     exit_code (do {
       rng \<leftarrow> test_uvarint 10000 (stk_uvarint k) 0x31415926 (stk_val k) (stk_consumed k);
       test_extension_blocks (stk_values k) (stk_block k) (stk_reader k 2) (stk_extension k 2) 2000 rng;
       test_negative_cases (stk_encoded k) (stk_reader k 3) (stk_extension k 3) (stk_has k);
       test_tier0_without_extensions_is_unchanged (stk_with_api k) (stk_without k) (stk_plain k)
         (stk_decoded k 4) (stk_reader k 4) (stk_extension k 4);
       test_tier0_round_trip_with_extensions (stk_decoded k 5) (stk_reader k 5) (stk_extension k 5)
         (stk_buffer k 5);
       test_critical_extension_is_refused (stk_decoded k 6) (stk_reader k 6) (stk_buffer k 6);
       test_tier0_extension_negatives (stk_decoded k 7) (stk_reader k 7) (stk_buffer k 7) (stk_empty_block k)
         (stk_oversized k);
       test_extension_block_cap (stk_buffer k 8);
       test_critical_extension_recognition (stk_decoded k 9) (stk_reader k 9) (stk_buffer k 9)
         \<lparr>g_known_id = 0, g_known_calls = 0, g_required_value = 0, g_seen_value_size = 0\<rparr> })"

end
