(* ===== verification/Wire_Test_Extension_Spec.thy ===== *)
theory Wire_Test_Extension_Spec
  imports Wire_Test_Extension Wire_Test_Spec Wire_Receiver
begin

text \<open>
  \<open>tests/test_extension.c\<close> passes on the model, for every state of its random number generator and
  whatever its uninitialised buffers and objects hold.
\<close>

unbundle bit_operations_syntax

section \<open>Random variable-length integers\<close>

lemma uvarint_trial:
  assumes "length encoded = 5"
  shows "test_uvarint_trial encoded v = Some ()"
proof -
  have len: "length (uvarint_wire v) = mcl_uvarint_size v" "mcl_uvarint_size v \<le> 5"
    by (simp_all add: length_uvarint_wire mcl_uvarint_size_len uvarint_len_bound)
  have "mcl_wire_uvarint_encode v (Some encoded) 5 (Some 0) =
      (MCL_WIRE_OK, Some (uvarint_wire v @ drop (mcl_uvarint_size v) encoded), Some (mcl_uvarint_size v))"
    using len(2) assms by (subst uvarint_encode_result) auto
  moreover have "mcl_wire_uvarint_decode (Some (uvarint_wire v @ rest)) (mcl_uvarint_size v) (Some 0) (Some 0) =
      (MCL_WIRE_OK, Some v, Some (mcl_uvarint_size v))" for rest
    using uvarint_decode_wire [of v "mcl_uvarint_size v" rest 0 0] len(1) by simp
  ultimately show ?thesis by (simp add: test_uvarint_trial_def)
qed

lemma uvarint_passes:
  assumes "length encoded = 5"
  shows "\<exists>rng'. test_uvarint n encoded rng val0 consumed0 = Some rng'"
proof -
  have "\<exists>rng'. test_uvarint_trials encoded n rng = Some rng'"
    by (induction n arbitrary: rng) (simp_all add: uvarint_trial [OF assms] rnd_def)
  moreover have "fst (mcl_wire_uvarint_decode (Some [0x80, 0]) 2 (Some val0) (Some consumed0)) = MCL_WIRE_ERR_NONCANONICAL"
    by code_simp
  ultimately show ?thesis by (auto simp: test_uvarint_def)
qed

section \<open>Random blocks\<close>

lemma run_random_bytes: "\<exists>bs s'. run_state (random_bytes n) s = (bs, s') \<and> length bs = n"
proof (induction n arbitrary: s)
  case (Suc n)
  obtain bs s' where "run_state (random_bytes n) (next_random s) = (bs, s')" "length bs = n"
    using Suc [of "next_random s"] by blast
  then show ?case by (simp add: rnd_def)
qed simp

definition random_ok :: "u32 \<Rightarrow> mcl_wire_extension list \<Rightarrow> bool" where
  "random_ok next_id es \<longleftrightarrow> list_all ext_ok es \<and> block_ok (Some next_id) (map tlv_of es) \<and>
     (\<forall>e \<in> set es. readable e \<and> ext_value_size e < 40)"

lemma next_id_step:
  assumes "unat (n :: u32) + 400 * Suc k < 2 ^ 31" and n': "n' = n + (1 + r mod 400)"
  shows "n < n'" and "n' \<noteq> 0" and "n' \<le> 0x7FFFFFFF" and "unat n' + 400 * k < 2 ^ 31"
proof -
  have r: "unat (r mod 400) < 400" by (simp add: unat_mod)
  then have "unat n' = unat n + (1 + unat (r mod 400))"
    using assms(1) unfolding n' by (subst unat_plus_if') (simp add: unat_plus_if')
  with r assms(1) show "n < n'" and "n' \<noteq> 0" and "n' \<le> 0x7FFFFFFF" and "unat n' + 400 * k < 2 ^ 31"
    by (auto simp: word_less_nat_alt word_le_nat_alt word_unat_eq_iff)
qed

lemma run_random_extensions:
  assumes "unat next_id + 400 * length rows < 2 ^ 31"
  shows "\<exists>es s'. run_state (random_extensions rows next_id) s = (es, s') \<and> length es = length rows \<and>
     random_ok next_id es"
  using assms
proof (induction rows arbitrary: next_id s)
  case Nil
  then show ?case by (simp add: random_ok_def)
next
  case (Cons row rows)
  define size_rnd where "size_rnd = next_random s"
  define step_rnd where "step_rnd = next_random size_rnd"
  define critical where "critical = next_random step_rnd"
  define n where "n = unat (size_rnd mod 40)"
  define i where "i = next_id + (1 + step_rnd mod 400)"
  have n: "n < 40" by (simp add: n_def unat_mod)
  have "unat next_id + 400 * Suc (length rows) < 2 ^ 31" using Cons.prems by simp
  note i = next_id_step [OF this i_def]
  obtain bs s1 where bs: "run_state (random_bytes n) critical = (bs, s1)" "length bs = n"
    using run_random_bytes by blast
  obtain es s2 where es: "run_state (random_extensions rows i) s1 = (es, s2)" "length es = length rows"
      "random_ok i es"
    using Cons.IH [OF i(4)] by blast
  let ?e = "\<lparr>ext_id = i, ext_critical = ucast (critical AND 1), ext_value = Some (bs @ drop n row),
      ext_value_size = n\<rparr>"
  have run: "run_state (random_extensions (row # rows) next_id) s = (?e # es, s2)"
    using bs(1) es(1)
    by (simp add: rnd_def Let_def size_rnd_def step_rnd_def critical_def n_def i_def)
  have "(ucast (critical AND 1) :: u8) \<le> 1" using ucast_and_le [of critical 1, where 'a = 8] by simp
  then have ok: "ext_ok ?e" and read: "readable ?e"
    using i n bs(2) by (simp_all add: ext_ok_def readable_def)
  have "tlv_ok (tlv_of ?e)" using tlv_ok_of [OF read ok] .
  then have "random_ok next_id (?e # es)"
    using es(3) ok read n i(1) by (simp add: random_ok_def tlv_of_def)
  with run es(2) show ?case by (intro exI [of _ "?e # es"] exI [of _ s2]) simp
qed

lemma block_ok_None: "block_ok p ts \<Longrightarrow> block_ok None ts"
  by (cases ts) auto

lemma small_block_length:
  "\<forall>e \<in> set es. ext_ok e \<and> readable e \<and> ext_value_size e < 40 \<Longrightarrow>
   length (block_wire (map tlv_of es)) \<le> 49 * length es"
proof (induction es)
  case (Cons e es)
  then have e: "ext_ok e" "readable e" "ext_value_size e < 40" by simp_all
  then have "length (tlv_wire (tlv_of e)) \<le> 49"
    using uvarint_len_bound [of "tlv_key (ext_id e) (ext_critical e)"]
      uvarint_len_bound [of "of_nat (ext_value_size e)"]
    by (simp add: length_tlv_wire_of key_wire_def size_wire_def length_uvarint_wire)
  with Cons show ?case by simp
qed simp

lemma random_block_length:
  "random_ok p es \<Longrightarrow> length (block_wire (map tlv_of es)) \<le> 49 * length es"
  by (rule small_block_length) (simp add: random_ok_def list_all_iff)

lemma read_extensions_block:
  assumes "rdx_wf r" and "rdx_rest r = block_wire (map tlv_of es)"
    and "block_ok (rdx_previous r) (map tlv_of es)" and "\<forall>e \<in> set es. readable e \<and> ext_ok e"
  shows "\<exists>r'. read_extensions output0 es r = Some r' \<and> rdx_offset r' = rdx_size r'"
  using assms
proof (induction es arbitrary: r)
  case Nil
  then show ?case using rdx_rest_Nil_iff [of r] by simp
next
  case (Cons e es)
  let ?t = "tlv_of e"
  have t: "rdx_rest r = tlv_wire ?t @ block_wire (map tlv_of es)" "tlv_ok ?t" "tlv_above (rdx_previous r) ?t"
    using Cons.prems(2,3) by (simp_all add: tlv_above_def)
  note after = rdx_after_wf [OF Cons.prems(1) t(1)]
  have "block_ok (rdx_previous (rdx_after ?t r)) (map tlv_of es)" using Cons.prems(3) after(3) by simp
  from Cons.IH [OF after(1,2) this] Cons.prems(4)
  obtain r' where r': "read_extensions output0 es (rdx_after ?t r) = Some r'" "rdx_offset r' = rdx_size r'" by auto
  have e: "readable e" "ext_ok e" using Cons.prems(4) by simp_all
  have "tlv_of (rdx_view ?t r) = tlv_of e" by (rule tlv_of_view [OF Cons.prems(1) t(1)])
  moreover have "length (ext_bytes (rdx_view ?t r)) = ext_value_size (rdx_view ?t r)"
    using tlv_of_view(2) [OF Cons.prems(1) t(1)] ext_ok_view [OF t(2) Cons.prems(1)] by (simp add: length_ext_bytes)
  ultimately have view: "ext_id (rdx_view ?t r) = ext_id e" "ext_critical (rdx_view ?t r) = ext_critical e"
      "ext_value_size (rdx_view ?t r) = ext_value_size e" "ext_bytes (rdx_view ?t r) = ext_bytes e"
    using length_ext_bytes [OF e] by (simp_all add: tlv_of_def)
  then have "take (ext_value_size e) (the (ext_value (rdx_view ?t r))) = take (ext_value_size e) (the (ext_value e))"
    by (auto simp: ext_bytes_def split: if_splits)
  with view r' show ?case
    by (simp add: reader_next_wire [OF Cons.prems(1) t])
qed

lemma extension_block_passes:
  assumes "random_ok p input" and "length input < 12" and "length encoded = 1024"
  shows "test_extension_block encoded reader0 output0 input = Some ()"
proof -
  let ?w = "block_wire (map tlv_of input)"
  have ok: "list_all ext_ok input" "block_ok None (map tlv_of input)" "\<forall>e \<in> set input. readable e"
    and fits: "length ?w \<le> 1024"
    using assms(1,2) block_ok_None random_block_length [OF assms(1)] by (auto simp: random_ok_def)
  from extensions_encode_valid [OF ok(1,2) _ order_refl ok(3), of 1024 encoded 0] fits assms(3)
  have run: "mcl_wire_extensions_encode (Some input) (length input) (Some encoded) 1024 (Some 0) =
      (MCL_WIRE_OK, Some (?w @ drop (length ?w) encoded), Some (length ?w))" by auto
  let ?r = "block_reader (?w @ drop (length ?w) encoded) (length ?w)"
  have "\<forall>e \<in> set input. readable e \<and> ext_ok e" using ok by (simp add: list_all_iff)
  from read_extensions_block [OF _ _ _ this, of ?r output0] ok(2)
  obtain r' where "read_extensions output0 input ?r = Some r'" "rdx_offset r' = rdx_size r'" by auto
  with run show ?thesis by (simp add: test_extension_block_def mcl_wire_extension_reader_next_def)
qed

lemma extension_blocks_pass:
  assumes "length values = 12" and "length encoded = 1024"
  shows "\<exists>rng'. test_extension_blocks values encoded reader0 output0 n rng = Some rng'"
proof (induction n arbitrary: rng)
  case (Suc n)
  let ?count = "unat (next_random rng mod 12)"
  have count: "?count < 12" by (simp add: unat_mod)
  then have rows: "length (take ?count values) = ?count" using assms(1) by simp
  have "unat (1 :: u32) + 400 * length (take ?count values) < 2 ^ 31" using rows count by simp
  from run_random_extensions [OF this, of "next_random rng"] obtain input rng' where
    "run_state (random_extensions (take ?count values) 1) (next_random rng) = (input, rng')"
    "length input = ?count" "random_ok 1 input" using rows by auto
  with extension_block_passes [of 1 input encoded] count assms(2) Suc.IH [of rng'] show ?case
    by (simp add: rnd_def Let_def)
qed simp

section \<open>Negative cases\<close>

lemma readable_some: "n \<le> length v \<Longrightarrow> readable \<lparr>ext_id = i, ext_critical = c, ext_value = Some v, ext_value_size = n\<rparr>"
  by (simp add: readable_def)

lemma one_extension_passes:
  assumes "ext_ok e" and "readable e" and "length encoded = 64" and "ext_value_size e \<le> 6" and "ext_id e = 7"
  shows "\<exists>bs n. test_one_extension e encoded w reader0 decoded0 has0 = Some (bs, n) \<and> length bs = 64"
proof -
  let ?w = "block_wire (map tlv_of [e])"
  have ok: "list_all ext_ok [e]" "block_ok None (map tlv_of [e])" "\<forall>e \<in> set [e]. readable e"
    using assms(1,2) tlv_ok_of by simp_all
  have fits: "length ?w \<le> 64"
    using assms(4) uvarint_len_bound [of "tlv_key (ext_id e) (ext_critical e)"]
      uvarint_len_bound [of "of_nat (ext_value_size e)"]
    by (simp add: length_tlv_wire_of [OF assms(2,1)] key_wire_def size_wire_def length_uvarint_wire)
  from extensions_encode_valid [OF ok(1,2), of 1 "[e]" 64 encoded w] ok(3) fits assms(3)
  have run: "mcl_wire_extensions_encode (Some [e]) 1 (Some encoded) 64 (Some w) =
      (MCL_WIRE_OK, Some (?w @ drop (length ?w) encoded), Some (length ?w))" by auto
  let ?r = "block_reader (?w @ drop (length ?w) encoded) (length ?w)"
  have r: "rdx_wf ?r" "rdx_rest ?r = tlv_wire (tlv_of e) @ []" "tlv_above (rdx_previous ?r) (tlv_of e)"
    by (simp_all add: tlv_above_def)
  note read = reader_next_wire [OF r(1,2) tlv_ok_of [OF assms(2,1)] r(3), of decoded0 has0]
  have "ext_id (rdx_view (tlv_of e) ?r) = ext_id e" "ext_critical (rdx_view (tlv_of e) ?r) = ext_critical e"
    by (simp_all add: rdx_view_def tlv_of_def)
  with run read fits assms(3) show ?thesis by (simp add: test_one_extension_def)
qed

lemma negative_cases_pass:
  assumes "length encoded = 64"
  shows "test_negative_cases encoded reader0 extension0 has0 = Some ()"
proof -
  let ?dup = "[\<lparr>ext_id = 3, ext_critical = 0, ext_value = Some [0x61], ext_value_size = 1\<rparr>,
        \<lparr>ext_id = 3, ext_critical = 0, ext_value = Some [0x62], ext_value_size = 1\<rparr>]"
  have "length (tlv_wire (tlv_of (?dup ! 0))) = 3" by code_simp
  moreover have "list_all ext_ok ?dup" by (simp add: ext_ok_def)
  ultimately have "block_status MCL_WIRE_ERR_BUFFER_TOO_SMALL 64 None ?dup = MCL_WIRE_ERR_NONCANONICAL" by simp
  moreover have "\<forall>e \<in> set ?dup. readable e" by (simp add: readable_def)
  ultimately obtain ws where ws: "mcl_wire_extensions_encode (Some ?dup) 2 (Some encoded) 64 (Some 0) =
      (MCL_WIRE_ERR_NONCANONICAL, Some (ws @ drop (length ws) encoded), Some 0)" "length ws \<le> 64"
    using extensions_encode_result [of 2 ?dup 64 encoded 0] assms by auto
  let ?out = "ws @ drop (length ws) encoded"
  have truncated: "fst (mcl_wire_extension_reader_next (Some (block_reader [2, 5, 1] 3)) (Some extension0) (Some has0)) =
      MCL_WIRE_ERR_TRUNCATED"
    by code_simp
  let ?e = "\<lambda>c v n. \<lparr>ext_id = 7, ext_critical = c, ext_value = Some v, ext_value_size = n\<rparr>"
  have len: "length ?out = 64" using ws(2) assms by simp
  have "ext_ok (?e 0 [0x66, 0x75, 0x74, 0x75, 0x72, 0x65] 6)" "readable (?e 0 [0x66, 0x75, 0x74, 0x75, 0x72, 0x65] 6)"
    "ext_ok (?e 1 [0x6D, 0x75, 0x73, 0x74] 4)" "readable (?e 1 [0x6D, 0x75, 0x73, 0x74] 4)"
    by (simp_all add: ext_ok_def readable_def)
  with one_extension_passes [of "?e 0 [0x66, 0x75, 0x74, 0x75, 0x72, 0x65] 6" ?out 0 reader0 extension0 has0] len
    one_extension_passes [of "?e 1 [0x6D, 0x75, 0x73, 0x74] 4" _ _ reader0 extension0 has0]
  obtain bs n bs' n' where "test_one_extension (?e 0 [0x66, 0x75, 0x74, 0x75, 0x72, 0x65] 6) ?out 0 reader0 extension0 has0 =
      Some (bs, n)" "test_one_extension (?e 1 [0x6D, 0x75, 0x73, 0x74] 4) bs n reader0 extension0 has0 = Some (bs', n')"
    by fastforce
  with ws(1) truncated show ?thesis by (simp add: test_negative_cases_def)
qed

section \<open>A presence with extensions\<close>

lemma presence_facts:
  "tier0_encodable 0 make_presence" "wire_view 0 make_presence = make_presence"
  "tier0_wire 0 make_presence = [0, 2, 0, 0, 0xA1, 0x7C, 3, 0xAB, 0xCD, 0xEF, 60]"
  by code_simp+

lemma presence_length: "length (tier0_wire 0 make_presence) = 11"
  by (simp add: presence_facts(3))

definition presence_bytes :: "mcl_wire_extension list \<Rightarrow> u8 list" where
  "presence_bytes es = ext_wire 0 make_presence (map tlv_of es)"

definition attachable :: "mcl_wire_extension list \<Rightarrow> bool" where
  "attachable es \<longleftrightarrow> list_all ext_ok es \<and> block_ok None (map tlv_of es) \<and> (\<forall>e \<in> set es. readable e) \<and>
     length (block_wire (map tlv_of es)) \<le> 256"

text \<open>At most five extensions with ids in order and short values fit.\<close>

lemma attachable_small:
  assumes "list_all ext_ok es" and "block_ok None (map tlv_of es)"
    and "\<forall>e \<in> set es. readable e \<and> ext_value_size e < 40" and "length es \<le> 5"
  shows "attachable es"
  using small_block_length [of es] assms by (auto simp: attachable_def list_all_iff)

lemma presence_encodable: "attachable es \<Longrightarrow> ext_encodable 0 make_presence (map tlv_of es)"
  by (simp add: attachable_def ext_encodable_def presence_facts(1))

lemma presence_bytes_bound: "attachable es \<Longrightarrow> length (presence_bytes es) \<le> 275"
  using length_ext_wire_le(1) [OF presence_encodable] by (simp add: presence_bytes_def)

lemma presence_encodes_first:
  assumes "attachable (take count es)" and "count \<le> length es" and "\<forall>e \<in> set es. readable e"
    and "cap \<le> length buffer" and "275 \<le> cap"
  shows "mcl_wire_tier0_encode_ext (Some make_presence) (Some es) count (Some buffer) cap (Some w) =
     (MCL_WIRE_OK, Some (presence_bytes (take count es) @ drop (length (presence_bytes (take count es))) buffer),
      Some (length (presence_bytes (take count es))))"
  using encode_ext_success [of make_presence count es cap buffer w] assms presence_encodable [OF assms(1)]
    presence_bytes_bound [OF assms(1)]
  by (simp add: attachable_def presence_bytes_def)

lemma presence_encodes:
  assumes "attachable es" and "count = length es" and "cap \<le> length buffer" and "275 \<le> cap"
  shows "mcl_wire_tier0_encode_ext (Some make_presence) (Some es) count (Some buffer) cap (Some w) =
     (MCL_WIRE_OK, Some (presence_bytes es @ drop (length (presence_bytes es)) buffer),
      Some (length (presence_bytes es)))"
  using presence_encodes_first [of count es cap buffer w] assms by (simp add: attachable_def)

lemma presence_refused:
  assumes "\<forall>e \<in> set es. readable e" and "es \<noteq> []" and "count = length es" and "cap \<le> length buffer"
    and "block_status MCL_WIRE_ERR_RANGE 256 None es = st" and "st \<noteq> MCL_WIRE_OK"
  shows "mcl_wire_tier0_encode_ext (Some make_presence) (Some es) count (Some buffer) cap (Some w) =
     (st, Some buffer, Some w)"
  using extensions_size_result [of count es 0] assms
  by (simp add: mcl_wire_tier0_encode_ext_def)

abbreviation (input) presence_reader :: "mcl_wire_extension list \<Rightarrow> u8 list \<Rightarrow> mcl_wire_extension_reader" where
  "presence_reader es rest \<equiv> suffix_reader (ext_suffix (map tlv_of es) @ rest) (map tlv_of es)"

lemma presence_decodes:
  assumes "attachable es" and "length (presence_bytes es) \<le> n" and "n \<le> length (presence_bytes es @ rest)"
    and "accept_all accept user (rdx_views (presence_reader es rest) (map tlv_of es)) = (ok, user')"
  shows "mcl_wire_tier0_decode_ext_accept (Some (presence_bytes es @ rest)) n (Some o0) (Some r0) accept user (Some c0) =
     (if ok then (MCL_WIRE_OK, Some make_presence, Some (presence_reader es rest), Some (length (presence_bytes es)), user')
      else (MCL_WIRE_ERR_UNSUPPORTED_SEMANTIC, Some make_presence, Some r0, Some c0, user'))"
  using decode_ext_wire [OF presence_encodable [OF assms(1)], of n rest accept user user' o0 r0 c0]
    decode_ext_wire_refused [OF presence_encodable [OF assms(1)], of n rest accept user user' o0 r0 c0] assms(2-4)
  by (cases ok) (simp_all add: presence_bytes_def presence_facts(2))

lemma presence_decodes_no_callback:
  assumes "attachable es" and "length (presence_bytes es) \<le> n" and "n \<le> length (presence_bytes es @ rest)"
  shows "mcl_wire_tier0_decode_ext_accept (Some (presence_bytes es @ rest)) n (Some o0) (Some r0) None user (Some c0) =
     (if list_all (\<lambda>e. ext_critical e = 0) es
      then (MCL_WIRE_OK, Some make_presence, Some (presence_reader es rest), Some (length (presence_bytes es)), user)
      else (MCL_WIRE_ERR_UNSUPPORTED_SEMANTIC, Some make_presence, Some r0, Some c0, user))"
proof (rule presence_decodes [OF assms])
  have "list_all (\<lambda>(i, c, v). c = 0) (map tlv_of es) \<longleftrightarrow> list_all (\<lambda>e. ext_critical e = 0) es"
    by (simp add: list_all_iff tlv_of_def)
  then show "accept_all None user (rdx_views (presence_reader es rest) (map tlv_of es)) =
      (list_all (\<lambda>e. ext_critical e = 0) es, user)"
    by (simp add: accept_all_none critical_views)
qed

lemma presence_decodes_plain:
  assumes "attachable es" and "length (presence_bytes es) \<le> n" and "n \<le> length (presence_bytes es @ rest)"
  shows "mcl_wire_tier0_decode_ext (Some (presence_bytes es @ rest)) n (Some o0) (Some r0) (Some c0) =
     (if list_all (\<lambda>e. ext_critical e = 0) es
      then (MCL_WIRE_OK, Some make_presence, Some (presence_reader es rest), Some (length (presence_bytes es)))
      else (MCL_WIRE_ERR_UNSUPPORTED_SEMANTIC, Some make_presence, Some r0, Some c0))"
  by (simp add: mcl_wire_tier0_decode_ext_def presence_decodes_no_callback [OF assms])

lemma presence_reader_facts:
  assumes "attachable es"
  shows "rdx_wf (presence_reader es rest)" and "rdx_rest (presence_reader es rest) = block_wire (map tlv_of es)"
    and "rdx_previous (presence_reader es rest) = None" and "block_ok None (map tlv_of es)"
  using suffix_reader_block [OF refl, of "map tlv_of es" rest] assms by (simp_all add: attachable_def)

section \<open>The tests of the Tier-0 functions\<close>

lemma presence_bytes_Nil: "presence_bytes [] = tier0_wire 0 make_presence" "attachable []"
  by (simp_all add: presence_bytes_def ext_wire_def ext_suffix_def ext_bit_def tier0_wire_object_bytes attachable_def)

lemma presence_plain:
  assumes "length buffer = cap" and "11 \<le> cap"
  shows "mcl_wire_tier0_encode (Some make_presence) (Some buffer) cap (Some w) =
     (MCL_WIRE_OK, Some (tier0_wire 0 make_presence @ drop 11 buffer), Some 11)"
  using encode_success_major_0 [OF presence_facts(1), of cap buffer w] assms presence_length by simp

lemma reader_at_end:
  assumes "rdx_wf r" and "rdx_rest r = []"
  shows "mcl_wire_extension_reader_next (Some r) (Some e0) (Some h0) = (MCL_WIRE_OK, Some r, Some e0, Some 0)"
  using rdx_rest_Nil_iff [OF assms(1)] assms(2) by (simp add: mcl_wire_extension_reader_next_def)

lemma without_extensions_passes:
  assumes "length with_api = 275" and "length without = 17"
  shows "test_tier0_without_extensions_is_unchanged with_api without plain decoded reader extension = Some ()"
proof -
  let ?w = "tier0_wire 0 make_presence"
  have byte: "?w ! Suc 0 AND 1 = 0" by (simp add: presence_facts(3))
  have same: "for_each (\<lambda>i. CHECK_TRUE ((?w @ xs) ! i = (?w @ ys) ! i)) [0..<11] = Some ()" for xs ys
    using for_each_all [of "[0..<11]" "\<lambda>i. CHECK_TRUE ((?w @ xs) ! i = (?w @ ys) ! i)"] presence_length
    by (simp add: nth_append)
  have plain: "mcl_wire_tier0_decode (Some (?w @ rest)) 11 (Some plain) (Some 0) = (MCL_WIRE_OK, Some make_presence, Some 11)"
    for rest
    using decode_tier0_wire [OF presence_facts(1), of 11 rest plain 0] presence_length presence_facts(2) by simp
  have ext: "mcl_wire_tier0_decode_ext (Some (?w @ rest)) 11 (Some decoded) (Some reader) (Some c) =
      (MCL_WIRE_OK, Some make_presence, Some (presence_reader [] rest), Some 11)" for rest c
    using presence_decodes_plain [OF presence_bytes_Nil(2), of 11 rest decoded reader c] presence_length
    by (simp add: presence_bytes_Nil(1))
  have finish: "mcl_wire_extension_reader_next (Some (presence_reader [] rest)) (Some extension) (Some 1) =
      (MCL_WIRE_OK, Some (presence_reader [] rest), Some extension, Some 0)" for rest
    using reader_at_end presence_reader_facts(1-3) [OF presence_bytes_Nil(2), of rest] by simp
  show ?thesis
    unfolding test_tier0_without_extensions_is_unchanged_def encode_ext_empty
    using presence_plain [of with_api 275 0] presence_plain [of without 17 0] assms byte same plain ext finish
      presence_length
    by (simp add: nth_append)
qed

text \<open>A reader over the block of two extensions.\<close>

lemma read_two:
  assumes "rdx_wf r" and "rdx_rest r = block_wire [t, u]" and "block_ok (rdx_previous r) [t, u]"
  defines "r' \<equiv> rdx_after t r" and "r'' \<equiv> rdx_after u (rdx_after t r)"
  shows "mcl_wire_extension_reader_next (Some r) (Some e0) (Some h0) = (MCL_WIRE_OK, Some r', Some (rdx_view t r), Some 1)"
    and "mcl_wire_extension_reader_next (Some r') (Some e1) (Some h1) = (MCL_WIRE_OK, Some r'', Some (rdx_view u r'), Some 1)"
    and "mcl_wire_extension_reader_next (Some r'') (Some e2) (Some h2) = (MCL_WIRE_OK, Some r'', Some e2, Some 0)"
    and "tlv_of (rdx_view t r) = t"
proof -
  have t: "rdx_rest r = tlv_wire t @ tlv_wire u" "tlv_ok t" "tlv_above (rdx_previous r) t"
    using assms(2,3) by (simp_all add: tlv_above_def)
  note after = rdx_after_wf [OF assms(1) t(1), folded r'_def]
  have u: "rdx_rest r' = tlv_wire u @ []" "tlv_ok u" "tlv_above (rdx_previous r') u"
    using assms(3) after(2,3) by (simp_all add: tlv_above_def)
  note last = rdx_after_wf [OF after(1) u(1)]
  show "mcl_wire_extension_reader_next (Some r) (Some e0) (Some h0) = (MCL_WIRE_OK, Some r', Some (rdx_view t r), Some 1)"
    unfolding r'_def by (rule reader_next_wire [OF assms(1) t])
  show "mcl_wire_extension_reader_next (Some r') (Some e1) (Some h1) = (MCL_WIRE_OK, Some r'', Some (rdx_view u r'), Some 1)"
    using reader_next_wire [OF after(1) u] by (simp add: r''_def r'_def)
  show "mcl_wire_extension_reader_next (Some r'') (Some e2) (Some h2) = (MCL_WIRE_OK, Some r'', Some e2, Some 0)"
    using reader_at_end [OF last(1,2)] by (simp add: r''_def r'_def)
  show "tlv_of (rdx_view t r) = t" by (rule tlv_of_view(1) [OF assms(1) t(1)])
qed

lemma presence_bytes_bit:
  assumes "attachable es" and "es \<noteq> []"
  shows "hdr_extension_present (wire_header (presence_bytes es @ rest)) = 1" and "presence_bytes es ! 1 = 3"
    and "11 \<le> length (presence_bytes es)"
proof -
  have bytes: "presence_bytes es = object_bytes 1 0 make_presence @ ext_suffix (map tlv_of es)"
    using assms(2) by (simp add: presence_bytes_def ext_wire_def ext_bit_def)
  then show "hdr_extension_present (wire_header (presence_bytes es @ rest)) = 1"
    using wire_header_object_bytes [OF presence_facts(1), of 1 "ext_suffix (map tlv_of es) @ rest"] by simp
  have "object_bytes 1 0 make_presence = [0, 3, 0, 0, 0xA1, 0x7C, 3, 0xAB, 0xCD, 0xEF, 60]" by code_simp
  with bytes show "presence_bytes es ! 1 = 3" and "11 \<le> length (presence_bytes es)" by simp_all
qed

lemma round_trip_passes:
  assumes "length buffer = 275"
  shows "test_tier0_round_trip_with_extensions decoded reader read_back buffer = Some ()"
proof -
  define es where "es = [\<lparr>ext_id = 7, ext_critical = 0, ext_value = Some [0xDE, 0xAD], ext_value_size = 2\<rparr>,
     \<lparr>ext_id = 4096, ext_critical = 0, ext_value = Some [0x01, 0x02, 0x03, 0x04, 0x05], ext_value_size = 5\<rparr>]"
  have tlvs: "map tlv_of es = [(7, 0, [0xDE, 0xAD]), (4096, 0, [1, 2, 3, 4, 5])]"
    by (simp add: es_def tlv_of_def ext_bytes_def)
  have ok: "list_all ext_ok es" "\<forall>e \<in> set es. readable e \<and> ext_value_size e < 40" "length es \<le> 5" "es \<noteq> []"
    by (simp_all add: es_def ext_ok_def readable_def)
  have ordered: "block_ok None (map tlv_of es)" by (simp add: tlvs tlv_ok_def)
  note att = attachable_small [OF ok(1) ordered ok(2,3)] and ne = ok(4)
  define n where "n = length (presence_bytes es)"
  define rest where "rest = replicate (275 - n) (0xFF :: u8)"
  have n: "n \<le> 275" using presence_bytes_bound [OF att] by (simp add: n_def)
  note bit = presence_bytes_bit [OF att ne]
  have enc: "mcl_wire_tier0_encode_ext (Some make_presence) (Some es) 2 (Some buffer) 275 (Some 0) =
      (MCL_WIRE_OK, Some (presence_bytes es @ drop n buffer), Some n)"
    using presence_encodes [OF att, of 2 275 buffer 0] assms by (simp add: n_def) (simp add: es_def)
  have crit: "list_all (\<lambda>e. ext_critical e = 0) es" by (simp add: es_def)
  define r where "r = presence_reader es rest"
  have dec: "mcl_wire_tier0_decode_ext (Some (presence_bytes es @ rest)) m (Some o0) (Some r0) (Some c0) =
      (MCL_WIRE_OK, Some make_presence, Some r, Some n)" if "n \<le> m" "m \<le> 275" for m o0 r0 c0
    using presence_decodes_plain [OF att, of m rest o0 r0 c0] that crit n by (simp add: n_def rest_def r_def)
  have plain: "fst (mcl_wire_tier0_decode (Some (presence_bytes es @ rest)) n (Some o0) (Some c0)) =
      MCL_WIRE_ERR_UNSUPPORTED_SEMANTIC" for o0 c0
    using decode_clear_bit [of n "presence_bytes es @ rest" o0 c0] bit by (simp add: n_def)
  note facts = presence_reader_facts(1-3) [OF att, of rest, folded r_def]
  have "block_ok (rdx_previous r) (map tlv_of es)" using facts(3) ordered by simp
  note two = read_two [OF facts(1) facts(2) [unfolded tlvs] this [unfolded tlvs]]
  have first: "ext_id (rdx_view (7, 0, [0xDE, 0xAD]) r) = 7" "ext_critical (rdx_view (7, 0, [0xDE, 0xAD]) r) = 0"
    "ext_value_size (rdx_view (7, 0, [0xDE, 0xAD]) r) = 2"
    by (simp_all add: rdx_view_def)
  then have "take 2 (the (ext_value (rdx_view (7, 0, [0xDE, 0xAD]) r))) = [0xDE, 0xAD]"
    using two(4) by (simp add: tlv_of_def ext_bytes_def)
  then have val: "the (ext_value (rdx_view (7, 0, [0xDE, 0xAD]) r)) ! 0 = 0xDE"
    "the (ext_value (rdx_view (7, 0, [0xDE, 0xAD]) r)) ! 1 = 0xAD"
    using nth_take [of 0 2 "the (ext_value (rdx_view (7, 0, [0xDE, 0xAD]) r))"]
      nth_take [of 1 2 "the (ext_value (rdx_view (7, 0, [0xDE, 0xAD]) r))"] by simp_all
  have second: "ext_id (rdx_view (4096, 0, [1, 2, 3, 4, 5]) x) = 4096"
    "ext_value_size (rdx_view (4096, 0, [1, 2, 3, 4, 5]) x) = 5" for x
    by (simp_all add: rdx_view_def)
  have obj: "obj_kind make_presence = 0" "presence_ttl (body_presence (obj_body make_presence)) = 60"
    by (simp_all add: make_presence_def)
  have mem: "(presence_bytes es @ drop n buffer) ! Suc 0 = 3" "take n (presence_bytes es) = presence_bytes es"
    "n - length (presence_bytes es) = 0"
    using bit(2,3) by (simp_all add: nth_append n_def)
  show ?thesis
    unfolding test_tier0_round_trip_with_extensions_def es_def [symmetric] Let_def enc prod.case
    by (simp add: mem rest_def [symmetric] dec n obj two(1-3) first second plain val val(2) [simplified])
qed

lemma critical_refused_passes:
  assumes "length buffer = 275"
  shows "test_critical_extension_is_refused decoded reader buffer = Some ()"
proof -
  let ?e = "\<lambda>i c. \<lparr>ext_id = i, ext_critical = c, ext_value = Some [0x99], ext_value_size = 1\<rparr>"
  define es where "es = [?e 2 0, ?e 9 1]"
  define fs where "fs = [?e 2 1, ?e 9 1]"
  define hs where "hs = take 1 fs"
  have att: "attachable es" "attachable hs"
    by (rule attachable_small; simp add: es_def hs_def fs_def ext_ok_def tlv_ok_def tlv_of_def ext_bytes_def readable_def)+
  have fs: "es[0 := (es ! 0)\<lparr>ext_critical := 1\<rparr>] = fs" "\<forall>e \<in> set fs. readable e" "1 \<le> length fs"
    by (simp_all add: es_def fs_def readable_def)
  have es: "2 = length es" by (simp add: es_def)
  have crit: "\<not> list_all (\<lambda>e. ext_critical e = 0) es" "\<not> list_all (\<lambda>e. ext_critical e = 0) hs"
    by (simp_all add: es_def hs_def fs_def)
  note first = presence_encodes [OF att(1) es, of 275 buffer 0]
  define buffer' where "buffer' = presence_bytes es @ drop (length (presence_bytes es)) buffer"
  have "275 \<le> length buffer'" using assms by (simp add: buffer'_def)
  note second = presence_encodes_first [of 1 fs, folded hs_def, OF att(2) fs(3,2) this, of "length (presence_bytes es)"]
  have "fst (mcl_wire_tier0_decode_ext (Some (presence_bytes hs @ rest)) (length (presence_bytes hs))
      (Some o1) (Some r1) (Some c1)) = MCL_WIRE_ERR_UNSUPPORTED_SEMANTIC" for rest o1 r1 c1
    using presence_decodes_plain [OF att(2), of _ rest o1 r1 c1] crit(2) by simp
  moreover have "mcl_wire_tier0_decode_ext (Some buffer') (length (presence_bytes es)) (Some decoded) (Some reader) (Some 0) =
      (MCL_WIRE_ERR_UNSUPPORTED_SEMANTIC, Some make_presence, Some reader, Some 0)"
    using presence_decodes_plain [OF att(1), of _ "drop (length (presence_bytes es)) buffer" decoded reader 0] crit(1)
    by (simp add: buffer'_def)
  ultimately show ?thesis
    unfolding test_critical_extension_is_refused_def es_def [symmetric] Let_def fs
    using first second assms by (simp add: buffer'_def [symmetric])
qed

lemma decode_truncated:
  assumes "attachable es" and "i < length (presence_bytes es)"
  shows "\<exists>o1. mcl_wire_tier0_decode_ext (Some (presence_bytes es @ rest)) i (Some o0) (Some r0) (Some c0) =
     (MCL_WIRE_ERR_TRUNCATED, Some o1, Some r0, Some c0)"
  using ext_wire_prefix [OF presence_encodable [OF assms(1)], of i rest o0 r0 None "()" c0] assms(2)
  by (auto simp: mcl_wire_tier0_decode_ext_def presence_bytes_def)

lemma truncations_pass:
  assumes "attachable es" and "\<forall>i \<in> set is. i < length (presence_bytes es)"
  shows "\<exists>o1. decode_truncations (presence_bytes es @ rest) is (Some o0, Some r0, Some c0) =
     Some (Some o1, Some r0, Some c0)"
  using assms(2)
proof (induction "is" arbitrary: o0)
  case (Cons i "is")
  obtain o1 where "mcl_wire_tier0_decode_ext (Some (presence_bytes es @ rest)) i (Some o0) (Some r0) (Some c0) =
      (MCL_WIRE_ERR_TRUNCATED, Some o1, Some r0, Some c0)"
    using decode_truncated [OF assms(1), of i rest o0 r0 c0] Cons.prems by auto
  with Cons.IH [of o1] Cons.prems show ?case by simp
qed simp

lemma block_length_passes:
  assumes "length bytes = cap" and "11 + length (uvarint_wire v) \<le> cap" and "tail = uvarint_wire v"
    and "st = (if v = 0 then MCL_WIRE_ERR_NONCANONICAL else MCL_WIRE_ERR_RANGE)" and "v = 0 \<or> 256 < unat v"
  shows "\<exists>o1. test_block_length bytes cap tail st (Some o0, Some r0, Some c0) = Some (Some o1, Some r0, Some c0)"
proof -
  let ?w = "tier0_wire 0 make_presence" and ?ob = "object_bytes 1 0 make_presence"
  let ?rest = "drop (11 + length tail) bytes"
  have len: "length ?ob = 11" using presence_length by (simp add: tier0_wire_object_bytes object_bytes_def)
  have enc: "mcl_wire_tier0_encode (Some make_presence) (Some bytes) cap (Some 0) =
      (MCL_WIRE_OK, Some (?w @ drop 11 bytes), Some 11)"
    using presence_plain [OF assms(1), of 0] assms(2) by simp
  have set: "(?w @ xs)[Suc 0 := (?w @ xs) ! Suc 0 OR 1] = ?ob @ xs" for xs
    by (simp only: tier0_wire_object_bytes set_bit_object_bytes)
  have "fold (\<lambda>i bytes. bytes[11 + i := tail ! i]) [0..<length tail] (?ob @ drop 11 bytes) =
      overwrite 11 (map ((!) tail) [0..<length tail]) (?ob @ drop 11 bytes)"
    by (rule store_overwrite) (use assms(1-3) len in simp)
  also have "\<dots> = ?ob @ tail @ ?rest" by (simp add: overwrite_def len map_nth add.commute)
  finally have store: "fold (\<lambda>i bytes. bytes[11 + i := tail ! i]) [0..<length tail] (?ob @ drop 11 bytes) = ?ob @ tail @ ?rest" .
  have body: "mcl_wire_tier0_decode_body (Some (?ob @ tail @ ?rest)) (11 + length tail) (Some o0) (Some 0) =
      (MCL_WIRE_OK, Some make_presence, Some 11)"
    using decode_body_object_bytes [OF presence_facts(1), of 1 "11 + length tail" "tail @ ?rest" o0 0] len
    by (simp add: presence_facts(2))
  have bit: "hdr_extension_present (wire_header (?ob @ tail @ ?rest)) \<noteq> 0"
    using wire_header_object_bytes [OF presence_facts(1), of 1 "tail @ ?rest"] by simp
  have len_byte: "mcl_wire_uvarint_decode (Some (drop 11 (?ob @ tail @ ?rest))) (11 + length tail - 11) (Some 0) (Some 0) =
      (MCL_WIRE_OK, Some v, Some (length tail))"
    using uvarint_decode_wire [of v "length tail" ?rest 0 0] by (simp add: len assms(3))
  have "2 \<le> 11 + length tail" by simp
  from decode_ext_block [OF body this bit len_byte, of r0 None "()" c0] assms(4,5)
  have "mcl_wire_tier0_decode_ext (Some (?ob @ tail @ ?rest)) (11 + length tail) (Some o0) (Some r0) (Some c0) =
      (st, Some make_presence, Some r0, Some c0)"
    by (auto simp: mcl_wire_tier0_decode_ext_def)
  then show ?thesis by (simp add: test_block_length_def enc set store Let_def)
qed

lemma negatives_pass:
  assumes "length buffer = 275" and "length empty_block = 18" and "length oversized = 21"
  shows "test_tier0_extension_negatives decoded reader buffer empty_block oversized = Some ()"
proof -
  define e where "e i = \<lparr>ext_id = i, ext_critical = 0, ext_value = Some [0x11, 0x22], ext_value_size = 2\<rparr>" for i :: u32
  have e: "ext_ok (e 5)" "ext_ok (e 4)" "ext_ok (e 9)" "\<not> ext_ok (e 0)" "readable (e i)" "ext_id (e i) = i"
    "ext_value_size (e i) = 2" "tlv_of (e i) = (i, 0, [0x11, 0x22])" for i
    by (simp_all add: e_def ext_ok_def readable_def tlv_of_def ext_bytes_def)
  have short: "length (tlv_wire (5, 0, [0x11, 0x22])) = 4" by code_simp
  have att: "attachable [e 5]" "attachable [e 5, e 9]"
    by (rule attachable_small; simp add: e tlv_ok_def)+
  define n where "n = length (presence_bytes [e 5])"
  define out where "out = presence_bytes [e 5] @ drop n buffer"
  have n: "n \<le> 275" using presence_bytes_bound [OF att(1)] by (simp add: n_def)
  then have out: "length out = 275" using assms(1) by (simp add: out_def n_def)
  have first: "mcl_wire_tier0_encode_ext (Some make_presence) (Some [e 5]) (Suc 0) (Some buffer) 275 (Some 0) =
      (MCL_WIRE_OK, Some out, Some n)"
    using presence_encodes [OF att(1), of "Suc 0" 275 buffer 0] assms(1) by (simp add: n_def out_def)
  obtain o1 where truncated: "decode_truncations out [1..<n] (Some decoded, Some reader, Some 0) =
      Some (Some o1, Some reader, Some 0)"
    using truncations_pass [OF att(1), of "[1..<n]" "drop n buffer" decoded reader 0] by (auto simp: out_def n_def)
  have wires: "uvarint_wire 0 = [0]" "uvarint_wire 1000 = [0x87, 0x68]"
    by (simp_all add: uvarint_wire_def uvarint_len.simps [of 0] uvarint_len.simps [of 1000] uvarint_len.simps [of 7])
  obtain o2 where empty: "test_block_length empty_block 18 [0] MCL_WIRE_ERR_NONCANONICAL (Some o1, Some reader, Some 0) =
      Some (Some o2, Some reader, Some 0)"
    using block_length_passes [OF assms(2) _ wires(1) [symmetric] refl, of o1 reader 0] wires(1)
    by (simp only: list.size simp_thms if_True) auto
  obtain o3 where big: "test_block_length oversized 21 [0x87, 0x68] MCL_WIRE_ERR_RANGE (Some o2, Some reader, Some 0) =
      Some (Some o3, Some reader, Some 0)"
    using block_length_passes [OF assms(3) _ wires(2) [symmetric] refl, of o2 reader 0] wires(2)
    by (simp only: list.size) auto
  have status: "block_status MCL_WIRE_ERR_RANGE 256 None [e 5, e 5] = MCL_WIRE_ERR_NONCANONICAL"
    "block_status MCL_WIRE_ERR_RANGE 256 None [e 5, e 4] = MCL_WIRE_ERR_NONCANONICAL"
    "block_status MCL_WIRE_ERR_RANGE 256 None [e 5, e 0] = MCL_WIRE_ERR_RANGE"
    using short by (simp_all add: e)
  have refused: "mcl_wire_tier0_encode_ext (Some make_presence) (Some [e 5, e i]) 2 (Some out) 275 (Some n) =
      (st, Some out, Some n)"
    if "block_status MCL_WIRE_ERR_RANGE 256 None [e 5, e i] = st" "st \<noteq> MCL_WIRE_OK" for i st
    using presence_refused [OF _ _ _ _ that, of 2 275 out n] out by (simp add: e)
  have "ext_wire 0 make_presence (map tlv_of [e 5, e 9]) =
      [0, 3, 0, 0, 0xA1, 0x7C, 3, 0xAB, 0xCD, 0xEF, 60, 8, 10, 2, 0x11, 0x22, 18, 2, 0x11, 0x22]"
    by (simp only: list.map e) code_simp
  then have "length (ext_wire 0 make_presence (map tlv_of [e 5, e 9])) = 20" by (simp only: list.size)
  moreover have "list_all ext_ok [e 5, e 9]" "\<forall>x \<in> set [e 5, e 9]. readable x" "18 \<le> length out"
      "length (tier0_wire 0 make_presence) \<le> 18"
    using out presence_length by (simp_all add: e)
  ultimately obtain out' where small: "mcl_wire_tier0_encode_ext (Some make_presence) (Some [e 5, e 9]) 2 (Some out) 18 (Some n) =
      (MCL_WIRE_ERR_BUFFER_TOO_SMALL, Some out', Some n)"
    using encode_ext_tail [of "[e 5, e 9]" "[e 5, e 9]" make_presence 18 out 2 n] presence_encodable [OF att(2)] by auto
  have invalid: "mcl_wire_tier0_encode_ext None es c b cap w = (MCL_WIRE_ERR_INVALID_ARGUMENT, b, w)"
    "mcl_wire_tier0_encode_ext (Some make_presence) None (Suc 0) (Some out') cap (Some n) =
      (MCL_WIRE_ERR_INVALID_ARGUMENT, Some out', Some n)"
    "fst (mcl_wire_tier0_decode_ext b m obj None c0) = MCL_WIRE_ERR_INVALID_ARGUMENT" for es c b cap w m obj c0
    by (simp_all add: mcl_wire_tier0_encode_ext_def mcl_wire_tier0_decode_ext_def mcl_wire_tier0_decode_ext_accept_def)
  show ?thesis
    unfolding test_tier0_extension_negatives_def e_def [symmetric] Let_def
    by (simp add: first truncated [simplified] empty big refused [OF status(1)] refused [OF status(2)] refused [OF status(3)]
        small invalid)
qed

lemma block_cap_passes:
  assumes "length buffer = 291"
  shows "test_extension_block_cap buffer = Some ()"
proof -
  define v where "v = replicate (264 :: nat) (0x5A :: u8)"
  define e where "e n = \<lparr>ext_id = 1, ext_critical = 0, ext_value = Some v, ext_value_size = n\<rparr>" for n :: nat
  have v: "length v = 264" by (simp add: v_def)
  have e: "ext_ok (e n)" "readable (e n)" if "n \<le> 256" for n using that v by (simp_all add: e_def ext_ok_def readable_def)
  have key: "length (key_wire (e n)) = 1" for n
    by (simp add: key_wire_def e_def tlv_key_def length_uvarint_wire uvarint_len.simps [of 2])
  have sz: "length (size_wire (e 256)) = 2" "length (size_wire (e 252)) = 2"
    by (simp_all add: size_wire_def e_def length_uvarint_wire uvarint_len.simps [of 256] uvarint_len.simps [of 252]
        uvarint_len.simps [of 2] uvarint_len.simps [of "Suc 0"])
  have len: "length (tlv_wire (tlv_of (e 256))) = 259" "length (tlv_wire (tlv_of (e 252))) = 255"
    using key sz by (simp_all add: length_tlv_wire_of e) (simp_all add: e_def)
  have too_big: "block_status MCL_WIRE_ERR_RANGE 256 None [e 256] = MCL_WIRE_ERR_RANGE"
    and inside: "block_status MCL_WIRE_ERR_RANGE 256 None [e 252] = MCL_WIRE_OK"
    using e len by simp_all
  have sizes: "mcl_wire_extensions_encoded_size (Some [e 256]) (Suc 0) (Some 0) = (MCL_WIRE_ERR_RANGE, Some 0)"
    "mcl_wire_extensions_encoded_size (Some [e 252]) (Suc 0) (Some 0) = (MCL_WIRE_OK, Some 255)"
    using extensions_size_result [of "Suc 0" "[e 256]" 0] extensions_size_result [of "Suc 0" "[e 252]" 0] e len
    by (simp_all add: too_big inside)
  have att: "attachable [e 252]" using e len by (simp add: attachable_def tlv_ok_of)
  have refused: "mcl_wire_tier0_encode_ext (Some make_presence) (Some [e 256]) (Suc 0) (Some buffer) 291 (Some 0) =
      (MCL_WIRE_ERR_RANGE, Some buffer, Some 0)"
    using presence_refused [OF _ _ _ _ too_big, of "Suc 0" 291 buffer 0] e assms by simp
  obtain out m where ok: "mcl_wire_tier0_encode_ext (Some make_presence) (Some [e 252]) (Suc 0) (Some buffer) 291 (Some 0) =
      (MCL_WIRE_OK, out, Some m)" "m \<le> 275"
    using presence_encodes [OF att, of "Suc 0" 291 buffer 0] assms presence_bytes_bound [OF att] by simp
  have numbers: "replicate (256 + 8) 0x5A = v" "(256 :: nat) - 4 = 252" "(275 :: nat) + 16 = 291" by (simp_all add: v_def)
  show ?thesis
    unfolding test_extension_block_cap_def numbers e_def [symmetric] Let_def
    using ok(2) by (simp add: sizes refused ok(1))
qed

section \<open>The callback of the tests\<close>

lemma knows_view:
  assumes "rdx_wf r" and "rdx_rest r = tlv_wire (i, c, [x]) @ rest"
  defines "e \<equiv> rdx_view (i, c, [x]) r"
  shows "knows_one_id g (ext_id e) (ext_value e) (ext_value_size e) =
     (if i = g_known_id g \<and> x = g_required_value g then 1 else 0,
      g\<lparr>g_known_calls := g_known_calls g + 1, g_seen_value_size := 1\<rparr>)"
proof -
  have e: "ext_id e = i" "ext_value_size e = 1" by (simp_all add: e_def rdx_view_def)
  then have "take 1 (the (ext_value e)) = [x]"
    using tlv_of_view(1) [OF assms(1,2), folded e_def] by (simp add: tlv_of_def ext_bytes_def)
  then have "the (ext_value e) ! 0 = x" using nth_take [of 0 1 "the (ext_value e)"] by simp
  moreover obtain bs where "ext_value e = Some bs" using assms(1) by (auto simp: e_def rdx_view_def rdx_wf_def)
  ultimately show ?thesis by (simp add: knows_one_id_def e Let_def)
qed

text \<open>The answers of the callback on a block whose values are all the byte \<open>x\<close>.\<close>

primrec known_run :: "u8 \<Rightarrow> known_globals \<Rightarrow> (u32 \<times> u8) list \<Rightarrow> bool \<times> known_globals" where
  "known_run x g [] = (True, g)"
| "known_run x g (ic # ics) =
     (if snd ic = 0 then known_run x g ics
      else
        let g' = g\<lparr>g_known_calls := g_known_calls g + 1, g_seen_value_size := 1\<rparr>
        in if fst ic = g_known_id g \<and> x = g_required_value g then known_run x g' ics else (False, g'))"

lemma accept_known_run:
  assumes "rdx_wf r" and "rdx_rest r = block_wire (map (\<lambda>ic. (fst ic, snd ic, [x])) ics)"
  shows "accept_all (Some knows_one_id) g (rdx_views r (map (\<lambda>ic. (fst ic, snd ic, [x])) ics)) = known_run x g ics"
  using assms
proof (induction ics arbitrary: r g)
  case (Cons ic ics)
  define t where "t = (fst ic, snd ic, [x])"
  have r: "rdx_rest r = tlv_wire t @ block_wire (map (\<lambda>ic. (fst ic, snd ic, [x])) ics)"
    using Cons.prems(2) by (simp add: t_def)
  note IH = Cons.IH [OF rdx_after_wf(1,2) [OF Cons.prems(1) r]]
  have crit: "ext_critical (rdx_view t r) = snd ic" by (simp add: rdx_view_def t_def)
  have views: "rdx_views r (map (\<lambda>ic. (fst ic, snd ic, [x])) (ic # ics)) =
      rdx_view t r # rdx_views (rdx_after t r) (map (\<lambda>ic. (fst ic, snd ic, [x])) ics)"
    by (simp add: t_def)
  define hit where "hit \<longleftrightarrow> fst ic = g_known_id g \<and> x = g_required_value g"
  define g' where "g' = g\<lparr>g_known_calls := g_known_calls g + 1, g_seen_value_size := 1\<rparr>"
  have "known_run x g (ic # ics) =
      (if snd ic = 0 then known_run x g ics else if hit then known_run x g' ics else (False, g'))"
    by (simp only: known_run.simps hit_def g'_def Let_def)
  then show ?case
    unfolding views
    using knows_view [OF Cons.prems(1) r [unfolded t_def], folded t_def, of g, folded hit_def g'_def]
    by (simp add: crit IH del: known_run.simps)
qed simp

lemma known_decodes:
  assumes "attachable es" and "map tlv_of es = map (\<lambda>ic. (fst ic, snd ic, [x])) ics"
    and "known_run x g ics = (ok, g')"
  shows "mcl_wire_tier0_decode_ext_accept (Some (presence_bytes es @ rest)) (length (presence_bytes es)) (Some o0)
      (Some r0) (Some knows_one_id) g (Some c0) =
    (if ok then (MCL_WIRE_OK, Some make_presence, Some (presence_reader es rest), Some (length (presence_bytes es)), g')
     else (MCL_WIRE_ERR_UNSUPPORTED_SEMANTIC, Some make_presence, Some r0, Some c0, g'))"
proof (rule presence_decodes [OF assms(1)])
  note r = presence_reader_facts(1,2) [OF assms(1), of rest]
  from accept_known_run [OF r(1), of x ics g] r(2) assms(2,3)
  show "accept_all (Some knows_one_id) g (rdx_views (presence_reader es rest) (map tlv_of es)) = (ok, g')" by simp
qed simp_all

lemma recognition_passes:
  assumes "length buffer = 275"
  shows "test_critical_extension_recognition decoded reader buffer g = Some ()"
proof -
  define e where "e i c = \<lparr>ext_id = i, ext_critical = c, ext_value = Some [0x77], ext_value_size = 1\<rparr>" for i c
  have e: "ext_ok (e 17 1)" "ext_ok (e 17 0)" "ext_ok (e 33 1)" "readable (e i c)" "ext_value_size (e i c) = 1"
    "tlv_of (e i c) = (i, c, [0x77])" "ext_critical (e i c) = c" for i c
    by (simp_all add: e_def ext_ok_def readable_def tlv_of_def ext_bytes_def)
  have att: "attachable [e 17 1]" "attachable [e 17 0]" "attachable [e 17 1, e 33 1]"
    by (rule attachable_small; simp add: e tlv_ok_def)+
  have enc: "\<exists>b'. mcl_wire_tier0_encode_ext (Some make_presence) (Some es) count (Some b) 275 (Some w) =
      (MCL_WIRE_OK, Some b', Some (length (presence_bytes es))) \<and> length b' = 275 \<and> (\<exists>rest. b' = presence_bytes es @ rest)"
    if "attachable es" "count = length es" "length b = 275" for es count b w
    using presence_encodes [OF that(1,2), of 275 b w] presence_bytes_bound [OF that(1)] that(3) by auto
  have answers: "mcl_wire_tier0_decode_ext_accept (Some b) (length (presence_bytes es)) (Some o0)
      (Some r0) (Some knows_one_id) g (Some c0) =
    (if fst (known_run 0x77 g ics)
     then (MCL_WIRE_OK, Some make_presence, Some (presence_reader es rest), Some (length (presence_bytes es)),
           snd (known_run 0x77 g ics))
     else (MCL_WIRE_ERR_UNSUPPORTED_SEMANTIC, Some make_presence, Some r0, Some c0, snd (known_run 0x77 g ics)))"
    if "attachable es" "map tlv_of es = map (\<lambda>ic. (fst ic, snd ic, [0x77])) ics" "b = presence_bytes es @ rest"
    for es ics b rest o0 r0 g c0
    using known_decodes [OF that(1,2) prod.collapse [symmetric], of rest o0 r0 g c0] by (simp add: that(3))
  obtain b1 rest1 where run1: "mcl_wire_tier0_encode_ext (Some make_presence) (Some [e 17 1]) (Suc 0) (Some buffer) 275 (Some 0) =
      (MCL_WIRE_OK, Some b1, Some (length (presence_bytes [e 17 1])))"
    and b1: "length b1 = 275" "b1 = presence_bytes [e 17 1] @ rest1"
    using enc [OF att(1), of "Suc 0" buffer 0] assms by auto
  obtain b2 rest2 where run2: "mcl_wire_tier0_encode_ext (Some make_presence) (Some [e 17 0]) (Suc 0) (Some b1) 275
      (Some (length (presence_bytes [e 17 1]))) = (MCL_WIRE_OK, Some b2, Some (length (presence_bytes [e 17 0])))"
    and b2: "length b2 = 275" "b2 = presence_bytes [e 17 0] @ rest2"
    using enc [OF att(2), of "Suc 0" b1 "length (presence_bytes [e 17 1])"] b1(1) by auto
  obtain b3 rest3 where run3: "mcl_wire_tier0_encode_ext (Some make_presence) (Some [e 17 1, e 33 1]) 2 (Some b2) 275
      (Some (length (presence_bytes [e 17 0]))) = (MCL_WIRE_OK, Some b3, Some (length (presence_bytes [e 17 1, e 33 1])))"
    and b3: "b3 = presence_bytes [e 17 1, e 33 1] @ rest3"
    using enc [OF att(3), of 2 b2 "length (presence_bytes [e 17 0])"] b2(1) by auto
  note one = answers [OF att(1) _ b1(2), of "[(17, 1)]", unfolded list.map e]
    and optional = answers [OF att(2) _ b2(2), of "[(17, 0)]", unfolded list.map e]
    and two = answers [OF att(3) _ b3, of "[(17, 1), (33, 1)]", unfolded list.map e]
  have unknown: "mcl_wire_tier0_decode_ext_accept (Some b1) (length (presence_bytes [e 17 1])) (Some o0) (Some r0)
      None (g :: known_globals) (Some c0) = (MCL_WIRE_ERR_UNSUPPORTED_SEMANTIC, Some make_presence, Some r0, Some c0, g)"
    and plain: "mcl_wire_tier0_decode_ext (Some b1) (length (presence_bytes [e 17 1])) (Some o0) (Some r0) (Some c0) =
      (MCL_WIRE_ERR_UNSUPPORTED_SEMANTIC, Some make_presence, Some r0, Some c0)" for o0 r0 c0 g
    using presence_decodes_no_callback [OF att(1), of _ rest1 o0 r0 g c0]
      presence_decodes_plain [OF att(1), of _ rest1 o0 r0 c0]
    by (simp_all add: b1(2) e)
  show ?thesis
    unfolding test_critical_extension_recognition_def e_def [symmetric] Let_def
    by (simp add: run1 run2 run3 one optional two unknown plain)
qed

section \<open>The program\<close>

text \<open>The sizes the program declares its buffers with.\<close>

definition declared_sizes :: "test_stack \<Rightarrow> bool" where
  "declared_sizes k \<longleftrightarrow>
     length (stk_uvarint k) = 5 \<and> length (stk_values k) = 12 \<and> length (stk_block k) = 1024 \<and>
     length (stk_encoded k) = 64 \<and> length (stk_with_api k) = 275 \<and> length (stk_without k) = 17 \<and>
     length (stk_empty_block k) = 18 \<and> length (stk_oversized k) = 21 \<and>
     (\<forall>i. length (stk_buffer k i) = (if i = 8 then 291 else 275))"

text \<open>
  C32: \<open>tests/test_extension.c\<close> passes, and not for its seed and its numbers of trials only: from every state
  of the random number generator, with any number of trials, every random integer and every random block
  comes back as it was encoded, and \<open>main\<close> exits with 0, whatever the buffers, objects and readers hold
  that the program does not initialise.
\<close>

theorem test_extension_passes:
  assumes "declared_sizes k"
  shows "(\<exists>rng. test_uvarint trials (stk_uvarint k) seed (stk_val k) (stk_consumed k) = Some rng) \<and>
     (\<exists>rng. test_extension_blocks (stk_values k) (stk_block k) (stk_reader k 2) (stk_extension k 2) trials seed = Some rng) \<and>
     test_extension_main k = 0"
proof -
  have k: "length (stk_uvarint k) = 5" "length (stk_values k) = 12" "length (stk_block k) = 1024"
    "length (stk_encoded k) = 64" "length (stk_with_api k) = 275" "length (stk_without k) = 17"
    "length (stk_empty_block k) = 18" "length (stk_oversized k) = 21"
    "length (stk_buffer k 5) = 275" "length (stk_buffer k 6) = 275" "length (stk_buffer k 7) = 275"
    "length (stk_buffer k 8) = 291" "length (stk_buffer k 9) = 275"
    using assms by (simp_all add: declared_sizes_def)
  note uv = uvarint_passes [OF k(1)] and blocks = extension_blocks_pass [OF k(2,3)]
  obtain rng where rng: "test_uvarint 10000 (stk_uvarint k) 0x31415926 (stk_val k) (stk_consumed k) = Some rng"
    using uv by blast
  obtain rng' where "test_extension_blocks (stk_values k) (stk_block k) (stk_reader k 2) (stk_extension k 2) 2000 rng = Some rng'"
    using blocks by blast
  with rng have "test_extension_main k = 0"
    by (simp add: test_extension_main_def exit_code_def negative_cases_pass [OF k(4)]
        without_extensions_passes [OF k(5,6)] round_trip_passes [OF k(9)] critical_refused_passes [OF k(10)]
        negatives_pass [OF k(11,7,8)] block_cap_passes [OF k(12)] recognition_passes [OF k(13)])
  with uv blocks show ?thesis by blast
qed

theorem test_extension_passes_witness:
  "test_extension_main
     \<lparr>stk_uvarint = replicate 5 0, stk_val = 0, stk_consumed = 0, stk_values = replicate 12 (replicate 40 0),
      stk_block = replicate 1024 0, stk_encoded = replicate 64 0, stk_with_api = replicate 275 0,
      stk_without = replicate 17 0, stk_plain = zero_object, stk_empty_block = replicate 18 0,
      stk_oversized = replicate 21 0, stk_has = 0,
      stk_buffer = (\<lambda>i. replicate (if i = 8 then 291 else 275) 0), stk_decoded = (\<lambda>_. zero_object),
      stk_reader = (\<lambda>_. block_reader [] 0), stk_extension = (\<lambda>_. no_extension)\<rparr> = 0"
  by (rule test_extension_passes [THEN conjunct2, THEN conjunct2]) (simp add: declared_sizes_def)

end
