(* ===== verification/Wire_Test_Fuzz.thy ===== *)
theory Wire_Test_Fuzz
  imports Wire_Test Wire_Memory
begin

text \<open>
  The program \<open>tests/test_fuzz_decode.c\<close>, which checks nothing but that the decoder returns: here, that what
  the decoder answers in a run depends on the random numbers only and not on what the stack held.
\<close>

unbundle bit_operations_syntax

definition mcl_fuzz_random :: "(u32, u32) state" where
  "mcl_fuzz_random = State (\<lambda>state.
     let r = state XOR push_bit 13 state;
         r = r XOR drop_bit 17 r;
         r = r XOR push_bit 5 r
     in (r, r))"

text \<open>The loop that stores \<open>n\<close> random bytes from index \<open>i\<close>.\<close>

primrec fuzz_fill :: "nat \<Rightarrow> nat \<Rightarrow> u8 list \<Rightarrow> (u32, u8 list) state" where
  "fuzz_fill 0 i data = State_Monad.return data"
| "fuzz_fill (Suc n) i data = do {
     r \<leftarrow> mcl_fuzz_random;
     fuzz_fill n (i + 1) (data[i := ucast r]) }"

text \<open>The trials; the result is the list of the statuses, which the program discards.\<close>

primrec fuzz_trials ::
    "nat \<Rightarrow> u8 list \<Rightarrow> mcl_wire_tier0 ptr \<Rightarrow> nat ptr \<Rightarrow> u32 \<Rightarrow> mcl_wire_status list" where
  "fuzz_trials 0 data object consumed rng = []"
| "fuzz_trials (Suc n) data object consumed rng =
     (case run_state mcl_fuzz_random rng of
        (r, rng) \<Rightarrow>
          let size = unat (r mod 33) in
          case run_state (fuzz_fill size 0 data) rng of
            (data, rng) \<Rightarrow>
              (case mcl_wire_tier0_decode (Some data) size object consumed of
                 (st, object, consumed) \<Rightarrow> st # fuzz_trials n data object consumed rng))"

definition test_fuzz_main :: "u8 list \<Rightarrow> mcl_wire_tier0 \<Rightarrow> mcl_wire_status list \<times> int" where
  "test_fuzz_main data0 object0 = (fuzz_trials 1000000 data0 (Some object0) (Some 0) 0x9e3779b9, 0)"

lemma run_fuzz_fill:
  "i + n \<le> length data \<Longrightarrow>
   \<exists>bs s'. length bs = n \<and>
     (\<forall>data. i + n \<le> length data \<longrightarrow>
        run_state (fuzz_fill n i data) s = (take i data @ bs @ drop (i + n) data, s'))"
proof (induction n arbitrary: i data s)
  case 0
  then show ?case by simp
next
  case (Suc n)
  obtain r s0 where r: "run_state mcl_fuzz_random s = (r, s0)" by (cases "run_state mcl_fuzz_random s")
  have "Suc i + n \<le> length data" using Suc.prems by simp
  from Suc.IH [OF this, of s0] obtain bs s' where bs: "length bs = n"
    "\<forall>data. Suc i + n \<le> length data \<longrightarrow>
       run_state (fuzz_fill n (Suc i) data) s0 = (take (Suc i) data @ bs @ drop (Suc i + n) data, s')" by blast
  have "run_state (fuzz_fill (Suc n) i data) s = (take i data @ (ucast r # bs) @ drop (i + Suc n) data, s')"
    if "i + Suc n \<le> length data" for data
    using that bs(2) by (simp add: r take_Suc_conv_app_nth)
  with bs(1) show ?case by (intro exI [of _ "ucast r # bs"] exI [of _ s']) simp
qed

lemma decode_status_only:
  assumes "n \<le> length bs" and "n \<le> length bs'" and "take n bs = take n bs'"
  shows "\<exists>st obj c obj' c'. mcl_wire_tier0_decode (Some bs) n (Some o0) (Some c0) = (st, Some obj, Some c) \<and>
     mcl_wire_tier0_decode (Some bs') n (Some o1) (Some c1) = (st, Some obj', Some c')"
proof -
  have same: "mcl_wire_tier0_decode (Some bs) n (Some o1) (Some c1) = mcl_wire_tier0_decode (Some bs') n (Some o1) (Some c1)"
    using decode_body_prefix_only [OF assms, of o1 c1] wire_header_prefix [OF assms(3)]
    by (cases "2 \<le> n") (simp_all add: decode_clear_bit [OF assms(1)] decode_clear_bit [OF assms(2)])
  have "\<exists>st obj c obj' c'. mcl_wire_tier0_decode_body (Some bs) n (Some o0) (Some c0) = (st, Some obj, Some c) \<and>
      mcl_wire_tier0_decode_body (Some bs) n (Some o1) (Some c1) = (st, Some obj', Some c')"
  proof (cases "n < 2")
    case True
    then show ?thesis by (simp add: decode_body_short)
  next
    case False
    then show ?thesis
      using decode_body_refused [of n bs] decode_body_accepted [of bs _ n] assms(1)
      by (cases "wire_kind bs") simp_all
  qed
  then show ?thesis unfolding same [symmetric] by (auto simp: decode_clear_bit [OF assms(1)])
qed

lemma fuzz_reproducible:
  assumes "length data = 32" and "length data' = 32"
  shows "fuzz_trials n data (Some obj) (Some c) rng = fuzz_trials n data' (Some obj') (Some c') rng"
  using assms
proof (induction n arbitrary: data data' obj obj' c c' rng)
  case (Suc n)
  obtain r rng1 where r: "run_state mcl_fuzz_random rng = (r, rng1)" by (cases "run_state mcl_fuzz_random rng")
  have "unat (r mod 33) < 33" by (simp add: unat_mod)
  then have size: "0 + unat (r mod 33) \<le> length data" "0 + unat (r mod 33) \<le> length data'" using Suc.prems by simp_all
  obtain bs rng2 where bs: "length bs = unat (r mod 33)"
    "run_state (fuzz_fill (unat (r mod 33)) 0 data) rng1 = (bs @ drop (unat (r mod 33)) data, rng2)"
    "run_state (fuzz_fill (unat (r mod 33)) 0 data') rng1 = (bs @ drop (unat (r mod 33)) data', rng2)"
    using run_fuzz_fill [OF size(1), of rng1] size by auto
  let ?d = "bs @ drop (unat (r mod 33)) data" and ?d' = "bs @ drop (unat (r mod 33)) data'"
  obtain st o1 c1 o2 c2 where
    "mcl_wire_tier0_decode (Some ?d) (unat (r mod 33)) (Some obj) (Some c) = (st, Some o1, Some c1)"
    "mcl_wire_tier0_decode (Some ?d') (unat (r mod 33)) (Some obj') (Some c') = (st, Some o2, Some c2)"
    using decode_status_only [of "unat (r mod 33)" ?d ?d' obj c obj' c'] bs(1) by auto
  moreover have "length ?d = 32" "length ?d' = 32" using bs(1) size Suc.prems by simp_all
  ultimately show ?case using Suc.IH [of ?d ?d'] by (simp add: r bs(2,3))
qed simp

end
