(* ===== verification/Spec2Isabelle.thy ===== *)
theory Spec2Isabelle
  imports Wire_Duration Wire_Field_Spec Wire_Extension_Spec Wire_Tier0_Spec Wire_Tier0_Ext_Spec
    Wire_Layout_Spec Wire_Registry_Verdict Wire_Extension_Vectors_Spec
    Wire_Major1_Vectors_Spec Wire_Bench_Verdict
    Wire_Receiver Wire_Memory Wire_Test_Spec Wire_Test_Extension_Spec Wire_Test_Fuzz
begin

text \<open>
  A verification development for MCL Wire, the C99 library that encodes and decodes the messages of the
  Machine Contact Layer.

  \<^bold>\<open>The program.\<close> \<open>src/wire.c\<close> writes and reads bit fields in a byte buffer (\<open>mcl_write_u\<close>,
  \<open>mcl_write_s\<close>, \<open>mcl_read_u\<close>, \<open>mcl_read_s\<close>, \<open>mcl_require_zero_padding\<close>), the two-byte common header,
  the one-byte duration codes, and on top of them the seven Tier-0 objects
  (\<open>mcl_wire_tier0_encode_at_major\<close>, \<open>mcl_wire_tier0_decode_body\<close>, \<open>mcl_wire_tier0_decode\<close>).
  \<open>src/extension.c\<close> adds the variable-length integers, blocks of extensions with a reader that steps
  through them, and Tier-0 objects with such a block (\<open>mcl_wire_tier0_encode_ext\<close>,
  \<open>mcl_wire_tier0_decode_ext_accept\<close>). Five programs use the library: \<open>tools/validate_tier0_layout.c\<close> checks the
  documented layout of the objects against the codec, \<open>tools/validate_extension_registry.c\<close> the registry of
  extension ids, \<open>tools/validate_extension_vectors.c\<close> and \<open>tools/validate_major1_vectors.c\<close> the published test
  vectors, and \<open>benchmarks/benchmark_source.c\<close> compares the size of the objects with other formats. Six test
  programs under \<open>tests\<close> exercise the library on random and on fixed inputs.

  \<^bold>\<open>The theories.\<close>
  \<^item> \<open>Wire_Prelude\<close>: status codes, pointers, the macro \<open>MCL_TRY\<close>, bit strings and their relation to words.
  \<^item> \<open>Wire_Bits\<close>: the bit writer and reader of \<open>wire.c\<close>. \<open>Wire_Field\<close>: the interface \<open>bit_field\<close> that the
    unsigned, the signed and the mixed fields implement, and sequences of fields. \<open>Wire_Header\<close>: the
    common header, kinds, codes, majors and sizes. \<open>Wire_Field_Spec\<close>: what these promise.
  \<^item> \<open>Wire_Duration\<close>: duration codes, as an interpretation of a code that rounds down.
  \<^item> \<open>Wire_Tier0\<close>: objects, encoder and decoder. \<open>Wire_Tier0_Facts\<close>: both switches are the slot list
    \<open>tier0_slots\<close>, hence what they write and read. \<open>Wire_Tier0_Spec\<close>: what they promise.
  \<^item> \<open>Wire_Codec\<close>: the contract of a self-delimiting code of bounded length; its interpretations are the
    uvarints (\<open>Wire_Uvarint\<close>, 5 bytes), the objects (\<open>Wire_Tier0_Spec\<close>, 17 bytes) and the objects with
    extensions (\<open>Wire_Tier0_Ext_Spec\<close>, 275 bytes).
  \<^item> \<open>Wire_Extension\<close>: blocks of extensions and the reader. \<open>Wire_Extension_Facts\<close>,
    \<open>Wire_Reader_Facts\<close>, \<open>Wire_Drain\<close>: the encoder and the size function, one step of the reader and
    its runs, and the caller's loop. \<open>Wire_Extension_Spec\<close>: what they promise.
  \<^item> \<open>Wire_Tier0_Ext\<close>, \<open>Wire_Tier0_Ext_Facts\<close>, \<open>Wire_Tier0_Ext_Spec\<close>: objects with extensions.
  \<^item> \<open>Wire_Layout\<close>, \<open>Wire_Layout_Spec\<close>: the layout table of \<open>tools/validate_tier0_layout.c\<close>, the validator,
    and that the table is right.
  \<^item> \<open>Wire_Scan\<close>: C strings and positions in a text buffer, for the programs that scan JSON.
  \<^item> \<open>Wire_Registry\<close> (\<open>tools/validate_extension_registry.c\<close>), \<open>Wire_Registry_Spec\<close>, \<open>Wire_Registry_Document\<close>,
    \<open>Wire_Registry_Verdict\<close>: the checks on the range table, what the scanner reads from a document of the
    published layout, and the verdict on such a document, with the published registry as the witness; and,
    for any file, when a tombstone is refused and when a missing field is not reported.
  \<^item> \<open>Wire_Extension_Vectors\<close>, \<open>Wire_Extension_Vectors_Spec\<close> (\<open>tools/validate_extension_vectors.c\<close>) and
    \<open>Wire_Major1_Vectors\<close>, \<open>Wire_Major1_Vectors_Spec\<close> (\<open>tools/validate_major1_vectors.c\<close>): the validators of the
    test vectors, over the codec, and for which files they exit with 0.
  \<^item> \<open>Wire_Bench\<close>, \<open>Wire_Bench_Text\<close>, \<open>Wire_Bench_Spec\<close>, \<open>Wire_Bench_Verdict\<close> (\<open>benchmarks/benchmark_source.c\<close>):
    the parser of events and the sizes in four formats, for which files the benchmark exits with 0, with
    the published cases as the witness.
  \<^item> \<open>Wire_Receiver\<close>, \<open>Wire_Memory\<close>: what the decoders promise a receiver beyond their outcome. Waiting for more
    bytes while the answer is truncated ends with the object, delivered objects are well-typed, the callback
    is called at most 128 times, and no byte behind \<open>data_size\<close> has an influence.
  \<^item> \<open>Wire_Test\<close>, \<open>Wire_Test_Spec\<close> (\<open>tests/test_wire.c\<close>, \<open>test_vectors.c\<close>, \<open>test_major_rule.c\<close>,
    \<open>test_duration.c\<close>), \<open>Wire_Test_Extension\<close>, \<open>Wire_Test_Extension_Spec\<close> (\<open>tests/test_extension.c\<close>) and
    \<open>Wire_Test_Fuzz\<close> (\<open>tests/test_fuzz_decode.c\<close>): the test programs with their random number generator in
    the state monad. They pass, for every seed and any number of trials, and whatever their
    uninitialised memory holds.

  \<^bold>\<open>How C is modelled.\<close> A byte, a 16-bit and a 32-bit integer are words of that width, signed ones read
  through \<^const>\<open>sint\<close>, so that every shift, mask, conversion and overflow is the machine's. \<open>size_t\<close> and
  \<open>unsigned\<close> counters are natural numbers: the code bounds each by the size of a buffer, and each
  subtraction is guarded. A pointer is an option, \<open>None\<close> for \<open>NULL\<close>; a function returns the new contents
  of whatever it writes through a pointer, on every path, so that what a refused call has already written
  is visible. The union of the bodies is a record of its members: the codec accesses only the member of
  the object's kind. The callback of \<open>mcl_wire_tier0_decode_ext_accept\<close> is an arbitrary function of the
  caller's state. Loops are recursive functions with a termination measure; no fuel is used anywhere.
  Assumptions on buffers (\<open>cap \<le> length out\<close>: the caller's capacity is not larger than its buffer;
  \<open>readable\<close>: a value pointer points to \<open>value_size\<close> bytes) are the C caller's obligations.

  The programs: a text buffer is a list of characters and a pointer into it a position, or in the benchmark
  the list of the bytes it points to. A message \<open>FAIL\<close> is a value of a datatype of problems and the
  counter of failures their number; an \<open>exit\<close> inside a helper is the failure value of that helper. Objects and
  arrays that C leaves uninitialised before it passes them to the codec, the contents of files and \<open>qsort\<close> are
  parameters; \<open>qsort\<close> is assumed to sort (\<open>qsort_contract\<close>), and a stable sort shows that this can hold.
  \<open>long\<close> has 64 bits.

  The number of trials of a test is a parameter and only \<open>main\<close> fixes it, so that no proof runs the loops;
  the loops over all codes and over all 507905 seconds are followed by lemmas about one round.

  \<^bold>\<open>Not modelled.\<close> What the programs print, among it the count of checks of the validators and the means of
  the benchmark; the bytes of padding inside C structures, which \<open>memcmp\<close> in the tests compares too (both sides
  are zeroed first); the build files.
\<close>

section \<open>Where the documents and the code part\<close>

text \<open>
  \<open>spec/common-header-v0.2.md\<close> section 3.1 has a major-0 PRESENCE refused on length when it is presented
  at major 1. The decoder accepts it: eleven bytes are enough for the ten of the major-1 body, and the
  fields shift by the missing machine class.
\<close>

lemma presence_major_0_read_at_major_1:
  "mcl_wire_tier0_decode (Some [0x00, 0, 1, 2, 3, 4, 9, 0xAA, 0xBB, 0xCC, 60]) 11 (Some zero_object) (Some 0) =
     (MCL_WIRE_OK, Some (zero_object\<lparr>obj_source_ref := 0x01020304, obj_body := zero_body\<lparr>body_presence :=
        \<lparr>presence_machine_class = 9, presence_capability_tag = 0xAABBCC, presence_ttl = 60\<rparr>\<rparr>\<rparr>), Some 11)"
  "mcl_wire_tier0_decode (Some [0x10, 0, 1, 2, 3, 4, 9, 0xAA, 0xBB, 0xCC, 60]) 11 (Some zero_object) (Some 0) =
     (MCL_WIRE_OK, Some (zero_object\<lparr>obj_source_ref := 0x01020304, obj_body := zero_body\<lparr>body_presence :=
        \<lparr>presence_machine_class = 0, presence_capability_tag = 0x09AABB, presence_ttl = 0xCC\<rparr>\<rparr>\<rparr>), Some 10)"
  by code_simp+

text \<open>
  \<open>spec/tier0-extensions-v0.1.md\<close> section 6 has trailing bytes inside a block reported as truncated. A
  trailing zero byte is an extension id 0, which the reader reports as noncanonical.
\<close>

lemma trailing_byte_in_block:
  "fst (drain_reader (block_reader [6, 0, 0] 3)) = MCL_WIRE_ERR_NONCANONICAL"
  by code_simp

text \<open>
  The same document has the whole block validated before anything is returned. The object is stored
  before the block is looked at: a refused block leaves the caller's object overwritten.
\<close>

lemma refused_block_overwrites_object:
  "case mcl_wire_tier0_decode_ext (Some ([3, 15] @ drop 2 sample_bytes @ [0])) 16 (Some zero_object)
          (Some (block_reader [] 0)) (Some 0) of
     (st, obj, r, c) \<Rightarrow> st = MCL_WIRE_ERR_NONCANONICAL \<and> obj = Some sample_hazard \<and> c = Some 0"
  by code_simp

end
